theory Spec2Isabelle
  imports Complex_Main "HOL-Library.Sublist"
begin

section \<open>JavaScript values\<close>

text \<open>
  The values the service handles at run time (\<^verbatim>\<open>any\<close> in the TypeScript): the JSON
  values plus \<^verbatim>\<open>undefined\<close>, which is also what reading an absent property gives.
\<close>

datatype jsval =
    JUndefined
  | JNull
  | JBool bool
  | JNum real
  | JStr string
  | JArr "jsval list"
  | JObj "(string \<times> jsval) list"

text \<open>JavaScript truthiness, as used by \<^verbatim>\<open>if (v)\<close>, \<^verbatim>\<open>!v\<close> and \<^verbatim>\<open>v || d\<close>.\<close>

fun truthy :: "jsval \<Rightarrow> bool" where
  "truthy JUndefined = False"
| "truthy JNull = False"
| "truthy (JBool b) = b"
| "truthy (JNum n) = (n \<noteq> 0)"
| "truthy (JStr s) = (s \<noteq> [])"
| "truthy (JArr xs) = True"
| "truthy (JObj kvs) = True"

text \<open>\<^verbatim>\<open>s\<close> used as a condition, for an optional string: set and not empty.\<close>

definition truthy_str :: "string option \<Rightarrow> bool" where
  "truthy_str s = (case s of None \<Rightarrow> False | Some t \<Rightarrow> t \<noteq> [])"

text \<open>\<^verbatim>\<open>options?.name\<close> on an optional \<^verbatim>\<open>Record<string, any>\<close>.\<close>

definition option_of :: "(string \<times> jsval) list option \<Rightarrow> string \<Rightarrow> jsval" where
  "option_of opts name =
     (case opts of
        None \<Rightarrow> JUndefined
      | Some kvs \<Rightarrow> (case map_of kvs name of None \<Rightarrow> JUndefined | Some v \<Rightarrow> v))"

text \<open>
  \<^verbatim>\<open>parseInt(s, 10)\<close>: leading white space is skipped, one sign is read, then the
  longest run of decimal digits; no digit at all gives \<^verbatim>\<open>NaN\<close>, here \<open>None\<close>.
\<close>

definition is_space :: "char \<Rightarrow> bool" where
  "is_space c = (of_char c \<in> {9::nat, 10, 11, 12, 13, 32})"

definition is_digit :: "char \<Rightarrow> bool" where
  "is_digit c = (48 \<le> (of_char c :: nat) \<and> (of_char c :: nat) \<le> 57)"

definition digit_val :: "char \<Rightarrow> int" where
  "digit_val c = int (of_char c) - 48"

definition parseInt :: "string \<Rightarrow> int option" where
  "parseInt s =
     (let t = dropWhile is_space s;
          neg = (t \<noteq> [] \<and> hd t = CHR ''-'');
          u = (if t \<noteq> [] \<and> (hd t = CHR ''-'' \<or> hd t = CHR ''+'') then tl t else t);
          ds = takeWhile is_digit u
      in if ds = [] then None
         else Some ((if neg then - 1 else 1) * foldl (\<lambda>a c. 10 * a + digit_val c) 0 ds))"

section \<open>Errors and requests\<close>

text \<open>
  What the code reads of a thrown value: \<^verbatim>\<open>err.statusCode\<close>,
  \<^verbatim>\<open>err.headers?.['retry-after']\<close> and \<^verbatim>\<open>err.message\<close>.
\<close>

record GraphError =
  statusCode :: "int option"
  retryAfter :: "string option"
  message :: "string option"

text \<open>A plain \<^verbatim>\<open>new Error(msg)\<close>: no status code and no headers.\<close>

definition Error :: "string \<Rightarrow> GraphError" where
  "Error msg = \<lparr>statusCode = None, retryAfter = None, message = Some msg\<rparr>"

text \<open>
  A request built with \<^verbatim>\<open>client.api(path).header('workbook-session-id', s).post(body)\<close>.
  The path is the base path, a string, followed by one of the six suffixes the code
  builds; the worksheet spliced into a suffix is kept as the value it is.
\<close>

datatype suffix =
    CreateSession
  | Range jsval string
  | RangeFormat jsval string
  | RangeClear jsval string
  | TablesAdd jsval
  | ChartsAdd jsval

datatype verb = POST | PATCH

record request =
  basePath :: string
  suffix :: suffix
  verb :: verb
  session :: "string option"
  payload :: jsval

text \<open>
  A successful answer of Graph. The code reads one thing of it, \<^verbatim>\<open>response.id\<close> after
  \<^verbatim>\<open>createSession\<close>, and uses it as a string.
\<close>

record GraphResponse =
  response_id :: string
  response_body :: jsval

section \<open>Operations, results and request bodies\<close>

record WorkbookOperation =
  type :: string
  target :: string
  data :: jsval
  options :: "(string \<times> jsval) list option"

record OperationResult =
  applied :: "WorkbookOperation list"
  errors :: "(nat \<times> string) list option"
  sessionId :: string

text \<open>The response object of the route: the result's three fields and two more.\<close>

record ApplyResponse = OperationResult +
  success :: bool
  durationMs :: int

text \<open>
  The body of a request, in the shape \<^verbatim>\<open>ApplyRequestSchema\<close> gives it. What the record
  type cannot say, that each \<^verbatim>\<open>type\<close> is one of the six of the \<^verbatim>\<open>z.enum\<close>, is the
  check \<open>schema_ok\<close>; a body that fails it makes \<^verbatim>\<open>parse\<close> throw.
\<close>

record ApplyRequest =
  body_itemId :: string
  body_driveId :: "string option"
  body_operations :: "WorkbookOperation list"
  body_idempotencyKey :: "string option"

section \<open>The outside world\<close>

text \<open>
  Everything outside the repository's own code is a state of type \<open>'x\<close> that the code
  can only reach through these operations: the Graph service behind a client made for an
  access token, the clock, the random generator, the timer, the circuit-breaker library
  (whether the breaker of a name rejects at once, and its bookkeeping after a call) and
  the token exchange. The schema library is outside too: \<open>zod_message\<close> is the message of
  the error \<^verbatim>\<open>ApplyRequestSchema.parse\<close> throws for a body it refuses.
\<close>

record 'x env =
  graph_api :: "string \<Rightarrow> request \<Rightarrow> 'x \<Rightarrow> (GraphError + GraphResponse) \<times> 'x"
  date_now :: "'x \<Rightarrow> int"
  math_random :: "'x \<Rightarrow> real \<times> 'x"
  set_timeout :: "real option \<Rightarrow> 'x \<Rightarrow> 'x"
  breaker_open :: "string \<Rightarrow> 'x \<Rightarrow> bool"
  breaker_done :: "string \<Rightarrow> bool \<Rightarrow> 'x \<Rightarrow> 'x"
  acquire_obo :: "string \<Rightarrow> 'x \<Rightarrow> string option \<times> 'x"
  zod_message :: "ApplyRequest \<Rightarrow> string"

text \<open>
  What happened, in order: each request sent to Graph with its outcome and the name of
  the breaker it ran under (\<open>None\<close> when it ran under no breaker), each sleep with its
  delay in milliseconds (\<open>None\<close> is \<^verbatim>\<open>NaN\<close>), each token exchange.
\<close>

datatype event =
    GraphCall "string option" request "GraphError + GraphResponse"
  | Slept "real option"
  | TokenExchange string

fun is_call :: "event \<Rightarrow> bool" where
  "is_call (GraphCall g rq res) = True"
| "is_call (Slept d) = False"
| "is_call (TokenExchange t) = False"

section \<open>The Redis store\<close>

text \<open>
  The three families of keys, \<^verbatim>\<open>workbookSession:\<close>, \<^verbatim>\<open>idem:\<close> and \<^verbatim>\<open>rate:\<close>,
  never meet, so each is a map of its own. A string key holds a value and the time in
  milliseconds it expires at (every write is a \<^verbatim>\<open>setex\<close>); a sorted set holds its
  members with their scores, in the order they were added, and may have an expiry. The
  member \<^verbatim>\<open>`${now}-${Math.random()}`\<close> is the pair of the two numbers. A stored
  response stands for its JSON text. Redis is taken to answer every command.
\<close>

record zset =
  members :: "((int \<times> real) \<times> int) list"
  expireAt :: "int option"

record redis =
  sessions :: "string \<rightharpoonup> (string \<times> int)"
  idem :: "string \<rightharpoonup> (ApplyResponse \<times> int)"
  rate :: "string \<rightharpoonup> zset"

text \<open>
  The state of the process and of Redis, next to the outside world: the registry of
  breakers made so far, the breaker the running call is under, and what happened so far.
\<close>

record 'x world =
  ext :: 'x
  store :: redis
  breakers :: "string list"
  guard :: "string option"
  trace :: "event list"

section \<open>The Graph client and the retry policy\<close>

text \<open>
  One request through the client: the Graph service answers and moves on, and the
  request is recorded with the breaker it ran under.
\<close>

definition graph_call ::
  "'x env \<Rightarrow> string \<Rightarrow> request \<Rightarrow> 'x world \<Rightarrow> (GraphError + GraphResponse) \<times> 'x world" where
  "graph_call env client rq w =
     (let (res, x) = graph_api env client rq (ext w)
      in (res, w\<lparr>ext := x, trace := trace w @ [GraphCall (guard w) rq res]\<rparr>))"

text \<open>\<^verbatim>\<open>await new Promise(resolve => setTimeout(resolve, delay))\<close>\<close>

definition sleep :: "'x env \<Rightarrow> real option \<Rightarrow> 'x world \<Rightarrow> 'x world" where
  "sleep env delay w = w\<lparr>ext := set_timeout env delay (ext w), trace := trace w @ [Slept delay]\<rparr>"

text \<open>
  \<^verbatim>\<open>err.statusCode && err.statusCode >= 400 && err.statusCode < 500 && err.statusCode !== 429\<close>
\<close>

definition no_retry :: "GraphError \<Rightarrow> bool" where
  "no_retry err =
     (case statusCode err of
        None \<Rightarrow> False
      | Some c \<Rightarrow> c \<noteq> 0 \<and> c \<ge> 400 \<and> c < 500 \<and> c \<noteq> 429)"

text \<open>
  The delay before the jitter: \<^verbatim>\<open>baseDelayMs * Math.pow(2, attempt)\<close>, replaced by
  \<^verbatim>\<open>parseInt(retryAfter, 10) * 1000\<close> when the header is truthy.
\<close>

definition retry_delay :: "GraphError \<Rightarrow> real \<Rightarrow> nat \<Rightarrow> real option" where
  "retry_delay err baseDelayMs attempt =
     (if truthy_str (retryAfter err)
      then map_option (\<lambda>n. real_of_int n * 1000) (parseInt (the (retryAfter err)))
      else Some (baseDelayMs * 2 ^ attempt))"

text \<open>
  The loop of \<^verbatim>\<open>graphRetry\<close>, from \<open>attempt\<close> on. A \<^verbatim>\<open>lastError\<close> never assigned is
  \<open>None\<close>; thrown (only when \<open>maxRetries\<close> is 0, which no caller passes) it is the error
  with no field set.
\<close>

function graphRetry_from ::
  "'x env \<Rightarrow> ('x world \<Rightarrow> (GraphError + 'a) \<times> 'x world) \<Rightarrow> nat \<Rightarrow> real \<Rightarrow> nat \<Rightarrow>
   GraphError option \<Rightarrow> 'x world \<Rightarrow> (GraphError + 'a) \<times> 'x world" where
  "graphRetry_from env fn maxRetries baseDelayMs attempt lastError w =
     (if attempt < maxRetries then
        (case fn w of
           (Inr v, w1) \<Rightarrow> (Inr v, w1)
         | (Inl err, w1) \<Rightarrow>
             if no_retry err then (Inl err, w1)
             else
               (let (r, x) = math_random env (ext w1);
                    delay = map_option (\<lambda>d. d + r * 1000) (retry_delay err baseDelayMs attempt)
                in graphRetry_from env fn maxRetries baseDelayMs (Suc attempt) (Some err)
                     (sleep env delay (w1\<lparr>ext := x\<rparr>))))
      else
        (case lastError of
           Some err \<Rightarrow> (Inl err, w)
         | None \<Rightarrow> (Inl \<lparr>statusCode = None, retryAfter = None, message = None\<rparr>, w)))"
  by pat_completeness auto
termination
  by (relation "measure (\<lambda>(env, fn, maxRetries, baseDelayMs, attempt, lastError, w). maxRetries - attempt)") auto

declare graphRetry_from.simps [simp del]

definition graphRetry ::
  "'x env \<Rightarrow> ('x world \<Rightarrow> (GraphError + 'a) \<times> 'x world) \<Rightarrow> nat \<Rightarrow> real \<Rightarrow> 'x world \<Rightarrow>
   (GraphError + 'a) \<times> 'x world" where
  "graphRetry env fn maxRetries baseDelayMs w = graphRetry_from env fn maxRetries baseDelayMs 0 None w"

text \<open>The two default arguments: \<^verbatim>\<open>maxRetries = 3\<close>, \<^verbatim>\<open>baseDelayMs = 1000\<close>.\<close>

definition graphRetry_default ::
  "'x env \<Rightarrow> ('x world \<Rightarrow> (GraphError + 'a) \<times> 'x world) \<Rightarrow> 'x world \<Rightarrow> (GraphError + 'a) \<times> 'x world" where
  "graphRetry_default env fn w = graphRetry env fn 3 1000 w"

section \<open>The circuit breaker\<close>

text \<open>
  \<^verbatim>\<open>getCircuitBreaker\<close> keeps one breaker per name, each made with
  \<^verbatim>\<open>CIRCUIT_BREAKER_OPTIONS\<close>, of which \<^verbatim>\<open>timeout: 30000\<close> decides what \<^verbatim>\<open>fire\<close>
  answers; the other options steer when the library opens and closes the breaker.
\<close>

definition breaker_timeout :: int where
  "breaker_timeout = 30000"

definition getCircuitBreaker :: "string \<Rightarrow> 'x world \<Rightarrow> 'x world" where
  "getCircuitBreaker name w =
     (if name \<in> set (breakers w) then w else w\<lparr>breakers := breakers w @ [name]\<rparr>)"

text \<open>
  \<^verbatim>\<open>protectedGraphCall\<close>: no caller passes a \<^verbatim>\<open>fallback\<close>. The breaker itself is the
  library's. \<^verbatim>\<open>fire\<close> rejects at once while the breaker is open. Otherwise it starts the
  call, which runs under the breaker's name, and a timer of \<^verbatim>\<open>timeout\<close> milliseconds: a
  call that settles before the timer gives its own outcome; when the timer comes first,
  \<^verbatim>\<open>fire\<close> rejects with a timeout error, and the call is not cancelled: what it still
  sends and sleeps happens all the same. Those events are put here before whatever the
  caller does next. The outcome \<^verbatim>\<open>fire\<close> gives is the one the breaker books.
\<close>

definition protectedGraphCall ::
  "'x env \<Rightarrow> string \<Rightarrow> ('x world \<Rightarrow> (GraphError + 'a) \<times> 'x world) \<Rightarrow> 'x world \<Rightarrow>
   (GraphError + 'a) \<times> 'x world" where
  "protectedGraphCall env name fn w =
     (let w0 = getCircuitBreaker name w
      in if breaker_open env name (ext w0) then (Inl (Error ''Breaker is open''), w0)
         else
           (let (res, w1) = fn (w0\<lparr>guard := Some name\<rparr>);
                fired = (if date_now env (ext w1) - date_now env (ext w0) \<ge> breaker_timeout
                         then Inl (Error ''Timed out after 30000ms'') else res)
            in (fired, w1\<lparr>guard := guard w0, ext := breaker_done env name (\<not> isl fired) (ext w1)\<rparr>)))"

section \<open>The Redis commands the code uses\<close>

text \<open>A key with an expiry is gone once the clock has passed it.\<close>

definition live :: "int \<Rightarrow> int \<Rightarrow> bool" where
  "live now e = (now \<le> e)"

definition clock :: "'x env \<Rightarrow> 'x world \<Rightarrow> int" where
  "clock env w = date_now env (ext w)"

definition redis_get :: "int \<Rightarrow> (string \<rightharpoonup> ('v \<times> int)) \<Rightarrow> string \<Rightarrow> 'v option" where
  "redis_get now m key =
     (case m key of None \<Rightarrow> None | Some (v, e) \<Rightarrow> if live now e then Some v else None)"

definition redis_setex :: "int \<Rightarrow> (string \<rightharpoonup> ('v \<times> int)) \<Rightarrow> string \<Rightarrow> int \<Rightarrow> 'v \<Rightarrow> (string \<rightharpoonup> ('v \<times> int))" where
  "redis_setex now m key seconds v = m(key \<mapsto> (v, now + seconds * 1000))"

definition redis_expire :: "int \<Rightarrow> (string \<rightharpoonup> ('v \<times> int)) \<Rightarrow> string \<Rightarrow> int \<Rightarrow> (string \<rightharpoonup> ('v \<times> int))" where
  "redis_expire now m key seconds =
     (case redis_get now m key of
        None \<Rightarrow> m
      | Some v \<Rightarrow> if seconds \<le> 0 then m(key := None) else m(key \<mapsto> (v, now + seconds * 1000)))"

definition zlive :: "int \<Rightarrow> (string \<rightharpoonup> zset) \<Rightarrow> string \<Rightarrow> zset option" where
  "zlive now m key =
     (case m key of
        None \<Rightarrow> None
      | Some z \<Rightarrow> (case expireAt z of None \<Rightarrow> Some z | Some e \<Rightarrow> if live now e then Some z else None))"

text \<open>A sorted set that loses its last member is deleted.\<close>

definition zremrangebyscore :: "int \<Rightarrow> (string \<rightharpoonup> zset) \<Rightarrow> string \<Rightarrow> int \<Rightarrow> int \<Rightarrow> (string \<rightharpoonup> zset)" where
  "zremrangebyscore now m key lo hi =
     (case zlive now m key of
        None \<Rightarrow> m
      | Some z \<Rightarrow>
          (let ms = filter (\<lambda>(mem, score). \<not> (lo \<le> score \<and> score \<le> hi)) (members z)
           in if ms = [] then m(key := None) else m(key \<mapsto> z\<lparr>members := ms\<rparr>)))"

definition zcard :: "int \<Rightarrow> (string \<rightharpoonup> zset) \<Rightarrow> string \<Rightarrow> int" where
  "zcard now m key = (case zlive now m key of None \<Rightarrow> 0 | Some z \<Rightarrow> int (length (members z)))"

fun lowest_score :: "((int \<times> real) \<times> int) list \<Rightarrow> int option" where
  "lowest_score [] = None"
| "lowest_score ((mem, score) # ms) =
     (case lowest_score ms of None \<Rightarrow> Some score | Some t \<Rightarrow> Some (min score t))"

text \<open>
  \<^verbatim>\<open>zrange(key, 0, 0, 'WITHSCORES')\<close> answers the member of lowest score and that score,
  or nothing. The code reads the score only, \<^verbatim>\<open>parseInt(oldest[1], 10)\<close>.
\<close>

definition zrange_first_score :: "int \<Rightarrow> (string \<rightharpoonup> zset) \<Rightarrow> string \<Rightarrow> int option" where
  "zrange_first_score now m key =
     (case zlive now m key of None \<Rightarrow> None | Some z \<Rightarrow> lowest_score (members z))"

text \<open>Adding a member the set already has replaces its score.\<close>

definition zadd :: "int \<Rightarrow> (string \<rightharpoonup> zset) \<Rightarrow> string \<Rightarrow> int \<Rightarrow> (int \<times> real) \<Rightarrow> (string \<rightharpoonup> zset)" where
  "zadd now m key score mem =
     (case zlive now m key of
        None \<Rightarrow> m(key \<mapsto> \<lparr>members = [(mem, score)], expireAt = None\<rparr>)
      | Some z \<Rightarrow>
          if mem \<in> fst ` set (members z)
          then m(key \<mapsto> z\<lparr>members := map (\<lambda>(k, v). if k = mem then (k, score) else (k, v)) (members z)\<rparr>)
          else m(key \<mapsto> z\<lparr>members := members z @ [(mem, score)]\<rparr>))"

definition zexpire :: "int \<Rightarrow> (string \<rightharpoonup> zset) \<Rightarrow> string \<Rightarrow> int \<Rightarrow> (string \<rightharpoonup> zset)" where
  "zexpire now m key seconds =
     (case zlive now m key of
        None \<Rightarrow> m
      | Some z \<Rightarrow> if seconds \<le> 0 then m(key := None) else m(key \<mapsto> z\<lparr>expireAt := Some (now + seconds * 1000)\<rparr>))"

section \<open>Session cache, idempotency store and rate limiter\<close>

definition sessionKey :: "string option \<Rightarrow> string \<Rightarrow> string" where
  "sessionKey driveId itemId =
     ''workbookSession:'' @ (if truthy_str driveId then the driveId else ''default'') @ '':'' @ itemId"

text \<open>\<^verbatim>\<open>setex\<close> refuses a time to live that is not positive.\<close>

definition cacheSession ::
  "'x env \<Rightarrow> string option \<Rightarrow> string \<Rightarrow> string \<Rightarrow> int \<Rightarrow> 'x world \<Rightarrow> (GraphError + unit) \<times> 'x world" where
  "cacheSession env driveId itemId session_id ttlSeconds w =
     (let key = sessionKey driveId itemId
      in if ttlSeconds \<le> 0 then (Inl (Error ''ERR invalid expire time in setex''), w)
         else (Inr (),
               w\<lparr>store := (store w)\<lparr>sessions :=
                    redis_setex (clock env w) (sessions (store w)) key ttlSeconds session_id\<rparr>\<rparr>))"

definition getCachedSession ::
  "'x env \<Rightarrow> string option \<Rightarrow> string \<Rightarrow> 'x world \<Rightarrow> string option \<times> 'x world" where
  "getCachedSession env driveId itemId w =
     (let key = sessionKey driveId itemId;
          session_id = redis_get (clock env w) (sessions (store w)) key
      in if truthy_str session_id
         then (session_id,
               w\<lparr>store := (store w)\<lparr>sessions := redis_expire (clock env w) (sessions (store w)) key 300\<rparr>\<rparr>)
         else (session_id, w))"

text \<open>\<^verbatim>\<open>`idem:${key}`\<close> and \<^verbatim>\<open>`rate:${userId}`\<close>\<close>

definition idem_key :: "string \<Rightarrow> string" where
  "idem_key key = ''idem:'' @ key"

definition rate_key :: "string \<Rightarrow> string" where
  "rate_key userId = ''rate:'' @ userId"

definition checkIdempotencyKey :: "'x env \<Rightarrow> string \<Rightarrow> 'x world \<Rightarrow> bool" where
  "checkIdempotencyKey env key w =
     (redis_get (clock env w) (idem (store w)) (idem_key key) \<noteq> None)"

definition storeIdempotencyKey :: "'x env \<Rightarrow> string \<Rightarrow> ApplyResponse \<Rightarrow> 'x world \<Rightarrow> 'x world" where
  "storeIdempotencyKey env key result w =
     w\<lparr>store := (store w)\<lparr>idem :=
          redis_setex (clock env w) (idem (store w)) (idem_key key) 86400 result\<rparr>\<rparr>"

definition getIdempotencyResult :: "'x env \<Rightarrow> string \<Rightarrow> 'x world \<Rightarrow> ApplyResponse option" where
  "getIdempotencyResult env key w = redis_get (clock env w) (idem (store w)) (idem_key key)"

record RateLimit =
  allowed :: bool
  remaining :: int
  resetAt :: int

definition set_rate :: "(string \<rightharpoonup> zset) \<Rightarrow> 'x world \<Rightarrow> 'x world" where
  "set_rate m w = w\<lparr>store := (store w)\<lparr>rate := m\<rparr>\<rparr>"

definition checkRateLimit :: "'x env \<Rightarrow> string \<Rightarrow> int \<Rightarrow> int \<Rightarrow> 'x world \<Rightarrow> RateLimit \<times> 'x world" where
  "checkRateLimit env userId maxRequests windowSeconds w =
     (let key = rate_key userId;
          now = date_now env (ext w);
          windowStart = now - windowSeconds * 1000;
          w1 = set_rate (zremrangebyscore (clock env w) (rate (store w)) key 0 windowStart) w;
          count = zcard (clock env w1) (rate (store w1)) key
      in if count \<ge> maxRequests then
           (let oldest = zrange_first_score (clock env w1) (rate (store w1)) key;
                reset = (case oldest of
                           Some score \<Rightarrow> score + windowSeconds * 1000
                         | None \<Rightarrow> now + windowSeconds * 1000)
            in (\<lparr>allowed = False, remaining = 0, resetAt = reset\<rparr>, w1))
         else
           (let (r, x) = math_random env (ext w1);
                w2 = w1\<lparr>ext := x\<rparr>;
                w3 = set_rate (zadd (clock env w2) (rate (store w2)) key now (now, r)) w2;
                w4 = set_rate (zexpire (clock env w3) (rate (store w3)) key windowSeconds) w3
            in (\<lparr>allowed = True, remaining = maxRequests - count - 1,
                 resetAt = now + windowSeconds * 1000\<rparr>, w4)))"

section \<open>Workbook sessions and operations\<close>

text \<open>
  \<^verbatim>\<open>driveId ? `/drives/${driveId}/items/${itemId}/workbook` : `/me/drive/items/${itemId}/workbook`\<close>
\<close>

definition workbookPath :: "string option \<Rightarrow> string \<Rightarrow> string" where
  "workbookPath driveId itemId =
     (if truthy_str driveId
      then ''/drives/'' @ the driveId @ ''/items/'' @ itemId @ ''/workbook''
      else ''/me/drive/items/'' @ itemId @ ''/workbook'')"

definition createSession_request :: "string option \<Rightarrow> string \<Rightarrow> request" where
  "createSession_request driveId itemId =
     \<lparr>basePath = workbookPath driveId itemId, suffix = CreateSession, verb = POST,
      session = None, payload = JObj [(''persistChanges'', JBool True)]\<rparr>"

definition getWorkbookSession ::
  "'x env \<Rightarrow> string \<Rightarrow> string \<Rightarrow> string option \<Rightarrow> 'x world \<Rightarrow> (GraphError + string) \<times> 'x world" where
  "getWorkbookSession env client itemId driveId w =
     (let (cached, w1) = getCachedSession env driveId itemId w
      in if truthy_str cached then (Inr (the cached), w1)
         else
           (case protectedGraphCall env ''createSession''
                   (graphRetry_default env (graph_call env client (createSession_request driveId itemId))) w1 of
              (Inl err, w2) \<Rightarrow> (Inl err, w2)
            | (Inr response, w2) \<Rightarrow>
                (let session_id = response_id response
                 in case cacheSession env driveId itemId session_id 300 w2 of
                      (Inl err, w3) \<Rightarrow> (Inl err, w3)
                    | (Inr u, w3) \<Rightarrow> (Inr session_id, w3))))"

text \<open>\<^verbatim>\<open>operation.options?.worksheet || 'Sheet1'\<close>\<close>

definition worksheet :: "WorkbookOperation \<Rightarrow> jsval" where
  "worksheet operation =
     (let v = option_of (options operation) ''worksheet'' in if truthy v then v else JStr ''Sheet1'')"

text \<open>The request each of the six operation types sends; none for any other type.\<close>

definition operation_request ::
  "string \<Rightarrow> string option \<Rightarrow> string \<Rightarrow> WorkbookOperation \<Rightarrow> request option" where
  "operation_request itemId driveId session_id operation =
     (let base = workbookPath driveId itemId; ws = worksheet operation
      in if type operation = ''insert'' then
           Some \<lparr>basePath = base, suffix = Range ws (target operation), verb = PATCH,
                 session = Some session_id,
                 payload = JObj [(''values'', data operation)]\<rparr>
         else if type operation = ''update'' then
           Some \<lparr>basePath = base, suffix = Range ws (target operation), verb = PATCH,
                 session = Some session_id,
                 payload = JObj [(''values'', data operation),
                                 (''numberFormat'', option_of (options operation) ''numberFormat'')]\<rparr>
         else if type operation = ''format'' then
           Some \<lparr>basePath = base, suffix = RangeFormat ws (target operation), verb = PATCH,
                 session = Some session_id, payload = data operation\<rparr>
         else if type operation = ''table'' then
           Some \<lparr>basePath = base, suffix = TablesAdd ws, verb = POST,
                 session = Some session_id,
                 payload = JObj [(''address'', JStr (target operation)),
                                 (''hasHeaders'', JBool (option_of (options operation) ''hasHeaders'' \<noteq> JBool False))]\<rparr>
         else if type operation = ''chart'' then
           Some \<lparr>basePath = base, suffix = ChartsAdd ws, verb = POST,
                 session = Some session_id,
                 payload = JObj [(''type'', (let t = option_of (options operation) ''chartType''
                                            in if truthy t then t else JStr ''ColumnClustered'')),
                                 (''sourceData'', JStr (target operation)),
                                 (''seriesBy'', JStr ''Auto'')]\<rparr>
         else if type operation = ''delete'' then
           Some \<lparr>basePath = base, suffix = RangeClear ws (target operation), verb = POST,
                 session = Some session_id,
                 payload = JObj [(''applyTo'', JStr ''Contents'')]\<rparr>
         else None)"

text \<open>
  \<^verbatim>\<open>applyOperation\<close>: each case of the \<^verbatim>\<open>switch\<close> awaits
  \<^verbatim>\<open>graphRetry(() => client.api(path).header(...).patch(body))\<close> for its request; the
  \<^verbatim>\<open>default\<close> case throws.
\<close>

definition applyOperation ::
  "'x env \<Rightarrow> string \<Rightarrow> string \<Rightarrow> string option \<Rightarrow> string \<Rightarrow> WorkbookOperation \<Rightarrow> 'x world \<Rightarrow>
   (GraphError + unit) \<times> 'x world" where
  "applyOperation env client itemId driveId session_id operation w =
     (case operation_request itemId driveId session_id operation of
        Some rq \<Rightarrow>
          (case graphRetry_default env (graph_call env client rq) w of
             (Inl err, w1) \<Rightarrow> (Inl err, w1)
           | (Inr response, w1) \<Rightarrow> (Inr (), w1))
      | None \<Rightarrow> (Inl (Error (''Unknown operation type: '' @ type operation)), w))"

text \<open>\<^verbatim>\<open>err.message || 'Unknown error'\<close>\<close>

definition error_text :: "GraphError \<Rightarrow> string" where
  "error_text err = (if truthy_str (message err) then the (message err) else ''Unknown error'')"

text \<open>\<^verbatim>\<open>operation.options?.continueOnError\<close>, as a condition.\<close>

definition continueOnError :: "WorkbookOperation \<Rightarrow> bool" where
  "continueOnError operation = truthy (option_of (options operation) ''continueOnError'')"

text \<open>The loop of \<^verbatim>\<open>applyWorkbookOperations\<close>, from index \<open>i\<close> on.\<close>

function apply_from ::
  "'x env \<Rightarrow> string \<Rightarrow> string \<Rightarrow> string option \<Rightarrow> string \<Rightarrow> WorkbookOperation list \<Rightarrow> nat \<Rightarrow>
   WorkbookOperation list \<Rightarrow> (nat \<times> string) list \<Rightarrow> 'x world \<Rightarrow>
   WorkbookOperation list \<times> (nat \<times> string) list \<times> 'x world" where
  "apply_from env client itemId driveId session_id operations i sofar errs w =
     (if i < length operations then
        (let operation = operations ! i
         in case applyOperation env client itemId driveId session_id operation w of
              (Inr u, w1) \<Rightarrow>
                apply_from env client itemId driveId session_id operations (Suc i) (sofar @ [operation]) errs w1
            | (Inl err, w1) \<Rightarrow>
                (let errs1 = errs @ [(i, error_text err)]
                 in if \<not> continueOnError operation
                    then (sofar, errs1, w1)
                    else apply_from env client itemId driveId session_id operations (Suc i) sofar errs1 w1))
      else (sofar, errs, w))"
  by pat_completeness auto
termination
  by (relation "measure (\<lambda>(env, client, itemId, driveId, session_id, operations, i, sofar, errs, w).
        length operations - i)") auto

declare apply_from.simps [simp del]

text \<open>The \<^verbatim>\<open>idempotencyKey\<close> argument is not used by the body (its check is a TODO).\<close>

definition applyWorkbookOperations ::
  "'x env \<Rightarrow> string \<Rightarrow> string \<Rightarrow> string option \<Rightarrow> WorkbookOperation list \<Rightarrow> string option \<Rightarrow>
   'x world \<Rightarrow> (GraphError + OperationResult) \<times> 'x world" where
  "applyWorkbookOperations env client itemId driveId operations idempotencyKey w =
     (case getWorkbookSession env client itemId driveId w of
        (Inl err, w1) \<Rightarrow> (Inl err, w1)
      | (Inr session_id, w1) \<Rightarrow>
          (let (sofar, errs, w2) = apply_from env client itemId driveId session_id operations 0 [] [] w1
           in (Inr \<lparr>applied = sofar,
                    errors = (if length errs > 0 then Some errs else None),
                    sessionId = session_id\<rparr>, w2)))"

section \<open>The route\<close>

text \<open>
  \<^verbatim>\<open>getOBOToken\<close>: any failure of the exchange, and an answer with no access token, is
  rethrown as one error.
\<close>

definition getOBOToken :: "'x env \<Rightarrow> string \<Rightarrow> 'x world \<Rightarrow> (GraphError + string) \<times> 'x world" where
  "getOBOToken env userToken w =
     (let (answer, x) = acquire_obo env userToken (ext w);
          w1 = w\<lparr>ext := x, trace := trace w @ [TokenExchange userToken]\<rparr>
      in if truthy_str answer then (Inr (the answer), w1)
         else (Inl (Error ''Failed to exchange token for Graph access''), w1))"

text \<open>\<^verbatim>\<open>s.replace(pat, '')\<close>: the first occurrence of \<open>pat\<close> is removed.\<close>

fun remove_first :: "string \<Rightarrow> string \<Rightarrow> string" where
  "remove_first pat [] = []"
| "remove_first pat (c # cs) =
     (if prefix pat (c # cs) then drop (length pat) (c # cs) else c # remove_first pat cs)"

definition operation_types :: "string list" where
  "operation_types = [''insert'', ''update'', ''delete'', ''format'', ''chart'', ''table'']"

definition schema_ok :: "ApplyRequest \<Rightarrow> bool" where
  "schema_ok body = list_all (\<lambda>operation. type operation \<in> set operation_types) (body_operations body)"

text \<open>
  What the route answers: the response with the two rate-limit headers that vary, the
  429 of the service's own limiter with its reset header and \<^verbatim>\<open>retryAfter\<close>, one of
  the answers of the \<^verbatim>\<open>catch\<close> block, or the 401 of the \<^verbatim>\<open>preHandler\<close> hook.
\<close>

datatype reply =
    Sent200 int int ApplyResponse
  | TooManyRequests int int
  | GraphRateLimited "int option"
  | Locked
  | Conflict
  | InternalError "string option"
  | Unauthorized string

definition error_reply :: "GraphError \<Rightarrow> reply" where
  "error_reply err =
     (if statusCode err = Some 429 then
        GraphRateLimited (if truthy_str (retryAfter err) then parseInt (the (retryAfter err)) else Some 60)
      else if statusCode err = Some 423 then Locked
      else if statusCode err = Some 409 then Conflict
      else InternalError (message err))"

text \<open>The cached result of a key, as the route looks it up: \<^verbatim>\<open>exists\<close>, then \<^verbatim>\<open>get\<close>.\<close>

definition cached_result :: "'x env \<Rightarrow> string option \<Rightarrow> 'x world \<Rightarrow> ApplyResponse option" where
  "cached_result env idempotencyKey w =
     (if truthy_str idempotencyKey then
        (if checkIdempotencyKey env (the idempotencyKey) w
         then getIdempotencyResult env (the idempotencyKey) w
         else None)
      else None)"

text \<open>
  What the \<^verbatim>\<open>preHandler\<close> hook attaches to the request as \<^verbatim>\<open>user\<close>. \<^verbatim>\<open>validateJWT\<close> is
  declared \<^verbatim>\<open>async\<close> and the hook does not await it: \<^verbatim>\<open>decoded\<close> is the promise of the
  validation of the token, not the payload, and the call cannot throw into the hook's
  \<^verbatim>\<open>catch\<close>. A promise has no property \<^verbatim>\<open>sub\<close>, so \<^verbatim>\<open>user.sub\<close> is \<^verbatim>\<open>undefined\<close>,
  here \<open>None\<close>, whatever the token. What becomes of the promise later is not modelled.
\<close>

datatype user = Pending string

fun user_sub :: "user \<Rightarrow> string option" where
  "user_sub (Pending token) = None"

text \<open>
  The hook: a request with no \<^verbatim>\<open>authorization\<close> header, or an empty one, is answered 401
  and does not reach the handler.
\<close>

definition preHandler :: "string option \<Rightarrow> reply + user" where
  "preHandler auth =
     (if \<not> truthy_str auth then Inl (Unauthorized ''Missing authorization header'')
      else Inr (Pending (remove_first ''Bearer '' (the auth))))"

text \<open>
  \<^verbatim>\<open>`${v}`\<close> for a value that is a string or \<^verbatim>\<open>undefined\<close>. \<^verbatim>\<open>checkRateLimit\<close> is typed
  for a string and uses \<^verbatim>\<open>userId\<close> in the template of its key only, so handing it
  \<^verbatim>\<open>undefined\<close> is handing it this string.
\<close>

definition template :: "string option \<Rightarrow> string" where
  "template v = (case v of None \<Rightarrow> ''undefined'' | Some t \<Rightarrow> t)"

text \<open>The \<^verbatim>\<open>try\<close> block of \<^verbatim>\<open>POST /microsoft-graph/workbook/apply\<close>.\<close>

definition apply_try ::
  "'x env \<Rightarrow> ApplyRequest \<Rightarrow> user \<Rightarrow> string \<Rightarrow> int \<Rightarrow> 'x world \<Rightarrow> (GraphError + reply) \<times> 'x world" where
  "apply_try env body user authorization startTime w =
     (if \<not> schema_ok body then (Inl (Error (zod_message env body)), w)
      else
        (let (rateLimit, w1) = checkRateLimit env (template (user_sub user)) 100 60 w
         in if \<not> allowed rateLimit then
              (Inr (TooManyRequests (resetAt rateLimit)
                      \<lceil>real_of_int (resetAt rateLimit - date_now env (ext w1)) / 1000\<rceil>), w1)
            else
              (case cached_result env (body_idempotencyKey body) w1 of
                 Some cachedResult \<Rightarrow>
                   (Inr (Sent200 (remaining rateLimit) (resetAt rateLimit) cachedResult), w1)
               | None \<Rightarrow>
                   (case getOBOToken env (remove_first ''Bearer '' authorization) w1 of
                      (Inl err, w2) \<Rightarrow> (Inl err, w2)
                    | (Inr graphToken, w2) \<Rightarrow>
                        (case applyWorkbookOperations env graphToken (body_itemId body) (body_driveId body)
                                (body_operations body) (body_idempotencyKey body) w2 of
                           (Inl err, w3) \<Rightarrow> (Inl err, w3)
                         | (Inr result, w3) \<Rightarrow>
                             (let duration = date_now env (ext w3) - startTime;
                                  response = \<lparr>applied = applied result, errors = errors result,
                                              sessionId = sessionId result,
                                              success = True, durationMs = duration\<rparr>;
                                  w4 = (if truthy_str (body_idempotencyKey body)
                                        then storeIdempotencyKey env (the (body_idempotencyKey body)) response w3
                                        else w3)
                              in (Inr (Sent200 (remaining rateLimit) (resetAt rateLimit) response), w4)))))))"

text \<open>The handler: the \<^verbatim>\<open>try\<close> block, and the \<^verbatim>\<open>catch\<close> block for whatever it throws.\<close>

definition apply_route ::
  "'x env \<Rightarrow> ApplyRequest \<Rightarrow> user \<Rightarrow> string \<Rightarrow> 'x world \<Rightarrow> reply \<times> 'x world" where
  "apply_route env body user authorization w =
     (let startTime = date_now env (ext w)
      in case apply_try env body user authorization startTime w of
           (Inr r, w1) \<Rightarrow> (r, w1)
         | (Inl err, w1) \<Rightarrow> (error_reply err, w1))"

text \<open>
  A request to the route, from the hook on: its \<^verbatim>\<open>authorization\<close> header and its body.
  The limiter of the web framework's plug-in, which runs before the hook, is the
  library's and is left out.
\<close>

definition apply_request ::
  "'x env \<Rightarrow> string option \<Rightarrow> ApplyRequest \<Rightarrow> 'x world \<Rightarrow> reply \<times> 'x world" where
  "apply_request env auth body w =
     (case preHandler auth of
        Inl r \<Rightarrow> (r, w)
      | Inr user \<Rightarrow> apply_route env body user (the auth) w)"

section \<open>Properties in the words of the specification, and sample worlds\<close>

text \<open>
  What one wrapped call may leave in the trace, from attempt \<open>k\<close> of a budget of \<open>N\<close>: a
  call that returns ends the run; a call that fails with a 4xx status other than 429 ends
  the run with that error; any other failure is followed by a sleep of the server's
  retry-after seconds in milliseconds when the header is there, of \<open>base * 2 ^ k\<close>
  otherwise, in both cases plus a jitter \<open>j\<close> with \<open>0 \<le> j < 1000\<close>, and then by the run
  from attempt \<open>k + 1\<close>; at attempt \<open>N\<close> the last error is raised.
\<close>

inductive retry_trace ::
  "nat \<Rightarrow> real \<Rightarrow> nat \<Rightarrow> GraphError option \<Rightarrow> event list \<Rightarrow> (GraphError + GraphResponse) \<Rightarrow> bool"
  for N :: nat and base :: real where
  returned: "k < N \<Longrightarrow> retry_trace N base k le [GraphCall g rq (Inr v)] (Inr v)"
| raised: "k < N \<Longrightarrow> statusCode e = Some c \<Longrightarrow> 400 \<le> c \<Longrightarrow> c < 500 \<Longrightarrow> c \<noteq> 429 \<Longrightarrow>
     retry_trace N base k le [GraphCall g rq (Inl e)] (Inl e)"
| retried_server: "k < N \<Longrightarrow>
     \<not> (\<exists>c. statusCode e = Some c \<and> 400 \<le> c \<and> c < 500 \<and> c \<noteq> 429) \<Longrightarrow>
     retryAfter e = Some s \<Longrightarrow> s \<noteq> [] \<Longrightarrow> 0 \<le> j \<Longrightarrow> j < 1000 \<Longrightarrow>
     retry_trace N base (Suc k) (Some e) evs res \<Longrightarrow>
     retry_trace N base k le
       (GraphCall g rq (Inl e) # Slept (map_option (\<lambda>n. real_of_int n * 1000 + j) (parseInt s)) # evs) res"
| retried_backoff: "k < N \<Longrightarrow>
     \<not> (\<exists>c. statusCode e = Some c \<and> 400 \<le> c \<and> c < 500 \<and> c \<noteq> 429) \<Longrightarrow>
     retryAfter e = None \<or> retryAfter e = Some [] \<Longrightarrow> 0 \<le> j \<Longrightarrow> j < 1000 \<Longrightarrow>
     retry_trace N base (Suc k) (Some e) evs res \<Longrightarrow>
     retry_trace N base k le (GraphCall g rq (Inl e) # Slept (Some (base * 2 ^ k + j)) # evs) res"
| exhausted: "retry_trace N base N (Some e) [] (Inl e)"

text \<open>A call that failed with an error the policy retries.\<close>

definition retryable_failure :: "event \<Rightarrow> bool" where
  "retryable_failure ev = (case ev of GraphCall g rq (Inl e) \<Rightarrow> \<not> no_retry e | _ \<Rightarrow> False)"

text \<open>
  The trace of a run from attempt \<open>k\<close> in which every attempt failed and was retried:
  a failed call and a sleep for each remaining attempt, the last error raised.
\<close>

definition exhausted_shape ::
  "nat \<Rightarrow> real \<Rightarrow> nat \<Rightarrow> event list \<Rightarrow> (GraphError + GraphResponse) \<Rightarrow> bool" where
  "exhausted_shape N base k evs res \<longleftrightarrow>
     length evs = 2 * (N - k) \<and>
     (\<forall>i < N - k. \<exists>g rq e j. 0 \<le> j \<and> j < 1000 \<and> \<not> no_retry e \<and>
        evs ! (2 * i) = GraphCall g rq (Inl e) \<and>
        evs ! (2 * i + 1) = Slept (map_option (\<lambda>d. d + j) (retry_delay e base (k + i)))) \<and>
     (\<exists>g rq e. evs ! (2 * (N - k) - 2) = GraphCall g rq (Inl e) \<and> res = Inl e)"

text \<open>
  A sample outside world: a counter of the requests Graph has answered and a clock. Graph
  answers its \<open>n\<close>-th request with \<open>answers n\<close>, every random draw is \<open>r\<close>, a sleep moves
  the clock, no breaker is open and the token exchange succeeds.
\<close>

definition demo_env :: "(nat \<Rightarrow> GraphError + GraphResponse) \<Rightarrow> real \<Rightarrow> (nat \<times> int) env" where
  "demo_env answers r =
     \<lparr>graph_api = (\<lambda>tok rq (n, t). (answers n, (Suc n, t))),
      date_now = (\<lambda>(n, t). t),
      math_random = (\<lambda>x. (r, x)),
      set_timeout = (\<lambda>d (n, t). (n, t + (case d of None \<Rightarrow> 1 | Some v \<Rightarrow> \<lceil>v\<rceil>))),
      breaker_open = (\<lambda>name x. False),
      breaker_done = (\<lambda>name ok x. x),
      acquire_obo = (\<lambda>tok x. (Some ''graph-token'', x)),
      zod_message = (\<lambda>body. ''Invalid enum value'')\<rparr>"

definition empty_store :: redis where
  "empty_store = \<lparr>sessions = Map.empty, idem = Map.empty, rate = Map.empty\<rparr>"

definition demo_world :: "int \<Rightarrow> (nat \<times> int) world" where
  "demo_world t = \<lparr>ext = (0, t), store = empty_store, breakers = [], guard = None, trace = []\<rparr>"

definition throttled :: "string \<Rightarrow> GraphError" where
  "throttled s = \<lparr>statusCode = Some 429, retryAfter = Some s, message = Some ''Too Many Requests''\<rparr>"

definition unavailable :: GraphError where
  "unavailable = \<lparr>statusCode = Some 503, retryAfter = None, message = Some ''Service Unavailable''\<rparr>"

definition session_made :: "string \<Rightarrow> GraphResponse" where
  "session_made s = \<lparr>response_id = s, response_body = JNull\<rparr>"

text \<open>Sample operations, a sample client error, and scripts of answers of Graph.\<close>

definition op_update :: WorkbookOperation where
  "op_update = \<lparr>type = ''update'', target = ''A1:B2'',
     data = JArr [JArr [JStr ''Name'', JStr ''Value''], JArr [JStr ''Test'', JNum 123]],
     options = Some [(''continueOnError'', JBool True)]\<rparr>"

definition op_insert :: WorkbookOperation where
  "op_insert = \<lparr>type = ''insert'', target = ''A1:B2'',
     data = JArr [JArr [JStr ''Name'', JStr ''Value''], JArr [JStr ''Test'', JNum 123]],
     options = Some [(''worksheet'', JStr ''Sheet1'')]\<rparr>"

definition op_format :: WorkbookOperation where
  "op_format = \<lparr>type = ''format'', target = ''A1:B1'',
     data = JObj [(''font'', JObj [(''bold'', JBool True)])], options = None\<rparr>"

definition bad_request :: GraphError where
  "bad_request = \<lparr>statusCode = Some 400, retryAfter = None, message = Some ''Bad Request''\<rparr>"

text \<open>
  The first request is throttled with a retry-after of 30 seconds, every later one is
  answered with a session.
\<close>

definition slow_then_made :: "nat \<Rightarrow> GraphError + GraphResponse" where
  "slow_then_made n = (if n = 0 then Inl (throttled ''30'') else Inr (session_made ''S1''))"

text \<open>Every request is answered with a session or a success, but the \<open>k\<close>-th, refused.\<close>

definition refuse_at :: "nat \<Rightarrow> nat \<Rightarrow> GraphError + GraphResponse" where
  "refuse_at k n = (if n = k then Inl bad_request else Inr (session_made ''S1''))"

text \<open>An event that is no request to Graph, or a request that ran under the breaker \<open>g\<close>.\<close>

fun under :: "string option \<Rightarrow> event \<Rightarrow> bool" where
  "under g (GraphCall g' rq res) = (g' = g)"
| "under g (Slept d) = True"
| "under g (TokenExchange t) = True"

fun request_of :: "event \<Rightarrow> request option" where
  "request_of (GraphCall g rq res) = Some rq"
| "request_of (Slept d) = None"
| "request_of (TokenExchange t) = None"

text \<open>
  The remote creation of a session, as \<^verbatim>\<open>getWorkbookSession\<close> does it: the
  \<^verbatim>\<open>createSession\<close> request, retried, under the breaker named \<^verbatim>\<open>createSession\<close>.
\<close>

definition create_remote ::
  "'x env \<Rightarrow> string \<Rightarrow> string \<Rightarrow> string option \<Rightarrow> 'x world \<Rightarrow> (GraphError + GraphResponse) \<times> 'x world" where
  "create_remote env client itemId driveId w =
     protectedGraphCall env ''createSession''
       (graphRetry_default env (graph_call env client (createSession_request driveId itemId))) w"

text \<open>
  A drive id under which the key of the session cache names one document: absent (or
  empty, which the code takes for absent), or a string without a colon that is not the
  word the key uses for an absent drive id.
\<close>

definition plain_drive :: "string option \<Rightarrow> bool" where
  "plain_drive driveId \<longleftrightarrow>
     \<not> truthy_str driveId \<or> (CHR '':'' \<notin> set (the driveId) \<and> the driveId \<noteq> ''default'')"

text \<open>Two handles of one document: the same item, in the same drive or both in none.\<close>

definition same_handle :: "string option \<Rightarrow> string \<Rightarrow> string option \<Rightarrow> string \<Rightarrow> bool" where
  "same_handle driveId itemId driveId' itemId' \<longleftrightarrow>
     itemId = itemId' \<and>
     (if truthy_str driveId then truthy_str driveId' \<and> the driveId = the driveId'
      else \<not> truthy_str driveId')"

text \<open>An operation whose type is none of the six, and a world with a session in the cache.\<close>

definition op_bogus :: WorkbookOperation where
  "op_bogus = \<lparr>type = ''merge'', target = ''A1:B2'', data = JUndefined,
     options = Some [(''continueOnError'', JBool True)]\<rparr>"

definition cached_world :: "(nat \<times> int) world" where
  "cached_world =
     \<lparr>ext = (0, 1000),
      store = \<lparr>sessions = [''workbookSession:default:wb1'' \<mapsto> (''S0'', 200000)],
               idem = Map.empty, rate = Map.empty\<rparr>,
      breakers = [], guard = None, trace = []\<rparr>"

definition insert_request :: request where
  "insert_request =
     \<lparr>basePath = ''/me/drive/items/wb1/workbook'', suffix = Range (JStr ''Sheet1'') ''A1:B2'',
      verb = PATCH, session = Some ''S1'',
      payload = JObj [(''values'', JArr [JArr [JStr ''Name'', JStr ''Value''], JArr [JStr ''Test'', JNum 123]])]\<rparr>"

text \<open>The user's window as a command sees it: the members of the key, if it has not expired.\<close>

definition user_window :: "'x env \<Rightarrow> string \<Rightarrow> 'x world \<Rightarrow> ((int \<times> real) \<times> int) list" where
  "user_window env userId w =
     (case zlive (clock env w) (rate (store w)) (rate_key userId) of None \<Rightarrow> [] | Some z \<Rightarrow> members z)"

text \<open>What \<^verbatim>\<open>zremrangebyscore(key, 0, windowStart)\<close> leaves of that window.\<close>

definition kept :: "'x env \<Rightarrow> string \<Rightarrow> int \<Rightarrow> 'x world \<Rightarrow> ((int \<times> real) \<times> int) list" where
  "kept env userId windowSeconds w =
     filter (\<lambda>(mem, score). \<not> (0 \<le> score \<and> score \<le> clock env w - windowSeconds * 1000))
       (user_window env userId w)"

text \<open>What \<^verbatim>\<open>zadd\<close> makes of a list of members.\<close>

definition record_now :: "(int \<times> real) \<Rightarrow> int \<Rightarrow> ((int \<times> real) \<times> int) list \<Rightarrow> ((int \<times> real) \<times> int) list" where
  "record_now mem score ms =
     (if mem \<in> fst ` set ms then map (\<lambda>(k, v). if k = mem then (k, score) else (k, v)) ms
      else ms @ [(mem, score)])"

text \<open>A sorted set that has not expired.\<close>

definition is_live :: "int \<Rightarrow> zset \<Rightarrow> bool" where
  "is_live now z = (case expireAt z of None \<Rightarrow> True | Some e \<Rightarrow> live now e)"

text \<open>
  Checks of any users, one after the other: each is the check of a user that arrives when
  the outside world is in a given state, and is answered before the next one arrives.
  The run lists each check with its answer.
\<close>

fun serial_checks ::
  "'x env \<Rightarrow> int \<Rightarrow> int \<Rightarrow> (string \<times> 'x) list \<Rightarrow> 'x world \<Rightarrow> ((string \<times> 'x) \<times> RateLimit) list" where
  "serial_checks env maxRequests windowSeconds [] w = []"
| "serial_checks env maxRequests windowSeconds ((u, x) # rs) w =
     (let (res, w') = checkRateLimit env u maxRequests windowSeconds (w\<lparr>ext := x\<rparr>)
      in ((u, x), res) # serial_checks env maxRequests windowSeconds rs w')"

text \<open>The checks of one user in a run, each with the state it arrived in and its answer.\<close>

definition own :: "string \<Rightarrow> ((string \<times> 'x) \<times> RateLimit) list \<Rightarrow> ('x \<times> RateLimit) list" where
  "own userId run = map (\<lambda>((u, x), res). (x, res)) (filter (\<lambda>((u, x), res). u = userId) run)"

text \<open>The time a check of a list arrives at.\<close>

definition arrival :: "'x env \<Rightarrow> (string \<times> 'x) list \<Rightarrow> nat \<Rightarrow> int" where
  "arrival env rs i = date_now env (snd (rs ! i))"

text \<open>The members stored under the user's key, expired or not.\<close>

definition raw_window :: "string \<Rightarrow> 'x world \<Rightarrow> ((int \<times> real) \<times> int) list" where
  "raw_window userId w = (case rate (store w) (rate_key userId) of None \<Rightarrow> [] | Some z \<Rightarrow> members z)"

text \<open>
  What serial checks keep true of the stored window: a member's score is the time in its
  name, no score is negative or later than the last check, and the key does not expire
  before its members have left the window.
\<close>

definition inv0 :: "string \<Rightarrow> int \<Rightarrow> int \<Rightarrow> 'x world \<Rightarrow> bool" where
  "inv0 userId windowSeconds T w \<longleftrightarrow>
     (\<forall>(mem, s) \<in> set (raw_window userId w). fst mem = s \<and> 0 \<le> s \<and> s \<le> T) \<and>
     (\<forall>z. rate (store w) (rate_key userId) = Some z \<longrightarrow>
        (\<exists>E. expireAt z = Some E \<and> (\<forall>(mem, s) \<in> set (members z). s + windowSeconds * 1000 \<le> E)))"

text \<open>The member a check arriving in state \<open>x\<close> would record.\<close>

definition member_of :: "'x env \<Rightarrow> 'x \<Rightarrow> int \<times> real" where
  "member_of env x = (date_now env x, fst (math_random env x))"

text \<open>The number of admissions of a run with a time in \<open>(lo, hi]\<close>.\<close>

definition admissions :: "'x env \<Rightarrow> int \<Rightarrow> int \<Rightarrow> ('x \<times> RateLimit) list \<Rightarrow> nat" where
  "admissions env lo hi run =
     length (filter (\<lambda>(x, res). allowed res \<and> lo < date_now env x \<and> date_now env x \<le> hi) run)"

text \<open>The number of admissions of a run with a time after \<open>c\<close>.\<close>

definition admitted_after :: "'x env \<Rightarrow> int \<Rightarrow> ('x \<times> RateLimit) list \<Rightarrow> nat" where
  "admitted_after env c run = length (filter (\<lambda>(x, res). allowed res \<and> c < date_now env x) run)"

text \<open>
  The stored window counts the admissions of the run so far, and no window of the run so
  far holds more admissions than the quota.
\<close>

definition inv1 :: "'x env \<Rightarrow> string \<Rightarrow> int \<Rightarrow> int \<Rightarrow> ('x \<times> RateLimit) list \<Rightarrow> int \<Rightarrow> 'x world \<Rightarrow> bool" where
  "inv1 env userId maxRequests windowSeconds past T w \<longleftrightarrow>
     inv0 userId windowSeconds T w \<and>
     fst ` set (raw_window userId w) \<subseteq> member_of env ` fst ` set past \<and>
     (\<forall>c \<ge> T - windowSeconds * 1000.
        length (filter (\<lambda>(mem, s). c < s) (raw_window userId w)) = admitted_after env c past) \<and>
     (\<forall>(x, res) \<in> set past. date_now env x \<le> T) \<and>
     (\<forall>a. int (admissions env a (a + windowSeconds * 1000) past) \<le> maxRequests)"

text \<open>
  A world in which the user has used a quota of 2: two requests recorded, at 1000 and at
  2000, and the clock at 3000.
\<close>

definition full_world :: "(nat \<times> int) world" where
  "full_world =
     \<lparr>ext = (0, 3000),
      store = \<lparr>sessions = Map.empty, idem = Map.empty,
               rate = [''rate:user-1'' \<mapsto>
                 \<lparr>members = [((1000, 1/2), 1000), ((2000, 1/2), 2000)], expireAt = Some 62000\<rparr>]\<rparr>,
      breakers = [], guard = None, trace = []\<rparr>"

text \<open>
  A world in which four requests are recorded, the oldest more than a window of 60
  seconds before the clock.
\<close>

definition stale_world :: "(nat \<times> int) world" where
  "stale_world =
     \<lparr>ext = (0, 70000),
      store = \<lparr>sessions = Map.empty, idem = Map.empty,
               rate = [''rate:user-1'' \<mapsto>
                 \<lparr>members = [((1000, 1/2), 1000), ((20000, 1/2), 20000), ((30000, 1/2), 30000),
                             ((40000, 1/2), 40000)],
                  expireAt = Some 100000\<rparr>]\<rparr>,
      breakers = [], guard = None, trace = []\<rparr>"

text \<open>
  The rate-limit check of the handler: 100 requests in 60 seconds, for the user id the
  handler reads off the request, which is \<^verbatim>\<open>undefined\<close> for every request.
\<close>

definition rate_checked :: "'x env \<Rightarrow> 'x world \<Rightarrow> RateLimit \<times> 'x world" where
  "rate_checked env w = checkRateLimit env ''undefined'' 100 60 w"

text \<open>
  A stored response, a request that carries its key, a world whose idempotency store
  holds the response and whose rate limiter has seen nothing, and the same world after
  100 requests to the route in the last 5 seconds.
\<close>

definition stored_response :: ApplyResponse where
  "stored_response =
     \<lparr>applied = [op_insert], errors = None, sessionId = ''S1'', success = True, durationMs = 12\<rparr>"

definition replay_body :: ApplyRequest where
  "replay_body = \<lparr>body_itemId = ''wb1'', body_driveId = None, body_operations = [op_insert],
     body_idempotencyKey = Some ''k1''\<rparr>"

definition replay_world :: "(nat \<times> int) world" where
  "replay_world =
     \<lparr>ext = (0, 5000),
      store = \<lparr>sessions = Map.empty, idem = [''idem:k1'' \<mapsto> (stored_response, 86400000)],
               rate = Map.empty\<rparr>,
      breakers = [], guard = None, trace = []\<rparr>"

definition busy_world :: "(nat \<times> int) world" where
  "busy_world =
     \<lparr>ext = (0, 5000),
      store = \<lparr>sessions = Map.empty, idem = [''idem:k1'' \<mapsto> (stored_response, 86400000)],
               rate = [''rate:undefined'' \<mapsto>
                  \<lparr>members = map (\<lambda>i. ((int i, 0), int i)) [1..<101], expireAt = Some 60100\<rparr>]\<rparr>,
      breakers = [], guard = None, trace = []\<rparr>"

text \<open>A batch whose first operation will be refused and asks to continue.\<close>

definition partial_body :: ApplyRequest where
  "partial_body = \<lparr>body_itemId = ''wb1'', body_driveId = None,
     body_operations = [op_update, op_format], body_idempotencyKey = Some ''k1''\<rparr>"

definition partial_response :: ApplyResponse where
  "partial_response =
     \<lparr>applied = [op_format], errors = Some [(0, ''Bad Request'')], sessionId = ''S1'',
      success = True, durationMs = 0\<rparr>"

section \<open>The retry policy\<close>

lemma no_retry_iff:
  "no_retry e \<longleftrightarrow> (\<exists>c. statusCode e = Some c \<and> 400 \<le> c \<and> c < 500 \<and> c \<noteq> 429)"
  by (auto simp: no_retry_def split: option.splits)

lemma graph_call_trace:
  "graph_call env client rq w = (r, w1) \<Longrightarrow> trace w1 = trace w @ [GraphCall (guard w) rq r]"
  by (auto simp: graph_call_def split: prod.splits)

text \<open>The trace a run of the loop adds is one the policy allows.\<close>

lemma graphRetry_from_trace:
  assumes rnd: "\<And>x. 0 \<le> fst (math_random env x) \<and> fst (math_random env x) < 1"
  shows "attempt \<le> N \<Longrightarrow> (attempt = N \<longrightarrow> lastError \<noteq> None) \<Longrightarrow>
     graphRetry_from env (graph_call env client rq) N base attempt lastError w = (res, w') \<Longrightarrow>
     \<exists>evs. trace w' = trace w @ evs \<and> retry_trace N base attempt lastError evs res"
proof (induction "N - attempt" arbitrary: attempt lastError w)
  case 0
  then obtain e where e: "attempt = N" "lastError = Some e" by auto
  have "graphRetry_from env (graph_call env client rq) N base attempt lastError w = (Inl e, w)"
    by (subst graphRetry_from.simps) (simp add: e)
  with "0.prems"(3) e show ?case
    by (auto intro: retry_trace.exhausted)
next
  case (Suc n)
  then have lt: "attempt < N" by simp
  note unfold = graphRetry_from.simps[of env "graph_call env client rq" N base attempt lastError w]
  obtain r w1 where fw: "graph_call env client rq w = (r, w1)" by force
  then have tr1: "trace w1 = trace w @ [GraphCall (guard w) rq r]"
    by (rule graph_call_trace)
  show ?case
  proof (cases r)
    case (Inr v)
    with lt fw Suc.prems(3) have "res = Inr v" "w' = w1"
      by (auto simp: unfold)
    with tr1 Inr lt show ?thesis by (auto intro: retry_trace.returned)
  next
    case (Inl e)
    show ?thesis
    proof (cases "no_retry e")
      case nr: True
      with lt fw Suc.prems(3) Inl have "res = Inl e" "w' = w1"
        by (auto simp: unfold)
      moreover from nr obtain c where "statusCode e = Some c" "400 \<le> c" "c < 500" "c \<noteq> 429"
        by (auto simp: no_retry_iff)
      ultimately show ?thesis using tr1 Inl lt by (auto intro: retry_trace.raised)
    next
      case rt: False
      obtain j x where mr: "math_random env (ext w1) = (j, x)" by force
      define d where "d = map_option (\<lambda>d. d + j * 1000) (retry_delay e base attempt)"
      define w2 where "w2 = sleep env d (w1\<lparr>ext := x\<rparr>)"
      have rec: "graphRetry_from env (graph_call env client rq) N base (Suc attempt) (Some e) w2 = (res, w')"
        using lt fw Suc.prems(3) Inl rt mr
        by (simp add: unfold d_def w2_def)
      have tr2: "trace w2 = trace w @ [GraphCall (guard w) rq (Inl e), Slept d]"
        using tr1 Inl by (simp add: w2_def sleep_def)
      have "n = N - Suc attempt" using Suc.hyps(2) by simp
      from Suc.hyps(1)[OF this _ _ rec] lt
      obtain evs where evs: "trace w' = trace w2 @ evs" "retry_trace N base (Suc attempt) (Some e) evs res"
        by auto
      have j: "0 \<le> j * 1000" "j * 1000 < 1000" using rnd[of "ext w1"] mr by auto
      have "retry_trace N base attempt lastError (GraphCall (guard w) rq (Inl e) # Slept d # evs) res"
      proof (cases "truthy_str (retryAfter e)")
        case True
        then obtain s where s: "retryAfter e = Some s" "s \<noteq> []"
          by (auto simp: truthy_str_def split: option.splits)
        then have "d = map_option (\<lambda>n. real_of_int n * 1000 + j * 1000) (parseInt s)"
          using True by (simp add: d_def retry_delay_def option.map_comp comp_def)
        with retry_trace.retried_server[OF lt _ s j evs(2)] rt show ?thesis
          by (simp add: no_retry_iff)
      next
        case False
        then have s: "retryAfter e = None \<or> retryAfter e = Some []"
          by (auto simp: truthy_str_def split: option.splits)
        from False have "d = Some (base * 2 ^ attempt + j * 1000)"
          by (simp add: d_def retry_delay_def)
        with retry_trace.retried_backoff[OF lt _ s j evs(2)] rt show ?thesis
          by (simp add: no_retry_iff)
      qed
      with evs(1) tr2 show ?thesis by auto
    qed
  qed
qed

lemma retry_trace_calls:
  "retry_trace N base k le evs res \<Longrightarrow> length (filter is_call evs) \<le> N - k"
  by (induction rule: retry_trace.induct) auto

lemma retry_trace_at_end:
  "retry_trace N base N le evs res \<Longrightarrow> evs = [] \<and> (\<exists>e. le = Some e \<and> res = Inl e)"
  by (erule retry_trace.cases) auto

lemma exhausted_step:
  assumes k: "k < N" and nr: "\<not> no_retry e" and j: "0 \<le> j" "j < 1000"
    and tail: "(Suc k < N \<and> exhausted_shape N base (Suc k) evs res) \<or> (Suc k = N \<and> evs = [] \<and> res = Inl e)"
  shows "exhausted_shape N base k
           (GraphCall g rq (Inl e) # Slept (map_option (\<lambda>d. d + j) (retry_delay e base k)) # evs) res"
  using tail
proof
  assume "Suc k = N \<and> evs = [] \<and> res = Inl e"
  then have N: "N - k = 1" and evs: "evs = []" and res: "res = Inl e" using k by auto
  show ?thesis
    unfolding exhausted_shape_def N evs res using nr j by auto
next
  assume t: "Suc k < N \<and> exhausted_shape N base (Suc k) evs res"
  then have len: "length evs = 2 * (N - Suc k)"
    and nth: "\<And>i. i < N - Suc k \<Longrightarrow> \<exists>g rq e j. 0 \<le> j \<and> j < 1000 \<and> \<not> no_retry e \<and>
        evs ! (2 * i) = GraphCall g rq (Inl e) \<and>
        evs ! (2 * i + 1) = Slept (map_option (\<lambda>d. d + j) (retry_delay e base (Suc k + i)))"
    and lst: "\<exists>g rq e. evs ! (2 * (N - Suc k) - 2) = GraphCall g rq (Inl e) \<and> res = Inl e"
    by (auto simp: exhausted_shape_def)
  let ?evs = "GraphCall g rq (Inl e) # Slept (map_option (\<lambda>d. d + j) (retry_delay e base k)) # evs"
  have Nk: "N - k = Suc (N - Suc k)" using k by simp
  have 1: "length ?evs = 2 * (N - k)" using len by (simp add: Nk)
  have 2: "\<exists>g rq e j. 0 \<le> j \<and> j < 1000 \<and> \<not> no_retry e \<and>
        ?evs ! (2 * i) = GraphCall g rq (Inl e) \<and>
        ?evs ! (2 * i + 1) = Slept (map_option (\<lambda>d. d + j) (retry_delay e base (k + i)))" if "i < N - k" for i
  proof (cases i)
    case 0
    then show ?thesis using nr j by auto
  next
    case (Suc i')
    with that have "i' < N - Suc k" by simp
    from nth[OF this] Suc show ?thesis by simp
  qed
  have "Suc k < N" using t by simp
  then have "2 * (N - k) - 2 = Suc (Suc (2 * (N - Suc k) - 2))" by arith
  then have 3: "\<exists>g rq e. ?evs ! (2 * (N - k) - 2) = GraphCall g rq (Inl e) \<and> res = Inl e"
    using lst by simp
  show ?thesis unfolding exhausted_shape_def using 1 2 3 by blast
qed

lemma retry_trace_exhausted:
  "retry_trace N base k le evs res \<Longrightarrow>
   list_all (\<lambda>ev. is_call ev \<longrightarrow> retryable_failure ev) evs \<Longrightarrow> k < N \<Longrightarrow>
   exhausted_shape N base k evs res"
proof (induction rule: retry_trace.induct)
  case (returned k le g rq v)
  then show ?case by (simp add: retryable_failure_def)
next
  case (raised k e c le g rq)
  then show ?case by (auto simp: retryable_failure_def no_retry_def)
next
  case (retried_server k e s j evs res le g rq)
  have d: "map_option (\<lambda>n. real_of_int n * 1000 + j) (parseInt s) = map_option (\<lambda>d. d + j) (retry_delay e base k)"
    using retried_server.hyps by (simp add: retry_delay_def truthy_str_def option.map_comp comp_def)
  have nr: "\<not> no_retry e" using retried_server.hyps by (simp add: no_retry_iff)
  have all: "list_all (\<lambda>ev. is_call ev \<longrightarrow> retryable_failure ev) evs"
    using retried_server.prems by simp
  have "(Suc k < N \<and> exhausted_shape N base (Suc k) evs res) \<or> (Suc k = N \<and> evs = [] \<and> res = Inl e)"
  proof (cases "Suc k < N")
    case True
    with retried_server.IH[OF all True] show ?thesis by simp
  next
    case False
    then have "Suc k = N" using retried_server.hyps by simp
    with retry_trace_at_end[of N base "Some e" evs res] retried_server.hyps show ?thesis by auto
  qed
  from exhausted_step[OF \<open>k < N\<close> nr \<open>0 \<le> j\<close> \<open>j < 1000\<close> this] show ?case by (simp add: d)
next
  case (retried_backoff k e j evs res le g rq)
  have d: "Some (base * 2 ^ k + j) = map_option (\<lambda>d. d + j) (retry_delay e base k)"
    using retried_backoff.hyps by (auto simp: retry_delay_def truthy_str_def)
  have nr: "\<not> no_retry e" using retried_backoff.hyps by (simp add: no_retry_iff)
  have all: "list_all (\<lambda>ev. is_call ev \<longrightarrow> retryable_failure ev) evs"
    using retried_backoff.prems by simp
  have "(Suc k < N \<and> exhausted_shape N base (Suc k) evs res) \<or> (Suc k = N \<and> evs = [] \<and> res = Inl e)"
  proof (cases "Suc k < N")
    case True
    with retried_backoff.IH[OF all True] show ?thesis by simp
  next
    case False
    then have "Suc k = N" using retried_backoff.hyps by simp
    with retry_trace_at_end[of N base "Some e" evs res] retried_backoff.hyps show ?thesis by auto
  qed
  from exhausted_step[OF \<open>k < N\<close> nr \<open>0 \<le> j\<close> \<open>j < 1000\<close> this] show ?case by (simp add: d)
next
  case (exhausted e)
  then show ?case by simp
qed

lemma parseInt_5: "parseInt ''5'' = Some 5"
  by (simp add: parseInt_def is_space_def is_digit_def digit_val_def)

lemma parseInt_30: "parseInt ''30'' = Some 30"
  by (simp add: parseInt_def is_space_def is_digit_def digit_val_def)

lemma parseInt_1: "parseInt ''1'' = Some 1"
  by (simp add: parseInt_def is_space_def is_digit_def digit_val_def)

lemmas retry_eval =
  graphRetry_default_def graphRetry_def graphRetry_from.simps[of _ _ 3] graph_call_def sleep_def
  no_retry_def retry_delay_def truthy_str_def parseInt_1 parseInt_5
  demo_env_def demo_world_def empty_store_def throttled_def unavailable_def session_made_def

text \<open>
  C6. A call wrapped by the retry policy, with a budget of at least one attempt and
  random draws in \<open>[0, 1)\<close>, leaves a trace the policy allows: a failure with a 4xx status
  other than 429 is raised at once with no further attempt; any other failure is followed
  by a sleep of the retry-after seconds times 1000 when the header is there, of
  \<open>base * 2 ^ attempt\<close> otherwise, plus a jitter in \<open>[0, 1000)\<close>, and by the next attempt;
  at most \<open>maxRetries\<close> attempts are made and then the last error is raised. The default
  budget is 3 attempts and the default base 1000 milliseconds.
\<close>

theorem graphRetry_policy:
  assumes "\<forall>x. 0 \<le> fst (math_random env x) \<and> fst (math_random env x) < 1"
    and "0 < maxRetries"
    and "graphRetry env (graph_call env client rq) maxRetries baseDelayMs w = (res, w')"
  shows "(\<exists>evs. trace w' = trace w @ evs \<and>
            retry_trace maxRetries baseDelayMs 0 None evs res \<and>
            length (filter is_call evs) \<le> maxRetries) \<and>
         graphRetry_default env (graph_call env client rq) w =
           graphRetry env (graph_call env client rq) 3 1000 w"
proof -
  from assms(1) have rnd: "\<And>x. 0 \<le> fst (math_random env x) \<and> fst (math_random env x) < 1" by simp
  from graphRetry_from_trace[OF rnd, of 0 maxRetries None client rq baseDelayMs w res w'] assms(2,3)
  obtain evs where evs: "trace w' = trace w @ evs" "retry_trace maxRetries baseDelayMs 0 None evs res"
    by (auto simp: graphRetry_def)
  from retry_trace_calls[OF evs(2)] have "length (filter is_call evs) \<le> maxRetries" by simp
  with evs show ?thesis by (auto simp: graphRetry_default_def)
qed

theorem graphRetry_policy_witness:
  "(\<forall>x. 0 \<le> fst (math_random (demo_env (\<lambda>n. if n = 0 then Inl (throttled ''5'') else Inr (session_made ''S1'')) (1/4)) x)
        \<and> fst (math_random (demo_env (\<lambda>n. if n = 0 then Inl (throttled ''5'') else Inr (session_made ''S1'')) (1/4)) x) < 1) \<and>
   (0::nat) < 3 \<and>
   graphRetry (demo_env (\<lambda>n. if n = 0 then Inl (throttled ''5'') else Inr (session_made ''S1'')) (1/4))
     (graph_call (demo_env (\<lambda>n. if n = 0 then Inl (throttled ''5'') else Inr (session_made ''S1'')) (1/4))
        ''tok'' (createSession_request None ''wb1'')) 3 1000 (demo_world 0)
   = (Inr (session_made ''S1''),
      (demo_world 0)\<lparr>ext := (2, 5250), trace :=
         [GraphCall None (createSession_request None ''wb1'') (Inl (throttled ''5'')),
          Slept (Some 5250),
          GraphCall None (createSession_request None ''wb1'') (Inr (session_made ''S1''))]\<rparr>) \<and>
   (\<exists>evs. trace ((demo_world 0)\<lparr>ext := (2, 5250), trace :=
         [GraphCall None (createSession_request None ''wb1'') (Inl (throttled ''5'')),
          Slept (Some 5250),
          GraphCall None (createSession_request None ''wb1'') (Inr (session_made ''S1''))]\<rparr>)
        = trace (demo_world 0) @ evs \<and>
      retry_trace 3 1000 0 None evs (Inr (session_made ''S1'')) \<and>
      length (filter is_call evs) \<le> 3)"
proof -
  let ?E = "demo_env (\<lambda>n. if n = 0 then Inl (throttled ''5'') else Inr (session_made ''S1'')) (1/4)"
  let ?W = "(demo_world 0)\<lparr>ext := (2, 5250), trace :=
         [GraphCall None (createSession_request None ''wb1'') (Inl (throttled ''5'')),
          Slept (Some 5250),
          GraphCall None (createSession_request None ''wb1'') (Inr (session_made ''S1''))]\<rparr>"
  have h1: "\<forall>x. 0 \<le> fst (math_random ?E x) \<and> fst (math_random ?E x) < 1"
    by (simp add: demo_env_def)
  have h2: "(0::nat) < 3" by simp
  have h3: "graphRetry ?E (graph_call ?E ''tok'' (createSession_request None ''wb1'')) 3 1000 (demo_world 0)
      = (Inr (session_made ''S1''), ?W)"
    by (simp add: retry_eval)
  note c = graphRetry_policy[OF h1 h2 h3, THEN conjunct1]
  show ?thesis by (intro conjI h1 h2 h3 c)
qed


text \<open>
  C10, as stated, fails: with three attempts that each fail with a 429 carrying
  \<^verbatim>\<open>retry-after: 1\<close>, base 1000 and every random draw 1/2, the sleep after the last
  attempt is 1500 ms, less than \<open>base * 2 ^ (N - 1) = 4000\<close> ms.
\<close>

theorem graphRetry_final_delay_counterexample:
  "graphRetry_default (demo_env (\<lambda>n. Inl (throttled ''1'')) (1/2))
     (graph_call (demo_env (\<lambda>n. Inl (throttled ''1'')) (1/2)) ''tok'' (createSession_request None ''wb1''))
     (demo_world 0)
   = (Inl (throttled ''1''),
      (demo_world 0)\<lparr>ext := (3, 4500), trace :=
         [GraphCall None (createSession_request None ''wb1'') (Inl (throttled ''1'')), Slept (Some 1500),
          GraphCall None (createSession_request None ''wb1'') (Inl (throttled ''1'')), Slept (Some 1500),
          GraphCall None (createSession_request None ''wb1'') (Inl (throttled ''1'')), Slept (Some 1500)]\<rparr>) \<and>
   \<not> no_retry (throttled ''1'') \<and>
   \<not> (1000 * 2 ^ (3 - 1) \<le> (1500::real))"
  by (simp add: retry_eval)

text \<open>
  C10, amended. When every attempt of a wrapped call fails with an error the policy
  retries, the run adds to the trace, for each of the \<open>maxRetries\<close> attempts, the failed
  call followed by a sleep of the computed delay plus a jitter in \<open>[0, 1000)\<close>, the sleep
  after the final attempt included, and only then raises the last error. The final sleep
  is at least \<open>base * 2 ^ (maxRetries - 1)\<close> ms when the last error carries no retry-after
  header; with the header it is the header's seconds times 1000 plus the jitter.
\<close>

theorem graphRetry_sleeps_after_last_attempt:
  assumes "\<forall>x. 0 \<le> fst (math_random env x) \<and> fst (math_random env x) < 1"
    and "0 < maxRetries"
    and "graphRetry env (graph_call env client rq) maxRetries baseDelayMs w = (res, w')"
    and "trace w' = trace w @ evs"
    and "list_all (\<lambda>ev. is_call ev \<longrightarrow> retryable_failure ev) evs"
  shows "length evs = 2 * maxRetries \<and>
         (\<forall>i < maxRetries. \<exists>g rq' e j. 0 \<le> j \<and> j < 1000 \<and> \<not> no_retry e \<and>
            evs ! (2 * i) = GraphCall g rq' (Inl e) \<and>
            evs ! (2 * i + 1) = Slept (map_option (\<lambda>d. d + j) (retry_delay e baseDelayMs i))) \<and>
         (\<exists>g rq' e d. res = Inl e \<and>
            evs ! (2 * maxRetries - 2) = GraphCall g rq' (Inl e) \<and>
            evs ! (2 * maxRetries - 1) = Slept d \<and>
            (truthy_str (retryAfter e) \<longrightarrow>
               (\<exists>j. 0 \<le> j \<and> j < 1000 \<and>
                  d = map_option (\<lambda>n. real_of_int n * 1000 + j) (parseInt (the (retryAfter e))))) \<and>
            (\<not> truthy_str (retryAfter e) \<longrightarrow>
               (\<exists>t. d = Some t \<and> baseDelayMs * 2 ^ (maxRetries - 1) \<le> t)))"
proof -
  from assms(1) have rnd: "\<And>x. 0 \<le> fst (math_random env x) \<and> fst (math_random env x) < 1" by simp
  from graphRetry_from_trace[OF rnd, of 0 maxRetries None client rq baseDelayMs w res w'] assms(2,3)
  obtain evs' where evs': "trace w' = trace w @ evs'" "retry_trace maxRetries baseDelayMs 0 None evs' res"
    by (auto simp: graphRetry_def)
  with assms(4) have "evs' = evs" by simp
  with evs'(2) have "retry_trace maxRetries baseDelayMs 0 None evs res" by simp
  from retry_trace_exhausted[OF this assms(5) assms(2)]
  have len: "length evs = 2 * maxRetries"
    and nth: "\<And>i. i < maxRetries \<Longrightarrow> \<exists>g rq' e j. 0 \<le> j \<and> j < 1000 \<and> \<not> no_retry e \<and>
        evs ! (2 * i) = GraphCall g rq' (Inl e) \<and>
        evs ! (2 * i + 1) = Slept (map_option (\<lambda>d. d + j) (retry_delay e baseDelayMs i))"
    and lst: "\<exists>g rq' e. evs ! (2 * maxRetries - 2) = GraphCall g rq' (Inl e) \<and> res = Inl e"
    by (auto simp: exhausted_shape_def)
  from lst obtain g rq' e where e: "evs ! (2 * maxRetries - 2) = GraphCall g rq' (Inl e)" "res = Inl e"
    by blast
  have i: "maxRetries - 1 < maxRetries" using assms(2) by simp
  have ix: "2 * maxRetries - 2 = 2 * (maxRetries - 1)" "2 * maxRetries - 1 = 2 * (maxRetries - 1) + 1"
    using assms(2) by arith+
  from nth[OF i] obtain g2 rq2 e2 j where j: "0 \<le> j" "j < 1000"
    and c2: "evs ! (2 * (maxRetries - 1)) = GraphCall g2 rq2 (Inl e2)"
    and d2: "evs ! (2 * (maxRetries - 1) + 1) = Slept (map_option (\<lambda>d. d + j) (retry_delay e2 baseDelayMs (maxRetries - 1)))"
    by blast
  from c2 e(1) have "e2 = e" by (simp only: ix) simp
  with d2 have d: "evs ! (2 * maxRetries - 1) = Slept (map_option (\<lambda>d. d + j) (retry_delay e baseDelayMs (maxRetries - 1)))"
    by (simp only: ix)
  let ?d = "map_option (\<lambda>d. d + j) (retry_delay e baseDelayMs (maxRetries - 1))"
  have server: "truthy_str (retryAfter e) \<longrightarrow>
      (\<exists>j. 0 \<le> j \<and> j < 1000 \<and> ?d = map_option (\<lambda>n. real_of_int n * 1000 + j) (parseInt (the (retryAfter e))))"
    using j by (auto simp: retry_delay_def option.map_comp comp_def)
  have backoff: "\<not> truthy_str (retryAfter e) \<longrightarrow> (\<exists>t. ?d = Some t \<and> baseDelayMs * 2 ^ (maxRetries - 1) \<le> t)"
    using j by (simp add: retry_delay_def)
  from e d server backoff
  have "\<exists>g rq' e d. res = Inl e \<and>
            evs ! (2 * maxRetries - 2) = GraphCall g rq' (Inl e) \<and>
            evs ! (2 * maxRetries - 1) = Slept d \<and>
            (truthy_str (retryAfter e) \<longrightarrow>
               (\<exists>j. 0 \<le> j \<and> j < 1000 \<and>
                  d = map_option (\<lambda>n. real_of_int n * 1000 + j) (parseInt (the (retryAfter e))))) \<and>
            (\<not> truthy_str (retryAfter e) \<longrightarrow>
               (\<exists>t. d = Some t \<and> baseDelayMs * 2 ^ (maxRetries - 1) \<le> t))"
    by blast
  with len nth show ?thesis by blast
qed

theorem graphRetry_sleeps_after_last_attempt_witness:
  "(\<forall>x. 0 \<le> fst (math_random (demo_env (\<lambda>n. Inl unavailable) (1/2)) x)
        \<and> fst (math_random (demo_env (\<lambda>n. Inl unavailable) (1/2)) x) < 1) \<and>
   (0::nat) < 3 \<and>
   graphRetry (demo_env (\<lambda>n. Inl unavailable) (1/2))
     (graph_call (demo_env (\<lambda>n. Inl unavailable) (1/2)) ''tok'' (createSession_request None ''wb1''))
     3 1000 (demo_world 0)
   = (Inl unavailable,
      (demo_world 0)\<lparr>ext := (3, 8500), trace :=
         [GraphCall None (createSession_request None ''wb1'') (Inl unavailable), Slept (Some 1500),
          GraphCall None (createSession_request None ''wb1'') (Inl unavailable), Slept (Some 2500),
          GraphCall None (createSession_request None ''wb1'') (Inl unavailable), Slept (Some 4500)]\<rparr>) \<and>
   list_all (\<lambda>ev. is_call ev \<longrightarrow> retryable_failure ev)
         [GraphCall None (createSession_request None ''wb1'') (Inl unavailable), Slept (Some 1500),
          GraphCall None (createSession_request None ''wb1'') (Inl unavailable), Slept (Some 2500),
          GraphCall None (createSession_request None ''wb1'') (Inl unavailable), Slept (Some 4500)] \<and>
   length [GraphCall None (createSession_request None ''wb1'') (Inl unavailable), Slept (Some 1500),
          GraphCall None (createSession_request None ''wb1'') (Inl unavailable), Slept (Some 2500),
          GraphCall None (createSession_request None ''wb1'') (Inl unavailable), Slept (Some 4500)] = 2 * 3 \<and>
   (1000::real) * 2 ^ (3 - 1) \<le> 4500"
proof -
  let ?E = "demo_env (\<lambda>n. Inl unavailable) (1/2)"
  let ?evs = "[GraphCall None (createSession_request None ''wb1'') (Inl unavailable), Slept (Some 1500),
          GraphCall None (createSession_request None ''wb1'') (Inl unavailable), Slept (Some 2500),
          GraphCall None (createSession_request None ''wb1'') (Inl unavailable), Slept (Some 4500)]"
  let ?W = "(demo_world 0)\<lparr>ext := (3, 8500), trace := ?evs\<rparr>"
  have h1: "\<forall>x. 0 \<le> fst (math_random ?E x) \<and> fst (math_random ?E x) < 1"
    by (simp add: demo_env_def)
  have h2: "(0::nat) < 3" by simp
  have h3: "graphRetry ?E (graph_call ?E ''tok'' (createSession_request None ''wb1'')) 3 1000 (demo_world 0)
      = (Inl unavailable, ?W)"
    by (simp add: retry_eval)
  have h4: "trace ?W = trace (demo_world 0) @ ?evs"
    by (simp add: demo_world_def)
  have h5: "list_all (\<lambda>ev. is_call ev \<longrightarrow> retryable_failure ev) ?evs"
    by (simp add: retryable_failure_def no_retry_def unavailable_def)
  note c = graphRetry_sleeps_after_last_attempt[OF h1 h2 h3 h4 h5, THEN conjunct1]
  have b: "(1000::real) * 2 ^ (3 - 1) \<le> 4500" by simp
  show ?thesis by (intro conjI h1 h2 h3 h5 c b)
qed

section \<open>The operation executor\<close>

text \<open>
  What a run of the loop from index \<open>i\<close> adds: the operations applied are a subsequence
  of the operations from \<open>i\<close> on, a prefix of them when no failed operation asks to continue,
  and a failed operation that does not ask to continue has nothing applied after it.
\<close>

lemma apply_from_shape:
  "apply_from env client itemId driveId sid ops i sofar errs w = (sofar1, errs1, w') \<Longrightarrow>
   \<exists>ys es. sofar1 = sofar @ ys \<and> errs1 = errs @ es \<and>
     subseq ys (drop i ops) \<and>
     ((\<forall>(k, m) \<in> set es. \<not> continueOnError (ops ! k)) \<longrightarrow> prefix ys (drop i ops)) \<and>
     (\<forall>(k, m) \<in> set es. i \<le> k \<and> k < length ops \<and>
         (\<not> continueOnError (ops ! k) \<longrightarrow> subseq ys (take (k - i) (drop i ops))))"
proof (induction "length ops - i" arbitrary: i sofar errs w)
  case 0
  then have "\<not> i < length ops" by simp
  with "0.prems" have "sofar1 = sofar" "errs1 = errs"
    by (simp_all add: apply_from.simps[of env client itemId driveId sid ops i sofar errs w])
  then show ?case by simp
next
  case (Suc n)
  then have lt: "i < length ops" by simp
  note unfold = apply_from.simps[of env client itemId driveId sid ops i sofar errs w]
  have dr: "drop i ops = ops ! i # drop (Suc i) ops" using lt by (simp add: Cons_nth_drop_Suc)
  have n: "n = length ops - Suc i" using Suc.hyps(2) by simp
  obtain r w1 where ao: "applyOperation env client itemId driveId sid (ops ! i) w = (r, w1)" by force
  show ?case
  proof (cases r)
    case (Inr u)
    with lt ao Suc.prems
    have rec: "apply_from env client itemId driveId sid ops (Suc i) (sofar @ [ops ! i]) errs w1 = (sofar1, errs1, w')"
      by (simp add: unfold)
    from Suc.hyps(1)[OF n rec] obtain ys es where ih: "sofar1 = (sofar @ [ops ! i]) @ ys" "errs1 = errs @ es"
      "subseq ys (drop (Suc i) ops)"
      "(\<forall>(k, m) \<in> set es. \<not> continueOnError (ops ! k)) \<longrightarrow> prefix ys (drop (Suc i) ops)"
      "\<forall>(k, m) \<in> set es. Suc i \<le> k \<and> k < length ops \<and>
         (\<not> continueOnError (ops ! k) \<longrightarrow> subseq ys (take (k - Suc i) (drop (Suc i) ops)))"
      by blast
    have "\<forall>(k, m) \<in> set es. i \<le> k \<and> k < length ops \<and>
         (\<not> continueOnError (ops ! k) \<longrightarrow> subseq (ops ! i # ys) (take (k - i) (drop i ops)))"
    proof (clarify, intro conjI impI)
      fix k m assume km: "(k, m) \<in> set es"
      with ih(5) have k: "Suc i \<le> k" "k < length ops" by auto
      then show "i \<le> k" "k < length ops" by simp_all
      assume "\<not> continueOnError (ops ! k)"
      with ih(5) km have "subseq ys (take (k - Suc i) (drop (Suc i) ops))" by auto
      moreover have "take (k - i) (drop i ops) = ops ! i # take (k - Suc i) (drop (Suc i) ops)"
        using k by (simp add: dr take_Cons')
      ultimately show "subseq (ops ! i # ys) (take (k - i) (drop i ops))" by simp
    qed
    with ih show ?thesis by (auto simp: dr)
  next
    case (Inl err)
    show ?thesis
    proof (cases "continueOnError (ops ! i)")
      case False
      with lt ao Suc.prems Inl have "sofar1 = sofar" "errs1 = errs @ [(i, error_text err)]"
        by (simp_all add: unfold)
      with lt False show ?thesis by simp
    next
      case True
      with lt ao Suc.prems Inl
      have rec: "apply_from env client itemId driveId sid ops (Suc i) sofar (errs @ [(i, error_text err)]) w1 = (sofar1, errs1, w')"
        by (simp add: unfold)
      from Suc.hyps(1)[OF n rec] obtain ys es where ih: "sofar1 = sofar @ ys" "errs1 = (errs @ [(i, error_text err)]) @ es"
        "subseq ys (drop (Suc i) ops)"
        "(\<forall>(k, m) \<in> set es. \<not> continueOnError (ops ! k)) \<longrightarrow> prefix ys (drop (Suc i) ops)"
        "\<forall>(k, m) \<in> set es. Suc i \<le> k \<and> k < length ops \<and>
           (\<not> continueOnError (ops ! k) \<longrightarrow> subseq ys (take (k - Suc i) (drop (Suc i) ops)))"
        by blast
      have "\<forall>(k, m) \<in> set ((i, error_text err) # es). i \<le> k \<and> k < length ops \<and>
         (\<not> continueOnError (ops ! k) \<longrightarrow> subseq ys (take (k - i) (drop i ops)))"
      proof (clarify, intro conjI impI)
        fix k m assume km: "(k, m) \<in> set ((i, error_text err) # es)"
        then consider "k = i" | "(k, m) \<in> set es" by auto
        then have k: "i \<le> k \<and> k < length ops" using ih(5) lt by cases auto
        then show "i \<le> k" "k < length ops" by simp_all
        assume nc: "\<not> continueOnError (ops ! k)"
        with True have "k \<noteq> i" by auto
        with km have km': "(k, m) \<in> set es" by auto
        with ih(5) nc have k': "Suc i \<le> k" "subseq ys (take (k - Suc i) (drop (Suc i) ops))" by auto
        moreover have "take (k - i) (drop i ops) = ops ! i # take (k - Suc i) (drop (Suc i) ops)"
          using k' k by (simp add: dr take_Cons')
        ultimately show "subseq ys (take (k - i) (drop i ops))" by (simp only: list_emb_Cons)
      qed
      with ih True show ?thesis by (auto simp: dr)
    qed
  qed
qed

lemmas workbook_eval =
  applyWorkbookOperations_def getWorkbookSession_def getCachedSession_def cacheSession_def
  protectedGraphCall_def getCircuitBreaker_def breaker_timeout_def createSession_request_def sessionKey_def
  redis_get_def redis_setex_def redis_expire_def live_def clock_def
  apply_from.simps[of _ _ _ _ _ "[a, b, c]" for a b c]
  apply_from.simps[of _ _ _ _ _ "[a, b]" for a b] apply_from.simps[of _ _ _ _ _ "[a]" for a]
  apply_from.simps[of _ _ _ _ _ "[]"]
  applyOperation_def operation_request_def worksheet_def workbookPath_def option_of_def
  continueOnError_def error_text_def Error_def Let_def
  op_update_def op_insert_def op_format_def bad_request_def refuse_at_def

text \<open>
  C1, as stated, fails: when the first of two operations fails and carries
  \<^verbatim>\<open>continueOnError\<close>, and the second succeeds, \<^verbatim>\<open>applied\<close> holds the second operation
  only, which is no prefix of the list.
\<close>

theorem applied_prefix_counterexample:
  "fst (applyWorkbookOperations (demo_env (refuse_at 1) 0) ''tok'' ''wb1'' None [op_update, op_format] None
          (demo_world 0))
     = Inr \<lparr>applied = [op_format], errors = Some [(0, ''Bad Request'')], sessionId = ''S1''\<rparr> \<and>
   \<not> prefix [op_format] [op_update, op_format]"
  by (simp add: workbook_eval retry_eval)

text \<open>
  C1, amended. For every operation list passed to \<^verbatim>\<open>applyWorkbookOperations\<close>, the
  result's \<^verbatim>\<open>applied\<close> list is a subsequence of \<^verbatim>\<open>operations\<close>, in their order. It is a
  prefix of \<^verbatim>\<open>operations\<close> when no failed operation carries \<^verbatim>\<open>continueOnError\<close>, so in
  particular when no operation of the list does. If operation \<open>i\<close> fails and does not carry
  \<^verbatim>\<open>continueOnError\<close>, then \<^verbatim>\<open>applied\<close> is a subsequence of the first \<open>i\<close> operations: no
  operation at an index above \<open>i\<close> was applied.
\<close>

theorem applied_subsequence:
  assumes "fst (applyWorkbookOperations env client itemId driveId operations idempotencyKey w) = Inr result"
  shows "subseq (applied result) operations \<and>
         ((\<forall>es. errors result = Some es \<longrightarrow> (\<forall>(i, m) \<in> set es. \<not> continueOnError (operations ! i)))
            \<longrightarrow> prefix (applied result) operations) \<and>
         (list_all (\<lambda>operation. \<not> continueOnError operation) operations
            \<longrightarrow> prefix (applied result) operations) \<and>
         (\<forall>es i m. errors result = Some es \<and> (i, m) \<in> set es \<and> \<not> continueOnError (operations ! i)
            \<longrightarrow> i < length operations \<and> subseq (applied result) (take i operations))"
proof -
  from assms obtain sid w1 sofar errs w2 where
    loop: "apply_from env client itemId driveId sid operations 0 [] [] w1 = (sofar, errs, w2)"
    and res: "result = \<lparr>applied = sofar, errors = (if length errs > 0 then Some errs else None), sessionId = sid\<rparr>"
    by (auto simp: applyWorkbookOperations_def Let_def split: prod.splits sum.splits)
  from apply_from_shape[OF loop] have
    sub: "subseq sofar operations"
    and pre: "(\<forall>(k, m) \<in> set errs. \<not> continueOnError (operations ! k)) \<longrightarrow> prefix sofar operations"
    and err: "\<forall>(k, m) \<in> set errs. k < length operations \<and>
         (\<not> continueOnError (operations ! k) \<longrightarrow> subseq sofar (take k operations))"
    by auto
  have 1: "subseq (applied result) operations" using sub res by simp
  have 2: "(\<forall>es. errors result = Some es \<longrightarrow> (\<forall>(i, m) \<in> set es. \<not> continueOnError (operations ! i)))
            \<longrightarrow> prefix (applied result) operations"
    using pre res by (cases errs) auto
  have 3: "list_all (\<lambda>operation. \<not> continueOnError operation) operations
            \<longrightarrow> prefix (applied result) operations"
  proof
    assume all: "list_all (\<lambda>operation. \<not> continueOnError operation) operations"
    have "\<forall>(k, m) \<in> set errs. \<not> continueOnError (operations ! k)"
      using err all by (auto simp: list_all_length)
    with pre res show "prefix (applied result) operations" by simp
  qed
  have 4: "\<forall>es i m. errors result = Some es \<and> (i, m) \<in> set es \<and> \<not> continueOnError (operations ! i)
            \<longrightarrow> i < length operations \<and> subseq (applied result) (take i operations)"
    using err res by (auto split: if_splits)
  from 1 2 3 4 show ?thesis by blast
qed

theorem applied_subsequence_witness:
  "fst (applyWorkbookOperations (demo_env (refuse_at 2) 0) ''tok'' ''wb1'' None
          [op_insert, op_format, op_insert] None (demo_world 0))
     = Inr \<lparr>applied = [op_insert], errors = Some [(1, ''Bad Request'')], sessionId = ''S1''\<rparr> \<and>
   \<not> continueOnError ([op_insert, op_format, op_insert] ! 1) \<and>
   subseq [op_insert] [op_insert, op_format, op_insert] \<and>
   prefix [op_insert] [op_insert, op_format, op_insert] \<and>
   subseq [op_insert] (take 1 [op_insert, op_format, op_insert])"
proof -
  let ?ops = "[op_insert, op_format, op_insert]"
  let ?R = "\<lparr>applied = [op_insert], errors = Some [(1, ''Bad Request'')], sessionId = ''S1''\<rparr>"
  have h: "fst (applyWorkbookOperations (demo_env (refuse_at 2) 0) ''tok'' ''wb1'' None ?ops None (demo_world 0))
      = Inr ?R"
    by (simp add: workbook_eval retry_eval)
  have nc: "\<not> continueOnError (?ops ! 1)"
    by (simp add: continueOnError_def op_format_def option_of_def)
  note t = applied_subsequence[OF h]
  from t have a: "subseq [op_insert] ?ops" by simp
  from t nc have b: "prefix [op_insert] ?ops" by simp
  have "errors ?R = Some [(1, ''Bad Request'')] \<and> (1, ''Bad Request'') \<in> set [(1::nat, ''Bad Request'')]
      \<and> \<not> continueOnError (?ops ! 1)"
    using nc by simp
  with t[THEN conjunct2, THEN conjunct2, THEN conjunct2, rule_format, of "[(1, ''Bad Request'')]" 1 "''Bad Request''"]
  have c: "subseq [op_insert] (take 1 ?ops)" by simp
  show ?thesis by (intro conjI h nc a b c)
qed

section \<open>Breakers, sessions and unknown operation types\<close>

text \<open>
  A run of the retry loop over one request touches neither the store nor the breakers,
  and every request it sends is that request, under the breaker of the caller.
\<close>

lemma graphRetry_from_frame:
  "graphRetry_from env (graph_call env client rq) N base attempt lastError w = (res, w') \<Longrightarrow>
     guard w' = guard w \<and> breakers w' = breakers w \<and> store w' = store w \<and>
     (\<exists>evs. trace w' = trace w @ evs \<and> list_all (under (guard w)) evs \<and>
        list_all (\<lambda>ev. request_of ev \<in> {None, Some rq}) evs \<and>
        length (filter is_call evs) \<le> N - attempt \<and>
        (attempt < N \<longrightarrow> (\<exists>r evs'. evs = GraphCall (guard w) rq r # evs')))"
proof (induction "N - attempt" arbitrary: attempt lastError w)
  case 0
  then have "\<not> attempt < N" by simp
  with "0.prems" have "w' = w"
    by (auto simp: graphRetry_from.simps[of env "graph_call env client rq" N base attempt lastError w]
        split: option.splits)
  then show ?case using \<open>\<not> attempt < N\<close> by simp
next
  case (Suc n)
  then have lt: "attempt < N" by simp
  note unfold = graphRetry_from.simps[of env "graph_call env client rq" N base attempt lastError w]
  obtain r w1 where fw: "graph_call env client rq w = (r, w1)" by force
  then have w1: "trace w1 = trace w @ [GraphCall (guard w) rq r]" "guard w1 = guard w"
    "breakers w1 = breakers w" "store w1 = store w"
    by (auto simp: graph_call_def split: prod.splits)
  show ?case
  proof (cases "\<exists>e. r = Inl e \<and> \<not> no_retry e")
    case False
    with lt fw Suc.prems have "w' = w1"
      by (cases r) (auto simp: unfold)
    with w1 lt show ?thesis by simp
  next
    case True
    then obtain e where e: "r = Inl e" "\<not> no_retry e" by blast
    obtain j x where mr: "math_random env (ext w1) = (j, x)" by force
    define w2 where
      "w2 = sleep env (map_option (\<lambda>d. d + j * 1000) (retry_delay e base attempt)) (w1\<lparr>ext := x\<rparr>)"
    have rec: "graphRetry_from env (graph_call env client rq) N base (Suc attempt) (Some e) w2 = (res, w')"
      using lt fw Suc.prems e mr by (simp add: unfold w2_def)
    have w2: "trace w2 = trace w @ [GraphCall (guard w) rq r,
          Slept (map_option (\<lambda>d. d + j * 1000) (retry_delay e base attempt))]"
      "guard w2 = guard w" "breakers w2 = breakers w" "store w2 = store w"
      using w1 by (simp_all add: w2_def sleep_def)
    have "n = N - Suc attempt" using Suc.hyps(2) by simp
    from Suc.hyps(1)[OF this rec] w2 lt show ?thesis by auto
  qed
qed

lemma applyOperation_frame:
  assumes rq: "operation_request itemId driveId sid operation = Some rq"
    and run: "applyOperation env client itemId driveId sid operation w = (r, w')"
  shows "guard w' = guard w \<and> breakers w' = breakers w \<and> store w' = store w \<and>
     (\<exists>res evs. trace w' = trace w @ GraphCall (guard w) rq res # evs \<and> list_all (under (guard w)) evs)"
proof -
  obtain r0 w0 where g: "graphRetry_from env (graph_call env client rq) 3 1000 0 None w = (r0, w0)" by force
  with rq run have "w' = w0"
    by (auto simp: applyOperation_def graphRetry_default_def graphRetry_def split: sum.splits)
  with graphRetry_from_frame[OF g] show ?thesis by auto
qed

lemma created_frame:
  assumes "protectedGraphCall env name (graphRetry_default env (graph_call env client rq)) w = (r, w')"
  shows "guard w' = guard w \<and> store w' = store w \<and>
     (\<exists>evs. trace w' = trace w @ evs \<and> list_all (under (Some name)) evs \<and>
        list_all (\<lambda>ev. request_of ev \<in> {None, Some rq}) evs \<and> length (filter is_call evs) \<le> 3)"
proof (cases "breaker_open env name (ext (getCircuitBreaker name w))")
  case True
  with assms have "w' = getCircuitBreaker name w" by (simp add: protectedGraphCall_def Let_def)
  then show ?thesis by (simp add: getCircuitBreaker_def)
next
  case False
  let ?w0 = "getCircuitBreaker name w"
  obtain r0 w1 where
    g: "graphRetry_from env (graph_call env client rq) 3 1000 0 None (?w0\<lparr>guard := Some name\<rparr>) = (r0, w1)"
    by force
  with assms False obtain ok where w': "w' = w1\<lparr>guard := guard ?w0, ext := breaker_done env name ok (ext w1)\<rparr>"
    by (auto simp: protectedGraphCall_def Let_def graphRetry_default_def graphRetry_def split: if_splits)
  from graphRetry_from_frame[OF g] w' show ?thesis by (auto simp: getCircuitBreaker_def)
qed

text \<open>
  C2. The claim holds of the session cache's creation path and fails of the operation
  executor. For each of the six operation types, \<^verbatim>\<open>applyOperation\<close>, called as
  \<^verbatim>\<open>applyWorkbookOperations\<close> calls it (under no breaker), sends its request to Graph
  under no breaker, creates no breaker, and every further attempt of the retry loop runs
  under none either.
\<close>

theorem applyOperation_under_no_breaker:
  assumes "operation_request itemId driveId sid operation = Some rq" and "guard w = None"
  shows "\<exists>res evs.
           trace (snd (applyOperation env client itemId driveId sid operation w))
             = trace w @ GraphCall None rq res # evs \<and>
           list_all (under None) evs \<and>
           breakers (snd (applyOperation env client itemId driveId sid operation w)) = breakers w"
  using applyOperation_frame[OF assms(1), of env client w
      "fst (applyOperation env client itemId driveId sid operation w)"
      "snd (applyOperation env client itemId driveId sid operation w)"] assms(2)
  by auto

text \<open>
  The batch \<^verbatim>\<open>[insert A1:B2]\<close> on a fresh world: the session is created under the breaker
  \<^verbatim>\<open>createSession\<close>, the insert is sent under none.
\<close>

theorem applyOperation_under_no_breaker_witness:
  "operation_request ''wb1'' None ''S1'' op_insert = Some insert_request \<and>
   guard (demo_world 0) = None \<and>
   (\<exists>res evs.
      trace (snd (applyOperation (demo_env (\<lambda>n. Inr (session_made ''S1'')) 0) ''tok'' ''wb1'' None ''S1''
                    op_insert (demo_world 0)))
        = trace (demo_world 0) @ GraphCall None insert_request res # evs \<and>
      list_all (under None) evs \<and>
      breakers (snd (applyOperation (demo_env (\<lambda>n. Inr (session_made ''S1'')) 0) ''tok'' ''wb1'' None ''S1''
                    op_insert (demo_world 0))) = breakers (demo_world 0)) \<and>
   trace (snd (applyWorkbookOperations (demo_env (\<lambda>n. Inr (session_made ''S1'')) 0) ''tok'' ''wb1'' None
                 [op_insert] None (demo_world 0)))
     = [GraphCall (Some ''createSession'') (createSession_request None ''wb1'') (Inr (session_made ''S1'')),
        GraphCall None insert_request (Inr (session_made ''S1''))]"
proof -
  have h1: "operation_request ''wb1'' None ''S1'' op_insert = Some insert_request"
    by (simp add: operation_request_def worksheet_def workbookPath_def option_of_def op_insert_def
        insert_request_def truthy_str_def Let_def)
  have h2: "guard (demo_world 0) = None" by (simp add: demo_world_def)
  note c = applyOperation_under_no_breaker[OF h1 h2,
      of "demo_env (\<lambda>n. Inr (session_made ''S1'')) 0" "''tok''"]
  have t: "trace (snd (applyWorkbookOperations (demo_env (\<lambda>n. Inr (session_made ''S1'')) 0) ''tok'' ''wb1'' None
                 [op_insert] None (demo_world 0)))
     = [GraphCall (Some ''createSession'') (createSession_request None ''wb1'') (Inr (session_made ''S1'')),
        GraphCall None insert_request (Inr (session_made ''S1''))]"
    by (simp add: workbook_eval retry_eval insert_request_def)
  show ?thesis by (intro conjI h1 h2 c t)
qed

text \<open>
  C4. A batch that contains an operation whose type is none of the six is refused by the
  schema before anything else runs: the handler answers 500 with the message of the
  validation error and leaves the world as it was, so no operation of the batch is
  attempted whatever its \<^verbatim>\<open>continueOnError\<close>, no per-operation error is recorded, no
  rate-limit slot, session or retry is used. \<^verbatim>\<open>applyOperation\<close> itself sends nothing and
  retries nothing for such an operation: it throws at once.
\<close>

theorem unknown_tag_fails_batch:
  assumes "operation \<in> set (body_operations body)" and "type operation \<notin> set operation_types"
  shows "apply_route env body user authorization w = (InternalError (Some (zod_message env body)), w) \<and>
         applyOperation env client itemId driveId sid operation w1
           = (Inl (Error (''Unknown operation type: '' @ type operation)), w1)"
proof -
  from assms have "\<not> schema_ok body"
    by (auto simp: schema_ok_def list_all_iff)
  then have 1: "apply_route env body user authorization w = (InternalError (Some (zod_message env body)), w)"
    by (simp add: apply_route_def apply_try_def error_reply_def Error_def)
  from assms(2) have "operation_request itemId driveId sid operation = None"
    by (simp add: operation_request_def operation_types_def Let_def)
  then have 2: "applyOperation env client itemId driveId sid operation w1
           = (Inl (Error (''Unknown operation type: '' @ type operation)), w1)"
    by (simp add: applyOperation_def)
  from 1 2 show ?thesis by simp
qed

theorem unknown_tag_fails_batch_witness:
  "op_bogus \<in> set (body_operations \<lparr>body_itemId = ''wb1'', body_driveId = None,
        body_operations = [op_insert, op_bogus, op_format], body_idempotencyKey = Some ''k1''\<rparr>) \<and>
   type op_bogus \<notin> set operation_types \<and>
   apply_route (demo_env (\<lambda>n. Inr (session_made ''S1'')) 0)
      \<lparr>body_itemId = ''wb1'', body_driveId = None,
        body_operations = [op_insert, op_bogus, op_format], body_idempotencyKey = Some ''k1''\<rparr>
      (Pending ''abc'') ''Bearer abc'' (demo_world 0)
     = (InternalError (Some (zod_message (demo_env (\<lambda>n. Inr (session_made ''S1'')) 0)
          \<lparr>body_itemId = ''wb1'', body_driveId = None,
            body_operations = [op_insert, op_bogus, op_format], body_idempotencyKey = Some ''k1''\<rparr>)),
        demo_world 0) \<and>
   applyOperation (demo_env (\<lambda>n. Inr (session_made ''S1'')) 0) ''tok'' ''wb1'' None ''S1'' op_bogus (demo_world 0)
     = (Inl (Error (''Unknown operation type: '' @ type op_bogus)), demo_world 0)"
proof -
  let ?body = "\<lparr>body_itemId = ''wb1'', body_driveId = None,
        body_operations = [op_insert, op_bogus, op_format], body_idempotencyKey = Some ''k1''\<rparr>"
  have h1: "op_bogus \<in> set (body_operations ?body)" by simp
  have h2: "type op_bogus \<notin> set operation_types" by (simp add: op_bogus_def operation_types_def)
  note t = unknown_tag_fails_batch[OF h1 h2, of "demo_env (\<lambda>n. Inr (session_made ''S1'')) 0"
      "Pending ''abc''" "''Bearer abc''" "demo_world 0" "''tok''" "''wb1''" None "''S1''" "demo_world 0"]
  show ?thesis by (intro conjI h1 h2 t[THEN conjunct1] t[THEN conjunct2])
qed

lemma colon_split:
  "CHR '':'' \<notin> set a \<Longrightarrow> CHR '':'' \<notin> set b \<Longrightarrow> a @ CHR '':'' # x = b @ CHR '':'' # y \<Longrightarrow>
   a = b \<and> x = y"
proof (induction a arbitrary: b)
  case Nil
  then show ?case by (cases b) auto
next
  case (Cons c a)
  then show ?case by (cases b) auto
qed

lemma sessionKey_plain:
  assumes "plain_drive driveId" and "plain_drive driveId'"
    and "sessionKey driveId itemId = sessionKey driveId' itemId'"
  shows "same_handle driveId itemId driveId' itemId'"
proof -
  let ?D = "if truthy_str driveId then the driveId else ''default''"
  let ?D' = "if truthy_str driveId' then the driveId' else ''default''"
  have c: "CHR '':'' \<notin> set ?D" "CHR '':'' \<notin> set ?D'"
    using assms(1,2) by (auto simp: plain_drive_def)
  have "?D @ CHR '':'' # itemId = ?D' @ CHR '':'' # itemId'"
    using assms(3) by (simp add: sessionKey_def)
  from colon_split[OF c this] have "?D = ?D'" "itemId = itemId'" by simp_all
  then show ?thesis
    using assms(1,2) by (auto simp: same_handle_def plain_drive_def split: if_splits)
qed

lemmas session_eval =
  create_remote_def protectedGraphCall_def getCircuitBreaker_def createSession_request_def breaker_timeout_def
  sessionKey_def redis_get_def live_def clock_def workbookPath_def Let_def cached_world_def

text \<open>
  C8, as stated, fails. The slot of the cache is named by the key
  \<^verbatim>\<open>`workbookSession:${driveId || 'default'}:${itemId}`\<close>, which two handles can share:
  after a session is acquired for item \<^verbatim>\<open>wb1\<close> of the drive \<^verbatim>\<open>default\<close>, acquiring a
  session for item \<^verbatim>\<open>wb1\<close> with no drive id, a document with another path, returns that
  session and sends nothing, though no session was cached for that handle: the one
  request ever sent is the creation for the other document. And a cached value that is
  the empty string is not returned: a session is created remotely.
\<close>

theorem session_slot_counterexample:
  "workbookPath (Some ''default'') ''wb1'' \<noteq> workbookPath None ''wb1'' \<and>
   fst (getWorkbookSession (demo_env (\<lambda>n. Inr (session_made ''S1'')) 0) ''tok'' ''wb1'' None
          (snd (getWorkbookSession (demo_env (\<lambda>n. Inr (session_made ''S1'')) 0) ''tok'' ''wb1''
                  (Some ''default'') (demo_world 1000))))
     = Inr ''S1'' \<and>
   trace (snd (getWorkbookSession (demo_env (\<lambda>n. Inr (session_made ''S1'')) 0) ''tok'' ''wb1'' None
          (snd (getWorkbookSession (demo_env (\<lambda>n. Inr (session_made ''S1'')) 0) ''tok'' ''wb1''
                  (Some ''default'') (demo_world 1000)))))
     = [GraphCall (Some ''createSession'') (createSession_request (Some ''default'') ''wb1'')
          (Inr (session_made ''S1''))] \<and>
   fst (getWorkbookSession (demo_env (\<lambda>n. Inr (session_made ''S1'')) 0) ''tok'' ''wb1'' None
          (snd (cacheSession (demo_env (\<lambda>n. Inr (session_made ''S1'')) 0) None ''wb1'' [] 300
                  (demo_world 1000)))) = Inr ''S1'' \<and>
   trace (snd (getWorkbookSession (demo_env (\<lambda>n. Inr (session_made ''S1'')) 0) ''tok'' ''wb1'' None
          (snd (cacheSession (demo_env (\<lambda>n. Inr (session_made ''S1'')) 0) None ''wb1'' [] 300
                  (demo_world 1000)))))
     = [GraphCall (Some ''createSession'') (createSession_request None ''wb1'') (Inr (session_made ''S1''))]"
proof -
  let ?E = "demo_env (\<lambda>n. Inr (session_made ''S1'')) 0"
  note ev = getWorkbookSession_def getCachedSession_def cacheSession_def redis_setex_def
        redis_expire_def session_eval retry_eval truthy_str_def
  have 1: "workbookPath (Some ''default'') ''wb1'' \<noteq> workbookPath None ''wb1''"
    by (simp add: workbookPath_def truthy_str_def)
  have 2: "fst (getWorkbookSession ?E ''tok'' ''wb1'' None
          (snd (getWorkbookSession ?E ''tok'' ''wb1'' (Some ''default'') (demo_world 1000)))) = Inr ''S1''"
    by (simp add: ev)
  have 3: "trace (snd (getWorkbookSession ?E ''tok'' ''wb1'' None
          (snd (getWorkbookSession ?E ''tok'' ''wb1'' (Some ''default'') (demo_world 1000)))))
     = [GraphCall (Some ''createSession'') (createSession_request (Some ''default'') ''wb1'')
          (Inr (session_made ''S1''))]"
    by (simp add: ev)
  have 4: "fst (getWorkbookSession ?E ''tok'' ''wb1'' None
          (snd (cacheSession ?E None ''wb1'' [] 300 (demo_world 1000)))) = Inr ''S1''"
    by (simp add: ev)
  have 5: "trace (snd (getWorkbookSession ?E ''tok'' ''wb1'' None
          (snd (cacheSession ?E None ''wb1'' [] 300 (demo_world 1000)))))
     = [GraphCall (Some ''createSession'') (createSession_request None ''wb1'') (Inr (session_made ''S1''))]"
    by (simp add: ev)
  show ?thesis by (intro conjI 1 2 3 4 5)
qed

text \<open>
  C8, amended. Acquiring a session for a handle reads and writes one slot of the cache,
  the key \<^verbatim>\<open>`workbookSession:${driveId || 'default'}:${itemId}`\<close>; among handles whose drive
  id is absent, or has no colon and is not the word \<^verbatim>\<open>default\<close>, handles with one key
  are handles of one document. If the slot holds a session that has not expired and is
  not the empty string, it is returned, its time to live is set to 300 seconds from now,
  and nothing else changes: no request is sent. Otherwise the session is created
  remotely, by \<^verbatim>\<open>createSession\<close> requests that ask for \<^verbatim>\<open>persistChanges: true\<close>,
  retried, under the breaker \<^verbatim>\<open>createSession\<close>: when that succeeds the session's id is
  returned and cached in the slot with a time to live of 300 seconds; when it fails
  (the retries are used up, the error is one that is not retried, or the breaker
  rejects) the error is returned to the caller and the store is left as it was.
\<close>

theorem getWorkbookSession_contract:
  "(redis_get (clock env w) (sessions (store w)) (sessionKey driveId itemId) = Some s \<and> s \<noteq> [] \<longrightarrow>
      getWorkbookSession env client itemId driveId w =
        (Inr s, w\<lparr>store := (store w)\<lparr>sessions :=
            (sessions (store w))(sessionKey driveId itemId \<mapsto> (s, clock env w + 300 * 1000))\<rparr>\<rparr>)) \<and>
   (redis_get (clock env w) (sessions (store w)) (sessionKey driveId itemId) \<in> {None, Some []} \<longrightarrow>
      (\<forall>err w2. create_remote env client itemId driveId w = (Inl err, w2) \<longrightarrow>
          getWorkbookSession env client itemId driveId w = (Inl err, w2) \<and> store w2 = store w) \<and>
      (\<forall>response w2. create_remote env client itemId driveId w = (Inr response, w2) \<longrightarrow>
          getWorkbookSession env client itemId driveId w =
            (Inr (response_id response),
             w2\<lparr>store := (store w)\<lparr>sessions :=
                (sessions (store w))(sessionKey driveId itemId \<mapsto>
                   (response_id response, clock env w2 + 300 * 1000))\<rparr>\<rparr>)) \<and>
      (\<exists>evs. trace (snd (create_remote env client itemId driveId w)) = trace w @ evs \<and>
          list_all (under (Some ''createSession'')) evs \<and>
          list_all (\<lambda>ev. request_of ev \<in> {None, Some (createSession_request driveId itemId)}) evs \<and>
          length (filter is_call evs) \<le> 3)) \<and>
   payload (createSession_request driveId itemId) = JObj [(''persistChanges'', JBool True)] \<and>
   basePath (createSession_request driveId itemId) = workbookPath driveId itemId \<and>
   (plain_drive driveId \<and> plain_drive driveId' \<and> sessionKey driveId itemId = sessionKey driveId' itemId' \<longrightarrow>
      same_handle driveId itemId driveId' itemId') \<and>
   (same_handle driveId itemId driveId' itemId' \<longrightarrow>
      sessionKey driveId itemId = sessionKey driveId' itemId' \<and>
      workbookPath driveId itemId = workbookPath driveId' itemId')"
proof (intro conjI impI allI)
  assume "redis_get (clock env w) (sessions (store w)) (sessionKey driveId itemId) = Some s \<and> s \<noteq> []"
  then show "getWorkbookSession env client itemId driveId w =
        (Inr s, w\<lparr>store := (store w)\<lparr>sessions :=
            (sessions (store w))(sessionKey driveId itemId \<mapsto> (s, clock env w + 300 * 1000))\<rparr>\<rparr>)"
    by (simp add: getWorkbookSession_def getCachedSession_def Let_def truthy_str_def redis_expire_def)
next
  fix err w2
  assume miss: "redis_get (clock env w) (sessions (store w)) (sessionKey driveId itemId) \<in> {None, Some []}"
    and c: "create_remote env client itemId driveId w = (Inl err, w2)"
  from miss have m: "\<not> truthy_str (redis_get (clock env w) (sessions (store w)) (sessionKey driveId itemId))"
    by (auto simp: truthy_str_def)
  with c show "getWorkbookSession env client itemId driveId w = (Inl err, w2)"
    by (simp add: getWorkbookSession_def getCachedSession_def Let_def create_remote_def)
  from created_frame[OF c[unfolded create_remote_def]] show "store w2 = store w" by simp
next
  fix response w2
  assume miss: "redis_get (clock env w) (sessions (store w)) (sessionKey driveId itemId) \<in> {None, Some []}"
    and c: "create_remote env client itemId driveId w = (Inr response, w2)"
  from miss have m: "\<not> truthy_str (redis_get (clock env w) (sessions (store w)) (sessionKey driveId itemId))"
    by (auto simp: truthy_str_def)
  from created_frame[OF c[unfolded create_remote_def]] have st: "store w2 = store w" by simp
  with m c show "getWorkbookSession env client itemId driveId w =
            (Inr (response_id response),
             w2\<lparr>store := (store w)\<lparr>sessions :=
                (sessions (store w))(sessionKey driveId itemId \<mapsto>
                   (response_id response, clock env w2 + 300 * 1000))\<rparr>\<rparr>)"
    by (simp add: getWorkbookSession_def getCachedSession_def Let_def create_remote_def cacheSession_def
        redis_setex_def)
next
  assume miss: "redis_get (clock env w) (sessions (store w)) (sessionKey driveId itemId) \<in> {None, Some []}"
  obtain r w2 where c: "create_remote env client itemId driveId w = (r, w2)" by force
  from created_frame[OF c[unfolded create_remote_def]] c
  show "\<exists>evs. trace (snd (create_remote env client itemId driveId w)) = trace w @ evs \<and>
          list_all (under (Some ''createSession'')) evs \<and>
          list_all (\<lambda>ev. request_of ev \<in> {None, Some (createSession_request driveId itemId)}) evs \<and>
          length (filter is_call evs) \<le> 3"
    by auto
next
  show "payload (createSession_request driveId itemId) = JObj [(''persistChanges'', JBool True)]"
    by (simp add: createSession_request_def)
next
  show "basePath (createSession_request driveId itemId) = workbookPath driveId itemId"
    by (simp add: createSession_request_def)
next
  assume "plain_drive driveId \<and> plain_drive driveId' \<and> sessionKey driveId itemId = sessionKey driveId' itemId'"
  then show "same_handle driveId itemId driveId' itemId'"
    by (auto intro: sessionKey_plain)
next
  assume h: "same_handle driveId itemId driveId' itemId'"
  then show "sessionKey driveId itemId = sessionKey driveId' itemId'"
    by (auto simp: same_handle_def sessionKey_def split: if_splits)
  from h show "workbookPath driveId itemId = workbookPath driveId' itemId'"
    by (auto simp: same_handle_def workbookPath_def split: if_splits)
qed

text \<open>
  A session in the cache is returned and kept alive; with none, a session is created and
  cached; a creation refused with a 400 is not retried, one answered 503 three times has
  used up its retries, and one that takes 30.5 seconds is timed out by the breaker
  though Graph made the session: in each case the error reaches the caller and nothing
  is cached. A drive id that is absent and one that is empty are one handle.
\<close>

theorem getWorkbookSession_contract_witness:
  "redis_get (clock (demo_env (\<lambda>n. Inr (session_made ''S1'')) 0) cached_world)
      (sessions (store cached_world)) (sessionKey None ''wb1'') = Some ''S0'' \<and> ''S0'' \<noteq> [] \<and>
   getWorkbookSession (demo_env (\<lambda>n. Inr (session_made ''S1'')) 0) ''tok'' ''wb1'' None cached_world
     = (Inr ''S0'', cached_world\<lparr>store := (store cached_world)\<lparr>sessions :=
          (sessions (store cached_world))(sessionKey None ''wb1'' \<mapsto> (''S0'', 1000 + 300 * 1000))\<rparr>\<rparr>) \<and>
   redis_get (clock (demo_env (\<lambda>n. Inr (session_made ''S1'')) 0) (demo_world 0))
      (sessions (store (demo_world 0))) (sessionKey None ''wb1'') \<in> {None, Some []} \<and>
   create_remote (demo_env (\<lambda>n. Inr (session_made ''S1'')) 0) ''tok'' ''wb1'' None (demo_world 0)
     = (Inr (session_made ''S1''),
        (demo_world 0)\<lparr>ext := (1, 0), breakers := [''createSession''],
           trace := [GraphCall (Some ''createSession'') (createSession_request None ''wb1'')
                       (Inr (session_made ''S1''))]\<rparr>) \<and>
   getWorkbookSession (demo_env (\<lambda>n. Inr (session_made ''S1'')) 0) ''tok'' ''wb1'' None (demo_world 0)
     = (Inr ''S1'',
        (demo_world 0)\<lparr>ext := (1, 0), breakers := [''createSession''],
           trace := [GraphCall (Some ''createSession'') (createSession_request None ''wb1'')
                       (Inr (session_made ''S1''))],
           store := (store (demo_world 0))\<lparr>sessions :=
              (sessions (store (demo_world 0)))(sessionKey None ''wb1'' \<mapsto> (''S1'', 0 + 300 * 1000))\<rparr>\<rparr>) \<and>
   create_remote (demo_env (\<lambda>n. Inl bad_request) 0) ''tok'' ''wb1'' None (demo_world 0)
     = (Inl bad_request,
        (demo_world 0)\<lparr>ext := (1, 0), breakers := [''createSession''],
           trace := [GraphCall (Some ''createSession'') (createSession_request None ''wb1'')
                       (Inl bad_request)]\<rparr>) \<and>
   getWorkbookSession (demo_env (\<lambda>n. Inl bad_request) 0) ''tok'' ''wb1'' None (demo_world 0)
     = (Inl bad_request,
        (demo_world 0)\<lparr>ext := (1, 0), breakers := [''createSession''],
           trace := [GraphCall (Some ''createSession'') (createSession_request None ''wb1'')
                       (Inl bad_request)]\<rparr>) \<and>
   create_remote (demo_env (\<lambda>n. Inl unavailable) (1/2)) ''tok'' ''wb1'' None (demo_world 0)
     = (Inl unavailable,
        (demo_world 0)\<lparr>ext := (3, 8500), breakers := [''createSession''],
           trace := [GraphCall (Some ''createSession'') (createSession_request None ''wb1'') (Inl unavailable),
                     Slept (Some 1500),
                     GraphCall (Some ''createSession'') (createSession_request None ''wb1'') (Inl unavailable),
                     Slept (Some 2500),
                     GraphCall (Some ''createSession'') (createSession_request None ''wb1'') (Inl unavailable),
                     Slept (Some 4500)]\<rparr>) \<and>
   getWorkbookSession (demo_env (\<lambda>n. Inl unavailable) (1/2)) ''tok'' ''wb1'' None (demo_world 0)
     = (Inl unavailable,
        (demo_world 0)\<lparr>ext := (3, 8500), breakers := [''createSession''],
           trace := [GraphCall (Some ''createSession'') (createSession_request None ''wb1'') (Inl unavailable),
                     Slept (Some 1500),
                     GraphCall (Some ''createSession'') (createSession_request None ''wb1'') (Inl unavailable),
                     Slept (Some 2500),
                     GraphCall (Some ''createSession'') (createSession_request None ''wb1'') (Inl unavailable),
                     Slept (Some 4500)]\<rparr>) \<and>
   create_remote (demo_env slow_then_made (1/2)) ''tok'' ''wb1'' None (demo_world 0)
     = (Inl (Error ''Timed out after 30000ms''),
        (demo_world 0)\<lparr>ext := (2, 30500), breakers := [''createSession''],
           trace := [GraphCall (Some ''createSession'') (createSession_request None ''wb1'')
                       (Inl (throttled ''30'')),
                     Slept (Some 30500),
                     GraphCall (Some ''createSession'') (createSession_request None ''wb1'')
                       (Inr (session_made ''S1''))]\<rparr>) \<and>
   getWorkbookSession (demo_env slow_then_made (1/2)) ''tok'' ''wb1'' None (demo_world 0)
     = (Inl (Error ''Timed out after 30000ms''),
        (demo_world 0)\<lparr>ext := (2, 30500), breakers := [''createSession''],
           trace := [GraphCall (Some ''createSession'') (createSession_request None ''wb1'')
                       (Inl (throttled ''30'')),
                     Slept (Some 30500),
                     GraphCall (Some ''createSession'') (createSession_request None ''wb1'')
                       (Inr (session_made ''S1''))]\<rparr>) \<and>
   plain_drive None \<and> plain_drive (Some []) \<and> sessionKey None ''wb1'' = sessionKey (Some []) ''wb1'' \<and>
   same_handle None ''wb1'' (Some []) ''wb1'' \<and>
   workbookPath None ''wb1'' = workbookPath (Some []) ''wb1''"
proof -
  let ?E = "demo_env (\<lambda>n. Inr (session_made ''S1'')) 0"
  let ?F = "demo_env (\<lambda>n. Inl bad_request) 0"
  let ?G = "demo_env (\<lambda>n. Inl unavailable) (1/2)"
  let ?H = "demo_env slow_then_made (1/2)"
  let ?rq = "createSession_request None ''wb1''"
  let ?W2 = "(demo_world 0)\<lparr>ext := (1, 0), breakers := [''createSession''],
           trace := [GraphCall (Some ''createSession'') ?rq (Inr (session_made ''S1''))]\<rparr>"
  let ?W3 = "(demo_world 0)\<lparr>ext := (1, 0), breakers := [''createSession''],
           trace := [GraphCall (Some ''createSession'') ?rq (Inl bad_request)]\<rparr>"
  let ?W4 = "(demo_world 0)\<lparr>ext := (3, 8500), breakers := [''createSession''],
           trace := [GraphCall (Some ''createSession'') ?rq (Inl unavailable), Slept (Some 1500),
                     GraphCall (Some ''createSession'') ?rq (Inl unavailable), Slept (Some 2500),
                     GraphCall (Some ''createSession'') ?rq (Inl unavailable), Slept (Some 4500)]\<rparr>"
  let ?W5 = "(demo_world 0)\<lparr>ext := (2, 30500), breakers := [''createSession''],
           trace := [GraphCall (Some ''createSession'') ?rq (Inl (throttled ''30'')), Slept (Some 30500),
                     GraphCall (Some ''createSession'') ?rq (Inr (session_made ''S1''))]\<rparr>"
  have hit: "redis_get (clock ?E cached_world) (sessions (store cached_world)) (sessionKey None ''wb1'') = Some ''S0''"
    by (simp add: session_eval demo_env_def truthy_str_def)
  have ne: "''S0'' \<noteq> []" by simp
  have ck: "clock ?E cached_world = 1000" by (simp add: clock_def demo_env_def cached_world_def)
  have miss: "redis_get (clock env' (demo_world 0)) (sessions (store (demo_world 0))) (sessionKey None ''wb1'')
      \<in> {None, Some []}" for env' :: "(nat \<times> int) env"
    by (simp add: redis_get_def demo_world_def empty_store_def)
  have c2: "create_remote ?E ''tok'' ''wb1'' None (demo_world 0) = (Inr (session_made ''S1''), ?W2)"
    by (simp add: session_eval retry_eval)
  have c3: "create_remote ?F ''tok'' ''wb1'' None (demo_world 0) = (Inl bad_request, ?W3)"
    by (simp add: session_eval retry_eval bad_request_def)
  have c4: "create_remote ?G ''tok'' ''wb1'' None (demo_world 0) = (Inl unavailable, ?W4)"
    by (simp add: session_eval retry_eval unavailable_def)
  have c5: "create_remote ?H ''tok'' ''wb1'' None (demo_world 0) = (Inl (Error ''Timed out after 30000ms''), ?W5)"
    by (simp add: session_eval retry_eval slow_then_made_def throttled_def parseInt_30)
  have ck2: "clock ?E ?W2 = 0" by (simp add: clock_def demo_env_def)
  note t = getWorkbookSession_contract
  have r1: "getWorkbookSession ?E ''tok'' ''wb1'' None cached_world
     = (Inr ''S0'', cached_world\<lparr>store := (store cached_world)\<lparr>sessions :=
          (sessions (store cached_world))(sessionKey None ''wb1'' \<mapsto> (''S0'', 1000 + 300 * 1000))\<rparr>\<rparr>)"
    using t[of ?E cached_world None "''wb1''" "''S0''" "''tok''", THEN conjunct1] hit ne ck by simp
  have r2: "getWorkbookSession ?E ''tok'' ''wb1'' None (demo_world 0)
     = (Inr ''S1'', ?W2\<lparr>store := (store (demo_world 0))\<lparr>sessions :=
              (sessions (store (demo_world 0)))(sessionKey None ''wb1'' \<mapsto> (''S1'', 0 + 300 * 1000))\<rparr>\<rparr>)"
    using t[of ?E "demo_world 0" None "''wb1''" "''S0''" "''tok''",
        THEN conjunct2, THEN conjunct1, rule_format, OF miss, THEN conjunct2, THEN conjunct1,
        rule_format, OF c2] ck2
    by (simp add: session_made_def)
  have r3: "getWorkbookSession ?F ''tok'' ''wb1'' None (demo_world 0) = (Inl bad_request, ?W3)"
    using t[of ?F "demo_world 0" None "''wb1''" "''S0''" "''tok''",
        THEN conjunct2, THEN conjunct1, rule_format, OF miss, THEN conjunct1, rule_format, OF c3]
    by simp
  have r4: "getWorkbookSession ?G ''tok'' ''wb1'' None (demo_world 0) = (Inl unavailable, ?W4)"
    using t[of ?G "demo_world 0" None "''wb1''" "''S0''" "''tok''",
        THEN conjunct2, THEN conjunct1, rule_format, OF miss, THEN conjunct1, rule_format, OF c4]
    by simp
  have r5: "getWorkbookSession ?H ''tok'' ''wb1'' None (demo_world 0)
     = (Inl (Error ''Timed out after 30000ms''), ?W5)"
    using t[of ?H "demo_world 0" None "''wb1''" "''S0''" "''tok''",
        THEN conjunct2, THEN conjunct1, rule_format, OF miss, THEN conjunct1, rule_format, OF c5]
    by simp
  have p1: "plain_drive None" and p2: "plain_drive (Some [])"
    by (simp_all add: plain_drive_def truthy_str_def)
  have k: "sessionKey None ''wb1'' = sessionKey (Some []) ''wb1''"
    by (simp add: sessionKey_def truthy_str_def)
  have pk: "plain_drive None \<and> plain_drive (Some []) \<and> sessionKey None ''wb1'' = sessionKey (Some []) ''wb1''"
    using p1 p2 k by simp
  note tail = t[of ?E "demo_world 0" None "''wb1''" "''S0''" "''tok''" "Some []" "''wb1''",
      THEN conjunct2, THEN conjunct2, THEN conjunct2, THEN conjunct2]
  note sh = tail[THEN conjunct1, rule_format, OF pk]
  note wp = tail[THEN conjunct2, rule_format, OF sh, THEN conjunct2]
  show ?thesis by (intro conjI hit ne r1 miss c2 r2 c3 r3 c4 r4 c5 r5 p1 p2 k sh wp)
qed

section \<open>The rate limiter\<close>

lemma zlive_prune:
  "zlive now (zremrangebyscore now m key lo hi) key =
     (case zlive now m key of
        None \<Rightarrow> None
      | Some z \<Rightarrow> (let ms = filter (\<lambda>(mem, score). \<not> (lo \<le> score \<and> score \<le> hi)) (members z)
                   in if ms = [] then None else Some (z\<lparr>members := ms\<rparr>)))"
  by (auto simp: zremrangebyscore_def zlive_def Let_def split: option.splits)

lemma prune_other: "k \<noteq> key \<Longrightarrow> zremrangebyscore now m key lo hi k = m k"
  by (auto simp: zremrangebyscore_def Let_def split: option.splits)

lemma window_after_prune:
  "user_window env userId (set_rate (zremrangebyscore (clock env w) (rate (store w)) (rate_key userId) 0
        (clock env w - windowSeconds * 1000)) w) = kept env userId windowSeconds w"
  by (auto simp: user_window_def kept_def set_rate_def clock_def zlive_prune Let_def split: option.splits)

lemma checkRateLimit_denied:
  assumes "int (length (kept env userId windowSeconds w)) \<ge> maxRequests"
  shows "checkRateLimit env userId maxRequests windowSeconds w =
     (\<lparr>allowed = False, remaining = 0,
       resetAt = (case lowest_score (kept env userId windowSeconds w) of
                    Some score \<Rightarrow> score + windowSeconds * 1000
                  | None \<Rightarrow> clock env w + windowSeconds * 1000)\<rparr>,
      set_rate (zremrangebyscore (clock env w) (rate (store w)) (rate_key userId) 0
        (clock env w - windowSeconds * 1000)) w)"
proof -
  let ?w1 = "set_rate (zremrangebyscore (clock env w) (rate (store w)) (rate_key userId) 0
        (clock env w - windowSeconds * 1000)) w"
  have ck: "clock env ?w1 = clock env w" by (simp add: clock_def set_rate_def)
  have uw: "user_window env userId ?w1 = kept env userId windowSeconds w" by (rule window_after_prune)
  have card: "zcard (clock env ?w1) (rate (store ?w1)) (rate_key userId) = int (length (kept env userId windowSeconds w))"
    using uw by (auto simp: zcard_def user_window_def split: option.splits)
  have low: "zrange_first_score (clock env ?w1) (rate (store ?w1)) (rate_key userId)
     = lowest_score (kept env userId windowSeconds w)"
    using uw by (auto simp: zrange_first_score_def user_window_def split: option.splits)
  show ?thesis
    using assms card low
    by (simp add: checkRateLimit_def Let_def clock_def[symmetric] del: clock_def)
qed

lemma zlive_upd: "zlive now (m(key \<mapsto> z)) key = (if is_live now z then Some z else None)"
  by (simp add: zlive_def is_live_def split: option.splits)

lemma zlive_Some: "zlive now m key = Some z \<Longrightarrow> is_live now z \<and> m key = Some z"
  by (auto simp: zlive_def is_live_def split: option.splits if_splits)

lemma zadd_eq:
  "zadd now m key score mem =
     m(key \<mapsto> (case zlive now m key of
                  None \<Rightarrow> \<lparr>members = [(mem, score)], expireAt = None\<rparr>
                | Some z \<Rightarrow> z\<lparr>members := record_now mem score (members z)\<rparr>))"
  by (auto simp: zadd_def record_now_def split: option.splits)

lemma zexpire_upd:
  "0 < seconds \<Longrightarrow> is_live now z \<Longrightarrow>
   zexpire now (m(key \<mapsto> z)) key seconds = m(key \<mapsto> z\<lparr>expireAt := Some (now + seconds * 1000)\<rparr>)"
  by (simp add: zexpire_def zlive_upd)

lemma is_live_members [simp]: "is_live now (z\<lparr>members := ms\<rparr>) = is_live now z"
  by (simp add: is_live_def)

lemma is_live_fresh [simp]: "is_live now \<lparr>members = ms, expireAt = None\<rparr>"
  by (simp add: is_live_def)

lemma zset_rebuild [simp]:
  "(z::zset)\<lparr>members := ms, expireAt := e\<rparr> = \<lparr>members = ms, expireAt = e\<rparr>"
  by (cases z) simp

lemma record_now_Nil [simp]: "record_now mem score [] = [(mem, score)]"
  by (simp add: record_now_def)

lemma checkRateLimit_admitted:
  assumes lt: "int (length (kept env userId windowSeconds w)) < maxRequests"
    and still: "date_now env (snd (math_random env (ext w))) = clock env w"
    and pos: "0 < windowSeconds"
  shows "checkRateLimit env userId maxRequests windowSeconds w =
     (\<lparr>allowed = True, remaining = maxRequests - int (length (kept env userId windowSeconds w)) - 1,
       resetAt = clock env w + windowSeconds * 1000\<rparr>,
      w\<lparr>ext := snd (math_random env (ext w)),
        store := (store w)\<lparr>rate := (rate (store w))(rate_key userId \<mapsto>
          \<lparr>members = record_now (clock env w, fst (math_random env (ext w))) (clock env w)
                        (kept env userId windowSeconds w),
           expireAt = Some (clock env w + windowSeconds * 1000)\<rparr>)\<rparr>\<rparr>)"
proof -
  let ?key = "rate_key userId"
  let ?now = "clock env w"
  let ?kept = "kept env userId windowSeconds w"
  let ?m1 = "zremrangebyscore ?now (rate (store w)) ?key 0 (?now - windowSeconds * 1000)"
  let ?w1 = "set_rate ?m1 w"
  obtain r x where mr: "math_random env (ext w) = (r, x)" by force
  have ck: "clock env ?w1 = ?now" "ext ?w1 = ext w" by (simp_all add: clock_def set_rate_def)
  have uw: "user_window env userId ?w1 = ?kept" by (rule window_after_prune)
  have card: "zcard (clock env ?w1) (rate (store ?w1)) ?key = int (length ?kept)"
    using uw by (auto simp: zcard_def user_window_def split: option.splits)
  have x: "date_now env x = ?now" using still mr by simp
  have upd: "?m1(?key \<mapsto> z) = (rate (store w))(?key \<mapsto> z)" for z
    by (rule ext) (simp add: prune_other)
  have fin: "zexpire ?now (zadd ?now ?m1 ?key ?now (?now, r)) ?key windowSeconds =
      (rate (store w))(?key \<mapsto> \<lparr>members = record_now (?now, r) ?now ?kept,
                     expireAt = Some (?now + windowSeconds * 1000)\<rparr>)"
  proof (cases "zlive ?now ?m1 ?key")
    case None
    then have k: "?kept = []" using uw by (simp add: user_window_def set_rate_def clock_def)
    show ?thesis using pos None by (simp add: zadd_eq zexpire_upd upd k)
  next
    case (Some z)
    then have k: "?kept = members z" using uw by (simp add: user_window_def set_rate_def clock_def)
    from zlive_Some[OF Some] have "is_live ?now z" by simp
    then show ?thesis using pos Some by (simp add: zadd_eq zexpire_upd upd k)
  qed
  show ?thesis
    using lt card mr x fin ck
    by (simp add: checkRateLimit_def Let_def clock_def set_rate_def)
qed

lemma kept_raw:
  assumes inv: "inv0 userId windowSeconds T w" and now: "T \<le> clock env w"
  shows "kept env userId windowSeconds w =
     filter (\<lambda>(mem, s). clock env w - windowSeconds * 1000 < s) (raw_window userId w)"
proof (cases "zlive (clock env w) (rate (store w)) (rate_key userId)")
  case (Some z)
  from zlive_Some[OF Some] have raw: "raw_window userId w = members z" by (simp add: raw_window_def)
  have "user_window env userId w = members z" using Some by (simp add: user_window_def)
  moreover have "\<forall>(mem, s) \<in> set (members z). 0 \<le> s" using inv raw by (auto simp: inv0_def)
  ultimately show ?thesis unfolding kept_def raw
    by (auto intro!: filter_cong)
next
  case None
  then have k: "kept env userId windowSeconds w = []" by (simp add: kept_def user_window_def)
  show ?thesis
  proof (cases "rate (store w) (rate_key userId)")
    case n: None
    then show ?thesis using k by (simp add: raw_window_def)
  next
    case (Some z)
    with inv obtain E where E: "expireAt z = Some E" "\<forall>(mem, s) \<in> set (members z). s + windowSeconds * 1000 \<le> E"
      by (auto simp: inv0_def)
    with None Some have "\<not> live (clock env w) E" by (auto simp: zlive_def split: if_splits)
    then have "E < clock env w" by (simp add: live_def)
    with E(2) have "\<forall>(mem, s) \<in> set (members z). \<not> clock env w - windowSeconds * 1000 < s" by fastforce
    then have "filter (\<lambda>(mem, s). clock env w - windowSeconds * 1000 < s) (members z) = []"
      by (auto simp: filter_empty_conv)
    with k Some show ?thesis by (simp add: raw_window_def)
  qed
qed

lemma raw_ext [simp]: "raw_window userId (w\<lparr>ext := x\<rparr>) = raw_window userId w"
  by (simp add: raw_window_def)

lemma inv0_ext [simp]: "inv0 userId windowSeconds T (w\<lparr>ext := x\<rparr>) = inv0 userId windowSeconds T w"
  by (simp add: inv0_def raw_window_def)

lemma denied_step:
  assumes inv: "inv0 userId windowSeconds T w" and now: "T \<le> clock env w"
    and den: "int (length (kept env userId windowSeconds w)) \<ge> maxRequests"
    and run: "checkRateLimit env userId maxRequests windowSeconds w = (res, w')"
  shows "\<not> allowed res \<and> inv0 userId windowSeconds (clock env w) w' \<and>
     set (raw_window userId w') \<subseteq> set (raw_window userId w) \<and>
     (\<forall>c \<ge> clock env w - windowSeconds * 1000.
        filter (\<lambda>(mem, s). c < s) (raw_window userId w') = filter (\<lambda>(mem, s). c < s) (raw_window userId w))"
proof -
  let ?key = "rate_key userId"
  let ?now = "clock env w"
  let ?ws = "?now - windowSeconds * 1000"
  from checkRateLimit_denied[OF den] run
  have res: "\<not> allowed res" and w': "w' = set_rate (zremrangebyscore ?now (rate (store w)) ?key 0 ?ws) w"
    by auto
  show ?thesis
  proof (cases "zlive ?now (rate (store w)) ?key")
    case None
    then have "w' = set_rate (rate (store w)) w" using w' by (simp add: zremrangebyscore_def)
    then have "raw_window userId w' = raw_window userId w" "rate (store w') = rate (store w)"
      by (simp_all add: raw_window_def set_rate_def)
    with inv now res show ?thesis by (fastforce simp: inv0_def)
  next
    case (Some z)
    from zlive_Some[OF Some] have z: "rate (store w) ?key = Some z" by simp
    then have raw: "raw_window userId w = members z" by (simp add: raw_window_def)
    have k: "kept env userId windowSeconds w = filter (\<lambda>(mem, s). ?ws < s) (members z)"
      using kept_raw[OF inv now] raw by simp
    have k': "kept env userId windowSeconds w = filter (\<lambda>(mem, score). \<not> (0 \<le> score \<and> score \<le> ?ws)) (members z)"
      using Some by (simp add: kept_def user_window_def)
    have r': "rate (store w') ?key =
        (if kept env userId windowSeconds w = [] then None
         else Some (z\<lparr>members := kept env userId windowSeconds w\<rparr>))"
      using Some w' by (simp add: zremrangebyscore_def set_rate_def k' Let_def)
    then have raw': "raw_window userId w' = kept env userId windowSeconds w"
      by (simp add: raw_window_def)
    have sub: "set (raw_window userId w') \<subseteq> set (raw_window userId w)"
      using raw' raw k by auto
    have flt: "\<forall>c \<ge> ?ws. filter (\<lambda>(mem, s). c < s) (raw_window userId w') = filter (\<lambda>(mem, s). c < s) (raw_window userId w)"
      unfolding raw' raw k by (auto intro!: filter_cong)
    from inv z obtain E where E: "expireAt z = Some E" "\<forall>(mem, s) \<in> set (members z). s + windowSeconds * 1000 \<le> E"
      by (auto simp: inv0_def)
    have "inv0 userId windowSeconds ?now w'"
      unfolding inv0_def
    proof (intro conjI allI impI)
      show "\<forall>(mem, s) \<in> set (raw_window userId w'). fst mem = s \<and> 0 \<le> s \<and> s \<le> ?now"
        using inv sub now by (fastforce simp: inv0_def)
    next
      fix z' assume "rate (store w') ?key = Some z'"
      with r' have z': "z' = z\<lparr>members := kept env userId windowSeconds w\<rparr>" by (auto split: if_splits)
      with E k show "\<exists>E. expireAt z' = Some E \<and> (\<forall>(mem, s) \<in> set (members z'). s + windowSeconds * 1000 \<le> E)"
        by auto
    qed
    with res sub flt show ?thesis by simp
  qed
qed

lemma admitted_step:
  assumes inv: "inv0 userId windowSeconds T w" and now: "T \<le> clock env w" and nn: "0 \<le> clock env w"
    and adm: "int (length (kept env userId windowSeconds w)) < maxRequests"
    and still: "date_now env (snd (math_random env (ext w))) = clock env w"
    and pos: "0 < windowSeconds"
    and run: "checkRateLimit env userId maxRequests windowSeconds w = (res, w')"
  shows "allowed res \<and> inv0 userId windowSeconds (clock env w) w' \<and>
     raw_window userId w' = record_now (clock env w, fst (math_random env (ext w))) (clock env w)
        (filter (\<lambda>(mem, s). clock env w - windowSeconds * 1000 < s) (raw_window userId w))"
proof -
  let ?now = "clock env w"
  let ?mem = "(?now, fst (math_random env (ext w)))"
  let ?k = "kept env userId windowSeconds w"
  from checkRateLimit_admitted[OF adm still pos] run
  have res: "allowed res" and
    r': "rate (store w') (rate_key userId) = Some \<lparr>members = record_now ?mem ?now ?k, expireAt = Some (?now + windowSeconds * 1000)\<rparr>"
    by auto
  have k: "?k = filter (\<lambda>(mem, s). ?now - windowSeconds * 1000 < s) (raw_window userId w)"
    by (rule kept_raw[OF inv now])
  have raw': "raw_window userId w' = record_now ?mem ?now ?k" using r' by (simp add: raw_window_def)
  have old: "\<forall>(mem, s) \<in> set ?k. fst mem = s \<and> 0 \<le> s \<and> s \<le> ?now"
    using inv now unfolding k by (fastforce simp: inv0_def)
  have new: "\<forall>(mem, s) \<in> set (record_now ?mem ?now ?k). fst mem = s \<and> 0 \<le> s \<and> s \<le> ?now"
    using old nn by (auto simp: record_now_def split: if_splits)
  have "inv0 userId windowSeconds ?now w'"
    unfolding inv0_def raw' using new r' pos by fastforce
  with res raw' k show ?thesis by simp
qed

lemma check_cases:
  obtains (denied) "int (length (kept env userId windowSeconds w)) \<ge> maxRequests"
  | (admitted) "int (length (kept env userId windowSeconds w)) < maxRequests"
  by fastforce

lemma length_filter_mono:
  "(\<And>x. x \<in> set xs \<Longrightarrow> P x \<Longrightarrow> Q x) \<Longrightarrow> length (filter P xs) \<le> length (filter Q xs)"
  by (induction xs) auto

lemma admissions_le_after: "admissions env a hi run \<le> admitted_after env a run"
  unfolding admissions_def admitted_after_def by (rule length_filter_mono) auto

lemma inv1_step:
  assumes inv: "inv1 env userId maxRequests windowSeconds past T w"
    and Tn: "T \<le> date_now env x" and nn: "0 \<le> date_now env x"
    and fresh: "member_of env x \<notin> member_of env ` fst ` set past"
    and still: "\<forall>x. date_now env (snd (math_random env x)) = date_now env x"
    and pos: "0 < windowSeconds"
    and run: "checkRateLimit env userId maxRequests windowSeconds (w\<lparr>ext := x\<rparr>) = (res, w')"
  shows "inv1 env userId maxRequests windowSeconds (past @ [(x, res)]) (date_now env x) w'"
proof -
  let ?w = "w\<lparr>ext := x\<rparr>"
  let ?n = "date_now env x"
  let ?ws = "?n - windowSeconds * 1000"
  let ?raw = "raw_window userId w"
  have ck: "clock env ?w = ?n" by (simp add: clock_def)
  from inv have inv0: "inv0 userId windowSeconds T ?w"
    and mem: "fst ` set ?raw \<subseteq> member_of env ` fst ` set past"
    and cnt: "\<And>c. T - windowSeconds * 1000 \<le> c \<Longrightarrow> length (filter (\<lambda>(mem, s). c < s) ?raw) = admitted_after env c past"
    and tms: "\<forall>(x, res) \<in> set past. date_now env x \<le> T"
    and bnd: "\<And>a. int (admissions env a (a + windowSeconds * 1000) past) \<le> maxRequests"
    by (auto simp: inv1_def)
  have st: "date_now env (snd (math_random env (ext ?w))) = clock env ?w" using still by (simp add: clock_def)
  have k: "kept env userId windowSeconds ?w = filter (\<lambda>(mem, s). ?ws < s) ?raw"
    using kept_raw[OF inv0, of env] Tn ck by simp
  have tms': "\<forall>(y, r) \<in> set (past @ [(x, res)]). date_now env y \<le> ?n"
    using tms Tn by fastforce
  show ?thesis
  proof (cases rule: check_cases[of maxRequests env userId windowSeconds ?w])
    case denied
    from denied_step[OF inv0 _ denied run] Tn ck
    have res: "\<not> allowed res" and i0: "inv0 userId windowSeconds ?n w'"
      and sub: "set (raw_window userId w') \<subseteq> set ?raw"
      and flt: "\<And>c. ?ws \<le> c \<Longrightarrow> filter (\<lambda>(mem, s). c < s) (raw_window userId w') = filter (\<lambda>(mem, s). c < s) ?raw"
      by auto
    have c: "fst ` set (raw_window userId w') \<subseteq> member_of env ` fst ` set (past @ [(x, res)])"
      using sub mem by auto
    have e: "length (filter (\<lambda>(mem, s). c < s) (raw_window userId w')) = admitted_after env c (past @ [(x, res)])"
      if "?ws \<le> c" for c
      using flt[OF that] cnt[of c] that Tn res by (simp add: admitted_after_def)
    have g: "int (admissions env a (a + windowSeconds * 1000) (past @ [(x, res)])) \<le> maxRequests" for a
      using bnd[of a] res by (simp add: admissions_def)
    show ?thesis unfolding inv1_def using i0 c e tms' g by blast
  next
    case admitted
    from admitted_step[OF inv0 _ _ admitted st pos run] Tn nn ck
    have res: "allowed res" and i0: "inv0 userId windowSeconds ?n w'"
      and raw': "raw_window userId w' = record_now (member_of env x) ?n (filter (\<lambda>(mem, s). ?ws < s) ?raw)"
      by (auto simp: member_of_def)
    have "member_of env x \<notin> fst ` set (filter (\<lambda>(mem, s). ?ws < s) ?raw)"
      using fresh mem by auto
    then have raw'': "raw_window userId w' = filter (\<lambda>(mem, s). ?ws < s) ?raw @ [(member_of env x, ?n)]"
      using raw' by (simp add: record_now_def)
    have c: "fst ` set (raw_window userId w') \<subseteq> member_of env ` fst ` set (past @ [(x, res)])"
      unfolding raw'' using mem by auto
    have ff: "filter (\<lambda>(mem, s). c < s) (filter (\<lambda>(mem, s). ?ws < s) ?raw) = filter (\<lambda>(mem, s). c < s) ?raw"
      if "?ws \<le> c" for c
      using that by (auto intro!: filter_cong)
    have e: "length (filter (\<lambda>(mem, s). c < s) (raw_window userId w')) = admitted_after env c (past @ [(x, res)])"
      if "?ws \<le> c" for c
      unfolding raw'' using ff[OF that] cnt[of c] that Tn res by (simp add: admitted_after_def)
    have g: "int (admissions env a (a + windowSeconds * 1000) (past @ [(x, res)])) \<le> maxRequests" for a
    proof (cases "a < ?n \<and> ?n \<le> a + windowSeconds * 1000")
      case False
      then show ?thesis using bnd[of a] by (auto simp: admissions_def)
    next
      case True
      then have a: "?ws \<le> a" by simp
      have "admissions env a (a + windowSeconds * 1000) past \<le> admitted_after env a past"
        by (rule admissions_le_after)
      also have "\<dots> = length (filter (\<lambda>(mem, s). a < s) ?raw)" using cnt[of a] a Tn by simp
      also have "\<dots> = length (filter (\<lambda>(mem, s). a < s) (filter (\<lambda>(mem, s). ?ws < s) ?raw))"
        using ff[OF a] by simp
      also have "\<dots> \<le> length (filter (\<lambda>(mem, s). ?ws < s) ?raw)" by (rule length_filter_le)
      finally have "int (admissions env a (a + windowSeconds * 1000) past) < maxRequests"
        using admitted k by simp
      then show ?thesis using res True by (simp add: admissions_def)
    qed
    show ?thesis unfolding inv1_def using i0 c e tms' g by blast
  qed
qed

lemma zcard_pruned:
  "zcard (clock env w) (zremrangebyscore (clock env w) (rate (store w)) (rate_key userId) 0
        (clock env w - windowSeconds * 1000)) (rate_key userId)
     = int (length (kept env userId windowSeconds w))"
  using window_after_prune[of env userId w windowSeconds]
  by (auto simp: zcard_def user_window_def set_rate_def clock_def split: option.splits)

lemma allowed_iff:
  assumes "checkRateLimit env userId maxRequests windowSeconds w = (res, w')"
  shows "allowed res \<longleftrightarrow> int (length (kept env userId windowSeconds w)) < maxRequests"
proof (cases rule: check_cases[of maxRequests env userId windowSeconds w])
  case denied
  from checkRateLimit_denied[OF denied] assms denied show ?thesis by auto
next
  case admitted
  have "allowed (fst (checkRateLimit env userId maxRequests windowSeconds w))"
    using admitted zcard_pruned[of env w userId windowSeconds]
    by (simp add: checkRateLimit_def Let_def set_rate_def clock_def split: prod.splits)
  with assms admitted show ?thesis by simp
qed

lemma checkRateLimit_other:
  assumes "checkRateLimit env u maxRequests windowSeconds v = (res, v')" and "u \<noteq> userId"
  shows "rate (store v') (rate_key userId) = rate (store v) (rate_key userId)"
proof -
  have k: "rate_key userId \<noteq> rate_key u" using assms(2) by (simp add: rate_key_def)
  have z1: "zremrangebyscore now m (rate_key u) lo hi (rate_key userId) = m (rate_key userId)" for now m lo hi
    using k by (simp add: prune_other)
  have z2: "zadd now m (rate_key u) sc mem (rate_key userId) = m (rate_key userId)" for now m sc mem
    using k by (simp add: zadd_eq)
  have z3: "zexpire now m (rate_key u) secs (rate_key userId) = m (rate_key userId)" for now m secs
    using k by (auto simp: zexpire_def split: option.splits)
  show ?thesis using assms(1)
    by (auto simp: checkRateLimit_def Let_def set_rate_def z1 z2 z3 split: if_splits prod.splits)
qed

lemma inv1_other:
  assumes inv: "inv1 env userId maxRequests windowSeconds past T w" and le: "T \<le> T'"
    and same: "rate (store w') (rate_key userId) = rate (store w) (rate_key userId)"
  shows "inv1 env userId maxRequests windowSeconds past T' w'"
proof -
  have raw: "raw_window userId w' = raw_window userId w" using same by (simp add: raw_window_def)
  from inv have i0: "inv0 userId windowSeconds T w"
    and mem: "fst ` set (raw_window userId w) \<subseteq> member_of env ` fst ` set past"
    and cnt: "\<And>c. T - windowSeconds * 1000 \<le> c \<Longrightarrow>
        length (filter (\<lambda>(mem, s). c < s) (raw_window userId w)) = admitted_after env c past"
    and tms: "\<forall>(x, res) \<in> set past. date_now env x \<le> T"
    and bnd: "\<And>a. int (admissions env a (a + windowSeconds * 1000) past) \<le> maxRequests"
    by (auto simp: inv1_def)
  have i0': "inv0 userId windowSeconds T' w'"
    using i0 le unfolding inv0_def raw same by fastforce
  have cnt': "length (filter (\<lambda>(mem, s). c < s) (raw_window userId w')) = admitted_after env c past"
    if "T' - windowSeconds * 1000 \<le> c" for c
    using cnt[of c] that le by (simp add: raw)
  have tms': "\<forall>(x, res) \<in> set past. date_now env x \<le> T'" using tms le by fastforce
  show ?thesis unfolding inv1_def using i0' mem cnt' tms' bnd by (simp add: raw)
qed

lemma serial_fst: "map fst (serial_checks env maxRequests windowSeconds rs w) = rs"
  by (induction rs arbitrary: w) (auto split: prod.splits)

lemma serial_length: "length (serial_checks env maxRequests windowSeconds rs w) = length rs"
  using serial_fst[of env maxRequests windowSeconds rs w] by (metis length_map)

lemma serial_nth:
  "k < length rs \<Longrightarrow> fst (serial_checks env maxRequests windowSeconds rs w ! k) = rs ! k"
  using serial_fst[of env maxRequests windowSeconds rs w] serial_length[of env maxRequests windowSeconds rs w]
  by (metis nth_map)

lemma own_Cons:
  "own userId (((u, x), res) # run) = (if u = userId then (x, res) # own userId run else own userId run)"
  by (simp add: own_def)

lemma own_Nil [simp]: "own userId [] = []"
  by (simp add: own_def)

text \<open>
  Through a serial run of checks of any users, the window stored for one user counts
  that user's admissions: the bound on every window holds, and each check of the user is
  admitted exactly when fewer than the quota of the user's earlier checks were admitted
  within the window before it.
\<close>

lemma serial_user:
  assumes still: "\<forall>x. date_now env (snd (math_random env x)) = date_now env x"
    and pos: "0 < windowSeconds"
  shows "inv1 env userId maxRequests windowSeconds past T w \<Longrightarrow>
     sorted (T # map (\<lambda>(u, x). date_now env x) rs) \<Longrightarrow> 0 \<le> T \<Longrightarrow>
     distinct (map (member_of env) (map fst past @ map snd (filter (\<lambda>(u, x). u = userId) rs))) \<Longrightarrow>
     int (admissions env a (a + windowSeconds * 1000)
        (past @ own userId (serial_checks env maxRequests windowSeconds rs w))) \<le> maxRequests \<and>
     (\<forall>i < length rs. fst (rs ! i) = userId \<longrightarrow>
        (allowed (snd (serial_checks env maxRequests windowSeconds rs w ! i)) \<longleftrightarrow>
         int (admitted_after env (arrival env rs i - windowSeconds * 1000)
                (past @ own userId (take i (serial_checks env maxRequests windowSeconds rs w)))) < maxRequests))"
proof (induction rs arbitrary: w T past)
  case Nil
  then show ?case by (simp add: inv1_def)
next
  case (Cons r rs)
  obtain u x where r: "r = (u, x)" by (cases r)
  let ?w = "w\<lparr>ext := x\<rparr>"
  let ?n = "date_now env x"
  obtain res w' where run: "checkRateLimit env u maxRequests windowSeconds ?w = (res, w')" by force
  have Tn: "T \<le> ?n" and nn: "0 \<le> ?n" using Cons.prems r by auto
  have srt: "sorted (?n # map (\<lambda>(u, x). date_now env x) rs)" using Cons.prems(2) r by simp
  let ?rest = "serial_checks env maxRequests windowSeconds rs w'"
  have sc: "serial_checks env maxRequests windowSeconds (r # rs) w = ((u, x), res) # ?rest"
    using run r by simp
  show ?case
  proof (cases "u = userId")
    case True
    have run': "checkRateLimit env userId maxRequests windowSeconds ?w = (res, w')" using run True by simp
    have fresh: "member_of env x \<notin> member_of env ` fst ` set past" using Cons.prems(4) r True by auto
    note inv' = inv1_step[OF Cons.prems(1) Tn nn fresh still pos run']
    have dst: "distinct (map (member_of env)
        (map fst (past @ [(x, res)]) @ map snd (filter (\<lambda>(u, x). u = userId) rs)))"
      using Cons.prems(4) r True by simp
    note IH = Cons.IH[OF inv' srt nn dst]
    have ow: "past @ own userId (((u, x), res) # ys) = (past @ [(x, res)]) @ own userId ys" for ys
      using True by (simp add: own_Cons)
    have head: "allowed res \<longleftrightarrow> int (admitted_after env (?n - windowSeconds * 1000) past) < maxRequests"
    proof -
      from Cons.prems(1) have inv0: "inv0 userId windowSeconds T ?w"
        and cnt: "\<And>c. T - windowSeconds * 1000 \<le> c \<Longrightarrow>
           length (filter (\<lambda>(mem, s). c < s) (raw_window userId w)) = admitted_after env c past"
        by (auto simp: inv1_def)
      have ck: "clock env ?w = ?n" by (simp add: clock_def)
      have "kept env userId windowSeconds ?w =
          filter (\<lambda>(mem, s). ?n - windowSeconds * 1000 < s) (raw_window userId w)"
        using kept_raw[OF inv0, of env] Tn ck by simp
      then have "length (kept env userId windowSeconds ?w) = admitted_after env (?n - windowSeconds * 1000) past"
        using cnt[of "?n - windowSeconds * 1000"] Tn by simp
      with allowed_iff[OF run'] show ?thesis by simp
    qed
    show ?thesis
    proof (intro conjI allI impI)
      show "int (admissions env a (a + windowSeconds * 1000)
          (past @ own userId (serial_checks env maxRequests windowSeconds (r # rs) w))) \<le> maxRequests"
        using IH unfolding sc ow by simp
    next
      fix i
      assume i: "i < length (r # rs)" and ui: "fst ((r # rs) ! i) = userId"
      show "allowed (snd (serial_checks env maxRequests windowSeconds (r # rs) w ! i)) \<longleftrightarrow>
         int (admitted_after env (arrival env (r # rs) i - windowSeconds * 1000)
                (past @ own userId (take i (serial_checks env maxRequests windowSeconds (r # rs) w)))) < maxRequests"
      proof (cases i)
        case 0
        then show ?thesis using head sc r by (simp add: arrival_def)
      next
        case (Suc j)
        with i ui have j: "j < length rs" "fst (rs ! j) = userId" by simp_all
        with IH have "allowed (snd (?rest ! j)) \<longleftrightarrow>
            int (admitted_after env (arrival env rs j - windowSeconds * 1000)
                   ((past @ [(x, res)]) @ own userId (take j ?rest))) < maxRequests"
          by blast
        then show ?thesis using Suc sc ow[of "take j ?rest"] by (simp add: arrival_def)
      qed
    qed
  next
    case False
    have same: "rate (store w') (rate_key userId) = rate (store ?w) (rate_key userId)"
      by (rule checkRateLimit_other[OF run False])
    have "inv1 env userId maxRequests windowSeconds past T ?w"
      using Cons.prems(1) by (simp add: inv1_def raw_window_def inv0_def)
    from inv1_other[OF this Tn same] have inv': "inv1 env userId maxRequests windowSeconds past ?n w'" .
    have dst: "distinct (map (member_of env) (map fst past @ map snd (filter (\<lambda>(u, x). u = userId) rs)))"
      using Cons.prems(4) r False by simp
    note IH = Cons.IH[OF inv' srt nn dst]
    have ow: "own userId (((u, x), res) # ys) = own userId ys" for ys
      using False by (simp add: own_Cons)
    show ?thesis
    proof (intro conjI allI impI)
      show "int (admissions env a (a + windowSeconds * 1000)
          (past @ own userId (serial_checks env maxRequests windowSeconds (r # rs) w))) \<le> maxRequests"
        using IH unfolding sc ow by simp
    next
      fix i
      assume i: "i < length (r # rs)" and ui: "fst ((r # rs) ! i) = userId"
      show "allowed (snd (serial_checks env maxRequests windowSeconds (r # rs) w ! i)) \<longleftrightarrow>
         int (admitted_after env (arrival env (r # rs) i - windowSeconds * 1000)
                (past @ own userId (take i (serial_checks env maxRequests windowSeconds (r # rs) w)))) < maxRequests"
      proof (cases i)
        case 0
        with ui r False show ?thesis by simp
      next
        case (Suc j)
        with i ui have j: "j < length rs" "fst (rs ! j) = userId" by simp_all
        with IH have "allowed (snd (?rest ! j)) \<longleftrightarrow>
            int (admitted_after env (arrival env rs j - windowSeconds * 1000)
                   (past @ own userId (take j ?rest))) < maxRequests"
          by blast
        then show ?thesis using Suc sc ow[of "take j ?rest"] by (simp add: arrival_def)
      qed
    qed
  qed
qed

lemma lowest_score_Min:
  "ms \<noteq> [] \<Longrightarrow> lowest_score ms = Some (Min (snd ` set ms))"
proof (induction ms)
  case Nil
  then show ?case by simp
next
  case (Cons m ms)
  obtain mem s where m: "m = (mem, s)" by (cases m)
  show ?case
  proof (cases "ms = []")
    case True
    then show ?thesis by (simp add: m)
  next
    case False
    with Cons.IH have "lowest_score ms = Some (Min (snd ` set ms))" by simp
    moreover have "Min (snd ` set (m # ms)) = min s (Min (snd ` set ms))"
      using False by (simp add: m)
    ultimately show ?thesis by (simp add: m)
  qed
qed

lemma filter_all_kept: "length (filter P xs) = length xs \<Longrightarrow> filter P xs = xs"
proof (induction xs)
  case Nil
  then show ?case by simp
next
  case (Cons x xs)
  have le: "length (filter P xs) \<le> length xs" by (rule length_filter_le)
  show ?case
  proof (cases "P x")
    case True
    with Cons show ?thesis by simp
  next
    case False
    with Cons.prems le show ?thesis by simp
  qed
qed

lemma record_now_mem: "(mem, score) \<in> set (record_now mem score ms)"
  by (force simp: record_now_def)

lemma kept_nonneg:
  "list_all (\<lambda>(mem, s). 0 \<le> s) (user_window env userId v) \<Longrightarrow>
   kept env userId windowSeconds v =
     filter (\<lambda>(mem, s). clock env v - windowSeconds * 1000 < s) (user_window env userId v)"
  unfolding kept_def by (rule filter_cong) (auto simp: list_all_iff)

lemma check_contract:
  assumes still: "\<forall>x. date_now env (snd (math_random env x)) = date_now env x"
    and pos: "0 < windowSeconds"
    and run: "checkRateLimit env userId maxRequests windowSeconds v = (res, v')"
  shows "(allowed res \<longleftrightarrow> int (length (kept env userId windowSeconds v)) < maxRequests) \<and>
        (\<not> allowed res \<longrightarrow>
           remaining res = 0 \<and> user_window env userId v' = kept env userId windowSeconds v \<and>
           resetAt res =
             (if kept env userId windowSeconds v = [] then clock env v + windowSeconds * 1000
              else Min (snd ` set (kept env userId windowSeconds v)) + windowSeconds * 1000)) \<and>
        (allowed res \<longrightarrow>
           remaining res = maxRequests - int (length (kept env userId windowSeconds v)) - 1 \<and>
           resetAt res = clock env v + windowSeconds * 1000 \<and>
           user_window env userId v' =
             record_now (clock env v, fst (math_random env (ext v))) (clock env v)
               (kept env userId windowSeconds v))"
proof (cases rule: check_cases[of maxRequests env userId windowSeconds v])
  case denied
  from checkRateLimit_denied[OF denied] run
  have res: "res = \<lparr>allowed = False, remaining = 0,
       resetAt = (case lowest_score (kept env userId windowSeconds v) of
                    Some score \<Rightarrow> score + windowSeconds * 1000
                  | None \<Rightarrow> clock env v + windowSeconds * 1000)\<rparr>"
    and v': "v' = set_rate (zremrangebyscore (clock env v) (rate (store v)) (rate_key userId) 0
        (clock env v - windowSeconds * 1000)) v"
    by auto
  have "user_window env userId v' = kept env userId windowSeconds v"
    unfolding v' by (rule window_after_prune)
  with res denied show ?thesis by (auto simp: lowest_score_Min)
next
  case admitted
  have st: "date_now env (snd (math_random env (ext v))) = clock env v" using still by (simp add: clock_def)
  from checkRateLimit_admitted[OF admitted st pos] run
  have res: "allowed res" "remaining res = maxRequests - int (length (kept env userId windowSeconds v)) - 1"
      "resetAt res = clock env v + windowSeconds * 1000"
    and v': "v' = v\<lparr>ext := snd (math_random env (ext v)),
        store := (store v)\<lparr>rate := (rate (store v))(rate_key userId \<mapsto>
          \<lparr>members = record_now (clock env v, fst (math_random env (ext v))) (clock env v)
                        (kept env userId windowSeconds v),
           expireAt = Some (clock env v + windowSeconds * 1000)\<rparr>)\<rparr>\<rparr>"
    by auto
  have "clock env v' = clock env v" using st by (simp add: v' clock_def)
  then have "user_window env userId v' = record_now (clock env v, fst (math_random env (ext v))) (clock env v)
                        (kept env userId windowSeconds v)"
    using pos by (simp add: user_window_def v' zlive_def live_def)
  with res admitted show ?thesis by simp
qed

lemmas rate_eval =
  checkRateLimit_def set_rate_def zremrangebyscore_def zcard_def zrange_first_score_def zadd_def zexpire_def
  zlive_def live_def clock_def rate_key_def Let_def demo_env_def demo_world_def empty_store_def full_world_def
  stale_world_def

text \<open>
  C9, as stated, fails: a denied check can change the user's window. With requests
  recorded at 1, 20, 30 and 40 seconds, a check at 70 seconds for a quota of 3 is denied,
  and the request recorded at 1 second, which has left the window, is gone afterwards.
\<close>

theorem denied_check_prunes_counterexample:
  "\<not> allowed (fst (checkRateLimit (demo_env (\<lambda>n. Inr (session_made ''S1'')) (1/2)) ''user-1'' 3 60 stale_world)) \<and>
   user_window (demo_env (\<lambda>n. Inr (session_made ''S1'')) (1/2)) ''user-1'' stale_world
     = [((1000, 1/2), 1000), ((20000, 1/2), 20000), ((30000, 1/2), 30000), ((40000, 1/2), 40000)] \<and>
   user_window (demo_env (\<lambda>n. Inr (session_made ''S1'')) (1/2)) ''user-1''
      (snd (checkRateLimit (demo_env (\<lambda>n. Inr (session_made ''S1'')) (1/2)) ''user-1'' 3 60 stale_world))
     = [((20000, 1/2), 20000), ((30000, 1/2), 30000), ((40000, 1/2), 40000)]"
  by (simp add: user_window_def rate_eval)

text \<open>
  C9, amended. A check that is denied records no timestamp and does not refresh the
  expiry of the user's key: the outside world, the trace, the other keys and the other
  stores are as before, and the key, if still there, expires when it did. The one change
  it can make to the user's window is to drop the recorded timestamps that are at or
  before \<open>now - windowSeconds\<close>: the window afterwards is what \<open>kept\<close> leaves of the window
  before. When the quota is positive and the key held no more members than the quota, as
  after any serial checks with that quota, nothing is dropped and the whole world is
  unchanged.
\<close>

theorem denied_check_frame:
  assumes run: "checkRateLimit env userId maxRequests windowSeconds w = (res, w')" and den: "\<not> allowed res"
  shows "ext w' = ext w \<and> trace w' = trace w \<and> breakers w' = breakers w \<and> guard w' = guard w \<and>
         sessions (store w') = sessions (store w) \<and> idem (store w') = idem (store w) \<and>
         (\<forall>k. k \<noteq> rate_key userId \<longrightarrow> rate (store w') k = rate (store w) k) \<and>
         user_window env userId w' = kept env userId windowSeconds w \<and>
         subseq (raw_window userId w') (raw_window userId w) \<and>
         (\<forall>z'. rate (store w') (rate_key userId) = Some z' \<longrightarrow>
            (\<exists>z. rate (store w) (rate_key userId) = Some z \<and> expireAt z' = expireAt z)) \<and>
         (0 < maxRequests \<and> int (length (raw_window userId w)) \<le> maxRequests \<longrightarrow> w' = w)"
proof -
  let ?key = "rate_key userId"
  let ?now = "clock env w"
  let ?ws = "?now - windowSeconds * 1000"
  let ?k = "kept env userId windowSeconds w"
  from allowed_iff[OF run] den have cnt: "maxRequests \<le> int (length ?k)" by simp
  from checkRateLimit_denied[OF cnt] run
  have w': "w' = set_rate (zremrangebyscore ?now (rate (store w)) ?key 0 ?ws) w" by simp
  have frame: "ext w' = ext w \<and> trace w' = trace w \<and> breakers w' = breakers w \<and> guard w' = guard w \<and>
         sessions (store w') = sessions (store w) \<and> idem (store w') = idem (store w)"
    by (simp add: w' set_rate_def)
  have other: "\<forall>k. k \<noteq> ?key \<longrightarrow> rate (store w') k = rate (store w) k"
    by (simp add: w' set_rate_def prune_other)
  have win: "user_window env userId w' = ?k"
    unfolding w' by (rule window_after_prune)
  show ?thesis
  proof (cases "zlive ?now (rate (store w)) ?key")
    case None
    then have "w' = set_rate (rate (store w)) w" using w' by (simp add: zremrangebyscore_def)
    then have same: "w' = w" by (simp add: set_rate_def)
    with frame other win show ?thesis by (auto simp: raw_window_def)
  next
    case (Some z)
    from zlive_Some[OF Some] have z: "rate (store w) ?key = Some z" by simp
    then have raw: "raw_window userId w = members z" by (simp add: raw_window_def)
    have k: "?k = filter (\<lambda>(mem, score). \<not> (0 \<le> score \<and> score \<le> ?ws)) (members z)"
      using Some by (simp add: kept_def user_window_def)
    have r': "rate (store w') ?key = (if ?k = [] then None else Some (z\<lparr>members := ?k\<rparr>))"
      using Some w' by (simp add: zremrangebyscore_def set_rate_def k Let_def)
    then have raw': "raw_window userId w' = ?k" by (simp add: raw_window_def)
    have sub: "subseq (raw_window userId w') (raw_window userId w)"
      unfolding raw' raw k by (rule subseq_filter_left)
    have exp: "\<forall>z'. rate (store w') ?key = Some z' \<longrightarrow> (\<exists>z. rate (store w) ?key = Some z \<and> expireAt z' = expireAt z)"
      using r' z by (auto split: if_splits)
    have same: "w' = w" if q: "0 < maxRequests" and le: "int (length (raw_window userId w)) \<le> maxRequests"
    proof -
      have "length ?k \<le> length (members z)" unfolding k by (rule length_filter_le)
      with cnt le raw have len: "length ?k = length (members z)" by simp
      have "?k = members z"
        unfolding k using len[unfolded k] by (rule filter_all_kept)
      moreover have "?k \<noteq> []" using cnt q by auto
      ultimately have "rate (store w') = rate (store w)"
        using r' z other by (intro ext) (case_tac "x = ?key", auto)
      then show ?thesis using w' by (simp add: set_rate_def)
    qed
    from frame other win sub exp same show ?thesis by blast
  qed
qed

text \<open>
  A denied check of a window that holds the quota and no more changes nothing; the denied
  check of the window of four drops the one stale timestamp and nothing else.
\<close>

theorem denied_check_frame_witness:
  "checkRateLimit (demo_env (\<lambda>n. Inr (session_made ''S1'')) (1/2)) ''user-1'' 2 60 full_world
     = (\<lparr>allowed = False, remaining = 0, resetAt = 61000\<rparr>,
        snd (checkRateLimit (demo_env (\<lambda>n. Inr (session_made ''S1'')) (1/2)) ''user-1'' 2 60 full_world)) \<and>
   \<not> allowed \<lparr>allowed = False, remaining = 0, resetAt = 61000\<rparr> \<and>
   (0::int) < 2 \<and> int (length (raw_window ''user-1'' full_world)) \<le> 2 \<and>
   snd (checkRateLimit (demo_env (\<lambda>n. Inr (session_made ''S1'')) (1/2)) ''user-1'' 2 60 full_world)
     = full_world \<and>
   checkRateLimit (demo_env (\<lambda>n. Inr (session_made ''S1'')) (1/2)) ''user-1'' 3 60 stale_world
     = (\<lparr>allowed = False, remaining = 0, resetAt = 80000\<rparr>,
        snd (checkRateLimit (demo_env (\<lambda>n. Inr (session_made ''S1'')) (1/2)) ''user-1'' 3 60 stale_world)) \<and>
   kept (demo_env (\<lambda>n. Inr (session_made ''S1'')) (1/2)) ''user-1'' 60 stale_world
     = [((20000, 1/2), 20000), ((30000, 1/2), 30000), ((40000, 1/2), 40000)] \<and>
   user_window (demo_env (\<lambda>n. Inr (session_made ''S1'')) (1/2)) ''user-1''
      (snd (checkRateLimit (demo_env (\<lambda>n. Inr (session_made ''S1'')) (1/2)) ''user-1'' 3 60 stale_world))
     = kept (demo_env (\<lambda>n. Inr (session_made ''S1'')) (1/2)) ''user-1'' 60 stale_world \<and>
   ext (snd (checkRateLimit (demo_env (\<lambda>n. Inr (session_made ''S1'')) (1/2)) ''user-1'' 3 60 stale_world))
     = ext stale_world"
proof -
  let ?E = "demo_env (\<lambda>n. Inr (session_made ''S1'')) (1/2)"
  let ?res = "\<lparr>allowed = False, remaining = 0, resetAt = 61000\<rparr>"
  let ?res' = "\<lparr>allowed = False, remaining = 0, resetAt = 80000\<rparr>"
  have h1: "checkRateLimit ?E ''user-1'' 2 60 full_world
     = (?res, snd (checkRateLimit ?E ''user-1'' 2 60 full_world))"
    by (simp add: rate_eval)
  have h2: "\<not> allowed ?res" by simp
  have h3: "(0::int) < 2" by simp
  have h4: "int (length (raw_window ''user-1'' full_world)) \<le> 2"
    by (simp add: raw_window_def rate_key_def full_world_def)
  note t = denied_check_frame[OF h1 h2]
  from t h3 h4 have c1: "snd (checkRateLimit ?E ''user-1'' 2 60 full_world) = full_world" by blast
  have g1: "checkRateLimit ?E ''user-1'' 3 60 stale_world
     = (?res', snd (checkRateLimit ?E ''user-1'' 3 60 stale_world))"
    by (simp add: rate_eval)
  have g2: "\<not> allowed ?res'" by simp
  have k: "kept ?E ''user-1'' 60 stale_world
     = [((20000, 1/2), 20000), ((30000, 1/2), 30000), ((40000, 1/2), 40000)]"
    by (simp add: kept_def user_window_def rate_eval)
  note t' = denied_check_frame[OF g1 g2]
  from t' have c2: "user_window ?E ''user-1'' (snd (checkRateLimit ?E ''user-1'' 3 60 stale_world))
     = kept ?E ''user-1'' 60 stale_world" by blast
  from t' have c3: "ext (snd (checkRateLimit ?E ''user-1'' 3 60 stale_world)) = ext stale_world" by blast
  show ?thesis by (intro conjI h1 h2 h3 h4 c1 g1 k c2 c3)
qed

text \<open>
  C7, as stated, fails in three places, shown on serial checks of one user. With a quota
  of 1 and a window of 60 seconds, a check at 61 seconds is admitted after one admitted
  at 1 second: the timestamp recorded then is exactly a window old, not older, and the
  check drops it. With the same quota, of checks at 0, 30, 60.001 and 90 seconds the
  second is denied and the fourth, a window after that denial, is denied too, because the
  third was admitted in between. And with a quota of 2, three checks in one millisecond
  that draw the same random number are all admitted: the second records the member the
  first recorded, so the set still counts one.
\<close>

theorem sliding_window_counterexample:
  "map (\<lambda>(r, res). allowed res)
      (serial_checks (demo_env (\<lambda>n. Inr (session_made ''S1'')) (1/2)) 1 60
         [(''user-1'', (0, 1000)), (''user-1'', (0, 61000))] (demo_world 0))
     = [True, True] \<and>
   map (\<lambda>(r, res). allowed res)
      (serial_checks (demo_env (\<lambda>n. Inr (session_made ''S1'')) (1/2)) 1 60
         [(''user-1'', (0, 0)), (''user-1'', (0, 30000)), (''user-1'', (0, 60001)), (''user-1'', (0, 90000))]
         (demo_world 0))
     = [True, False, True, False] \<and>
   map (\<lambda>(r, res). allowed res)
      (serial_checks (demo_env (\<lambda>n. Inr (session_made ''S1'')) (1/2)) 2 60
         [(''user-1'', (0, 1000)), (''user-1'', (0, 1000)), (''user-1'', (0, 1000))] (demo_world 0))
     = [True, True, True]"
  by (simp add: rate_eval)

text \<open>
  C7, amended. With a positive window, a clock that a random draw does not move, and
  checks of any users that arrive one after the other at times that do not decrease,
  where the checks of the user draw members that differ and the user's key starts absent.
  Every check first drops the recorded timestamps at or before \<open>now - windowSeconds\<close>
  (\<open>kept\<close> is what survives, the scores above that bound); it admits exactly when fewer
  than \<open>maxRequests\<close> survive; denied, it reports 0 remaining and a \<^verbatim>\<open>resetAt\<close> of the oldest
  surviving timestamp plus the window (of now plus the window when none survives), and
  leaves the survivors as the window; admitted, it reports \<open>maxRequests - count - 1\<close>
  remaining and records the current timestamp after the survivors. A check of another
  user leaves the user's key as it is. So no window of \<open>windowSeconds\<close>, open at its start,
  holds more than \<open>maxRequests\<close> admissions of the user; a check of the user is admitted
  exactly when fewer than \<open>maxRequests\<close> of the user's earlier checks were admitted less
  than a window before it; and with a positive quota a check of the user that arrives
  \<open>windowSeconds\<close> or more after an earlier check, denied or not, is admitted when no
  check of the user in between was.
\<close>

theorem rate_limiter_sliding_window:
  assumes still: "\<forall>x. date_now env (snd (math_random env x)) = date_now env x"
    and pos: "0 < windowSeconds"
    and quota: "0 \<le> maxRequests"
    and srt: "sorted (map (\<lambda>(u, x). date_now env x) rs)"
    and nonneg: "list_all (\<lambda>(u, x). 0 \<le> date_now env x) rs"
    and dist: "distinct (map (member_of env) (map snd (filter (\<lambda>(u, x). u = userId) rs)))"
    and fresh: "rate (store w) (rate_key userId) = None"
  shows
   "(\<forall>v res v'. checkRateLimit env userId maxRequests windowSeconds v = (res, v') \<longrightarrow>
        (list_all (\<lambda>(mem, s). 0 \<le> s) (user_window env userId v) \<longrightarrow>
           kept env userId windowSeconds v =
             filter (\<lambda>(mem, s). clock env v - windowSeconds * 1000 < s) (user_window env userId v)) \<and>
        (allowed res \<longleftrightarrow> int (length (kept env userId windowSeconds v)) < maxRequests) \<and>
        (\<not> allowed res \<longrightarrow>
           remaining res = 0 \<and> user_window env userId v' = kept env userId windowSeconds v \<and>
           resetAt res =
             (if kept env userId windowSeconds v = [] then clock env v + windowSeconds * 1000
              else Min (snd ` set (kept env userId windowSeconds v)) + windowSeconds * 1000)) \<and>
        (allowed res \<longrightarrow>
           remaining res = maxRequests - int (length (kept env userId windowSeconds v)) - 1 \<and>
           resetAt res = clock env v + windowSeconds * 1000 \<and>
           user_window env userId v' =
             record_now (clock env v, fst (math_random env (ext v))) (clock env v)
               (kept env userId windowSeconds v))) \<and>
    (\<forall>u v res v'. u \<noteq> userId \<and> checkRateLimit env u maxRequests windowSeconds v = (res, v') \<longrightarrow>
        rate (store v') (rate_key userId) = rate (store v) (rate_key userId)) \<and>
    (\<forall>a. int (admissions env a (a + windowSeconds * 1000)
              (own userId (serial_checks env maxRequests windowSeconds rs w))) \<le> maxRequests) \<and>
    (\<forall>i < length rs. fst (rs ! i) = userId \<longrightarrow>
       (allowed (snd (serial_checks env maxRequests windowSeconds rs w ! i)) \<longleftrightarrow>
        int (admitted_after env (arrival env rs i - windowSeconds * 1000)
               (own userId (take i (serial_checks env maxRequests windowSeconds rs w)))) < maxRequests)) \<and>
    (0 < maxRequests \<longrightarrow>
       (\<forall>i j. i < j \<and> j < length rs \<and> fst (rs ! j) = userId \<and>
            arrival env rs i + windowSeconds * 1000 \<le> arrival env rs j \<and>
            (\<forall>k. i < k \<and> k < j \<and> fst (rs ! k) = userId \<longrightarrow>
               \<not> allowed (snd (serial_checks env maxRequests windowSeconds rs w ! k))) \<longrightarrow>
            allowed (snd (serial_checks env maxRequests windowSeconds rs w ! j))))"
proof -
  let ?run = "serial_checks env maxRequests windowSeconds rs w"
  have contract: "(list_all (\<lambda>(mem, s). 0 \<le> s) (user_window env userId v) \<longrightarrow>
           kept env userId windowSeconds v =
             filter (\<lambda>(mem, s). clock env v - windowSeconds * 1000 < s) (user_window env userId v)) \<and>
        (allowed res \<longleftrightarrow> int (length (kept env userId windowSeconds v)) < maxRequests) \<and>
        (\<not> allowed res \<longrightarrow>
           remaining res = 0 \<and> user_window env userId v' = kept env userId windowSeconds v \<and>
           resetAt res =
             (if kept env userId windowSeconds v = [] then clock env v + windowSeconds * 1000
              else Min (snd ` set (kept env userId windowSeconds v)) + windowSeconds * 1000)) \<and>
        (allowed res \<longrightarrow>
           remaining res = maxRequests - int (length (kept env userId windowSeconds v)) - 1 \<and>
           resetAt res = clock env v + windowSeconds * 1000 \<and>
           user_window env userId v' =
             record_now (clock env v, fst (math_random env (ext v))) (clock env v)
               (kept env userId windowSeconds v))"
    if run: "checkRateLimit env userId maxRequests windowSeconds v = (res, v')" for v res v'
    using check_contract[OF still pos run] kept_nonneg[of env userId v windowSeconds] by blast
  have apart: "rate (store v') (rate_key userId) = rate (store v) (rate_key userId)"
    if "u \<noteq> userId \<and> checkRateLimit env u maxRequests windowSeconds v = (res, v')" for u v res v'
    using that checkRateLimit_other by blast
  have raw: "raw_window userId w = []" using fresh by (simp add: raw_window_def)
  have i0: "inv0 userId windowSeconds 0 w" using fresh raw by (simp add: inv0_def)
  have i1: "inv1 env userId maxRequests windowSeconds [] 0 w"
    using i0 raw quota by (simp add: inv1_def admissions_def admitted_after_def)
  have s0: "sorted (0 # map (\<lambda>(u, x). date_now env x) rs)"
    using srt nonneg by (auto simp: list_all_iff)
  have d0: "distinct (map (member_of env) (map fst [] @ map snd (filter (\<lambda>(u, x). u = userId) rs)))"
    using dist by simp
  have bound: "int (admissions env a (a + windowSeconds * 1000) (own userId ?run)) \<le> maxRequests" for a
    using serial_user[OF still pos i1 s0 _ d0, of a] by simp
  have exact: "allowed (snd (?run ! i)) \<longleftrightarrow>
        int (admitted_after env (arrival env rs i - windowSeconds * 1000) (own userId (take i ?run))) < maxRequests"
    if "i < length rs" "fst (rs ! i) = userId" for i
    using serial_user[OF still pos i1 s0 _ d0, of 0] that by simp
  have later: "allowed (snd (?run ! j))"
    if q: "0 < maxRequests"
      and h: "i < j \<and> j < length rs \<and> fst (rs ! j) = userId \<and>
            arrival env rs i + windowSeconds * 1000 \<le> arrival env rs j \<and>
            (\<forall>k. i < k \<and> k < j \<and> fst (rs ! k) = userId \<longrightarrow> \<not> allowed (snd (?run ! k)))" for i j
  proof -
    have none: "\<not> (allowed res \<and> arrival env rs j - windowSeconds * 1000 < date_now env x)"
      if "(x, res) \<in> set (own userId (take j ?run))" for x res
    proof -
      from that have "((userId, x), res) \<in> set (take j ?run)" by (auto simp: own_def)
      then obtain k where k: "k < length (take j ?run)" "take j ?run ! k = ((userId, x), res)"
        by (auto simp: in_set_conv_nth)
      then have kj: "k < j" "k < length rs" by (simp_all add: serial_length)
      have rk: "?run ! k = ((userId, x), res)" using k kj by simp
      then have rsk: "rs ! k = (userId, x)" using serial_nth[OF kj(2), of env maxRequests windowSeconds w] by simp
      show ?thesis
      proof (cases "k \<le> i")
        case True
        have "map (\<lambda>(u, x). date_now env x) rs ! k \<le> map (\<lambda>(u, x). date_now env x) rs ! i"
          using srt True h by (intro sorted_nth_mono) auto
        then have "arrival env rs k \<le> arrival env rs i"
          using kj h by (simp add: arrival_def split_beta)
        moreover have "arrival env rs k = date_now env x" using rsk by (simp add: arrival_def)
        ultimately show ?thesis using h by simp
      next
        case False
        with h kj rsk have "\<not> allowed (snd (?run ! k))" by simp
        then show ?thesis using rk by simp
      qed
    qed
    then have "filter (\<lambda>(x, res). allowed res \<and> arrival env rs j - windowSeconds * 1000 < date_now env x)
        (own userId (take j ?run)) = []"
      by (auto simp: filter_empty_conv)
    then have "admitted_after env (arrival env rs j - windowSeconds * 1000) (own userId (take j ?run)) = 0"
      by (simp add: admitted_after_def)
    with exact[of j] h q show ?thesis by simp
  qed
  from contract apart bound exact later show ?thesis by blast
qed

text \<open>
  Two users and a quota of 2: the third check of the first user is denied, the two of the
  second user are admitted meanwhile, and the first user's check a window after the
  denied one is admitted.
\<close>

theorem rate_limiter_sliding_window_witness:
  "(\<forall>x. date_now (demo_env (\<lambda>n. Inr (session_made ''S1'')) (1/2))
           (snd (math_random (demo_env (\<lambda>n. Inr (session_made ''S1'')) (1/2)) x))
         = date_now (demo_env (\<lambda>n. Inr (session_made ''S1'')) (1/2)) x) \<and>
   (0::int) < 60 \<and> (0::int) \<le> 2 \<and>
   sorted (map (\<lambda>(u, x). date_now (demo_env (\<lambda>n. Inr (session_made ''S1'')) (1/2)) x)
      [(''user-1'', (0, 1000)), (''user-2'', (0, 1500)), (''user-1'', (0, 2000)),
       (''user-1'', (0, 3000)), (''user-2'', (0, 3500)), (''user-1'', (0, 63000))]) \<and>
   distinct (map (member_of (demo_env (\<lambda>n. Inr (session_made ''S1'')) (1/2)))
      (map snd (filter (\<lambda>(u, x). u = ''user-1'')
        [(''user-1'', (0, 1000)), (''user-2'', (0, 1500)), (''user-1'', (0, 2000)),
         (''user-1'', (0, 3000)), (''user-2'', (0, 3500)), (''user-1'', (0, 63000))]))) \<and>
   rate (store (demo_world 0)) (rate_key ''user-1'') = None \<and>
   map snd (serial_checks (demo_env (\<lambda>n. Inr (session_made ''S1'')) (1/2)) 2 60
      [(''user-1'', (0, 1000)), (''user-2'', (0, 1500)), (''user-1'', (0, 2000)),
       (''user-1'', (0, 3000)), (''user-2'', (0, 3500)), (''user-1'', (0, 63000))] (demo_world 0))
     = [\<lparr>allowed = True, remaining = 1, resetAt = 61000\<rparr>,
        \<lparr>allowed = True, remaining = 1, resetAt = 61500\<rparr>,
        \<lparr>allowed = True, remaining = 0, resetAt = 62000\<rparr>,
        \<lparr>allowed = False, remaining = 0, resetAt = 61000\<rparr>,
        \<lparr>allowed = True, remaining = 0, resetAt = 63500\<rparr>,
        \<lparr>allowed = True, remaining = 1, resetAt = 123000\<rparr>] \<and>
   int (admissions (demo_env (\<lambda>n. Inr (session_made ''S1'')) (1/2)) 0 (0 + 60 * 1000)
          (own ''user-1'' (serial_checks (demo_env (\<lambda>n. Inr (session_made ''S1'')) (1/2)) 2 60
             [(''user-1'', (0, 1000)), (''user-2'', (0, 1500)), (''user-1'', (0, 2000)),
              (''user-1'', (0, 3000)), (''user-2'', (0, 3500)), (''user-1'', (0, 63000))] (demo_world 0)))) \<le> 2 \<and>
   \<not> int (admitted_after (demo_env (\<lambda>n. Inr (session_made ''S1'')) (1/2)) (3000 - 60 * 1000)
          (own ''user-1'' (take 3 (serial_checks (demo_env (\<lambda>n. Inr (session_made ''S1'')) (1/2)) 2 60
             [(''user-1'', (0, 1000)), (''user-2'', (0, 1500)), (''user-1'', (0, 2000)),
              (''user-1'', (0, 3000)), (''user-2'', (0, 3500)), (''user-1'', (0, 63000))] (demo_world 0))))) < 2 \<and>
   allowed (snd (serial_checks (demo_env (\<lambda>n. Inr (session_made ''S1'')) (1/2)) 2 60
      [(''user-1'', (0, 1000)), (''user-2'', (0, 1500)), (''user-1'', (0, 2000)),
       (''user-1'', (0, 3000)), (''user-2'', (0, 3500)), (''user-1'', (0, 63000))] (demo_world 0) ! 5)) \<and>
   rate (store (snd (checkRateLimit (demo_env (\<lambda>n. Inr (session_made ''S1'')) (1/2)) ''user-2'' 2 60 full_world)))
        (rate_key ''user-1'')
     = rate (store full_world) (rate_key ''user-1'') \<and>
   kept (demo_env (\<lambda>n. Inr (session_made ''S1'')) (1/2)) ''user-1'' 60 full_world
     = [((1000, 1/2), 1000), ((2000, 1/2), 2000)] \<and>
   \<not> allowed (fst (checkRateLimit (demo_env (\<lambda>n. Inr (session_made ''S1'')) (1/2)) ''user-1'' 2 60 full_world)) \<and>
   resetAt (fst (checkRateLimit (demo_env (\<lambda>n. Inr (session_made ''S1'')) (1/2)) ''user-1'' 2 60 full_world))
     = Min (snd ` set [((1000, 1/2), 1000), ((2000, 1/2), (2000::int))]) + 60 * 1000 \<and>
   remaining (fst (checkRateLimit (demo_env (\<lambda>n. Inr (session_made ''S1'')) (1/2)) ''user-1'' 2 60 full_world)) = 0"
proof -
  let ?E = "demo_env (\<lambda>n. Inr (session_made ''S1'')) (1/2)"
  let ?rs = "[(''user-1'', (0::nat, 1000::int)), (''user-2'', (0, 1500)), (''user-1'', (0, 2000)),
       (''user-1'', (0, 3000)), (''user-2'', (0, 3500)), (''user-1'', (0, 63000))]"
  let ?run = "serial_checks ?E 2 60 ?rs (demo_world 0)"
  let ?c = "checkRateLimit ?E ''user-1'' 2 60 full_world"
  let ?o = "checkRateLimit ?E ''user-2'' 2 60 full_world"
  have h1: "\<forall>x. date_now ?E (snd (math_random ?E x)) = date_now ?E x" by (simp add: demo_env_def)
  have h2: "(0::int) < 60" by simp
  have h3: "(0::int) \<le> 2" by simp
  have h4: "sorted (map (\<lambda>(u, x). date_now ?E x) ?rs)" by (simp add: demo_env_def)
  have h5: "list_all (\<lambda>(u, x). 0 \<le> date_now ?E x) ?rs" by (simp add: demo_env_def)
  have h6: "distinct (map (member_of ?E) (map snd (filter (\<lambda>(u, x). u = ''user-1'') ?rs)))"
    by (simp add: member_of_def demo_env_def)
  have h7: "rate (store (demo_world 0)) (rate_key ''user-1'') = None"
    by (simp add: demo_world_def empty_store_def)
  note t = rate_limiter_sliding_window[OF h1 h2 h3 h4 h5 h6 h7]
  note t1 = t[THEN conjunct1]
  note t2 = t[THEN conjunct2, THEN conjunct1]
  note t3 = t[THEN conjunct2, THEN conjunct2, THEN conjunct1]
  note t4 = t[THEN conjunct2, THEN conjunct2, THEN conjunct2, THEN conjunct1]
  note t5 = t[THEN conjunct2, THEN conjunct2, THEN conjunct2, THEN conjunct2]
  have r: "map snd ?run
     = [\<lparr>allowed = True, remaining = 1, resetAt = 61000\<rparr>,
        \<lparr>allowed = True, remaining = 1, resetAt = 61500\<rparr>,
        \<lparr>allowed = True, remaining = 0, resetAt = 62000\<rparr>,
        \<lparr>allowed = False, remaining = 0, resetAt = 61000\<rparr>,
        \<lparr>allowed = True, remaining = 0, resetAt = 63500\<rparr>,
        \<lparr>allowed = True, remaining = 1, resetAt = 123000\<rparr>]"
    by (simp add: rate_eval)
  from t3 have a: "int (admissions ?E 0 (0 + 60 * 1000) (own ''user-1'' ?run)) \<le> 2" by blast
  have l3: "(3::nat) < length ?rs" and u3: "fst (?rs ! 3) = ''user-1''" by simp_all
  have a3: "arrival ?E ?rs 3 = 3000" by (simp add: arrival_def demo_env_def)
  have d3: "\<not> allowed (snd (?run ! 3))"
  proof -
    have "3 < length ?run" unfolding serial_length by simp
    then have nth3: "snd (?run ! 3) = map snd ?run ! 3" by (rule nth_map[symmetric])
    show ?thesis unfolding nth3 r by simp
  qed
  from t4[rule_format, OF l3 u3] d3
  have e: "\<not> int (admitted_after ?E (3000 - 60 * 1000) (own ''user-1'' (take 3 ?run))) < 2"
    unfolding a3 by simp
  have q: "(0::int) < 2" by simp
  have hk: "\<forall>k. 3 < k \<and> k < 5 \<and> fst (?rs ! k) = ''user-1'' \<longrightarrow> \<not> allowed (snd (?run ! k))"
  proof (intro allI impI)
    fix k :: nat
    assume k: "3 < k \<and> k < 5 \<and> fst (?rs ! k) = ''user-1''"
    then have "k = 4" by arith
    with k have False by simp
    then show "\<not> allowed (snd (?run ! k))" ..
  qed
  have ij: "(3::nat) < 5 \<and> 5 < length ?rs \<and> fst (?rs ! 5) = ''user-1'' \<and>
      arrival ?E ?rs 3 + 60 * 1000 \<le> arrival ?E ?rs 5 \<and>
      (\<forall>k. 3 < k \<and> k < 5 \<and> fst (?rs ! k) = ''user-1'' \<longrightarrow> \<not> allowed (snd (?run ! k)))"
    using hk by (simp add: arrival_def demo_env_def)
  note b = t5[rule_format, OF q ij]
  have po: "?o = (fst ?o, snd ?o)" by simp
  have ne: "''user-2'' \<noteq> ''user-1'' \<and> ?o = (fst ?o, snd ?o)" by simp
  note iso = t2[rule_format, OF ne]
  have k: "kept ?E ''user-1'' 60 full_world = [((1000, 1/2), 1000), ((2000, 1/2), 2000)]"
    by (simp add: kept_def user_window_def rate_eval)
  have pc: "?c = (fst ?c, snd ?c)" by simp
  have d: "\<not> allowed (fst ?c)" by (simp add: rate_eval)
  from t1[rule_format, OF pc] d k
  have f: "resetAt (fst ?c) = Min (snd ` set [((1000, 1/2), 1000), ((2000, 1/2), (2000::int))]) + 60 * 1000"
    and g: "remaining (fst ?c) = 0"
    by simp_all
  show ?thesis by (intro conjI h1 h2 h3 h4 h6 h7 r a e b iso k d f g)
qed


section \<open>The route: rate limit first, then replay\<close>

lemma checkRateLimit_frame:
  assumes "checkRateLimit env userId maxRequests windowSeconds w = (res, w')"
  shows "trace w' = trace w \<and> breakers w' = breakers w \<and> guard w' = guard w \<and>
         sessions (store w') = sessions (store w) \<and> idem (store w') = idem (store w) \<and>
         (ext w' = ext w \<or> ext w' = snd (math_random env (ext w)))"
  using assms
  by (auto simp: checkRateLimit_def Let_def set_rate_def split: if_splits prod.splits)

lemma checkRateLimit_clock:
  assumes "\<forall>x. date_now env (snd (math_random env x)) = date_now env x"
    and "checkRateLimit env userId maxRequests windowSeconds w = (res, w')"
  shows "clock env w' = clock env w"
  using checkRateLimit_frame[OF assms(2)] assms(1) by (auto simp: clock_def)

text \<open>The user id the handler hands to the rate limiter is the same for every request.\<close>

lemma user_undefined: "template (user_sub user) = ''undefined''"
  by (cases user) (simp add: template_def)

lemma request_handled:
  "truthy_str auth \<Longrightarrow>
   apply_request env auth body w = apply_route env body (Pending (remove_first ''Bearer '' (the auth))) (the auth) w"
  by (simp add: apply_request_def preHandler_def)

lemma request_refused:
  "\<not> truthy_str auth \<Longrightarrow> apply_request env auth body w = (Unauthorized ''Missing authorization header'', w)"
  by (simp add: apply_request_def preHandler_def)

lemma handler_denied:
  assumes "schema_ok body" and "\<not> allowed (fst (rate_checked env w))"
  shows "\<exists>retryAfter. apply_route env body user authorization w =
           (TooManyRequests (resetAt (fst (rate_checked env w))) retryAfter, snd (rate_checked env w))"
proof -
  obtain rl w1 where crl: "checkRateLimit env ''undefined'' 100 60 w = (rl, w1)" by force
  with assms show ?thesis
    by (simp add: apply_route_def apply_try_def Let_def user_undefined rate_checked_def)
qed

lemma handler_replays:
  assumes "schema_ok body" and "allowed (fst (rate_checked env w))"
    and "cached_result env (body_idempotencyKey body) (snd (rate_checked env w)) = Some stored"
  shows "apply_route env body user authorization w =
           (Sent200 (remaining (fst (rate_checked env w))) (resetAt (fst (rate_checked env w))) stored,
            snd (rate_checked env w))"
proof -
  obtain rl w1 where crl: "checkRateLimit env ''undefined'' 100 60 w = (rl, w1)" by force
  with assms show ?thesis
    by (simp add: apply_route_def apply_try_def Let_def user_undefined rate_checked_def)
qed

lemmas route_eval =
  apply_request_def preHandler_def template_def
  apply_route_def apply_try_def schema_ok_def operation_types_def cached_result_def rate_checked_def
  checkIdempotencyKey_def getIdempotencyResult_def storeIdempotencyKey_def idem_key_def
  redis_get_def redis_setex_def truthy_str_def error_reply_def getOBOToken_def
  replay_body_def replay_world_def busy_world_def partial_body_def partial_response_def
  stored_response_def

text \<open>
  C3, as stated, fails: the handler checks the rate limit before it looks the key up. A
  replayed submission whose stored result exists is answered with that result, but the
  rate limiter has been consulted and has recorded the request: the window it checks,
  absent before, holds the request afterwards, and 99 of the 100 requests remain.
\<close>

theorem replay_consumes_quota_counterexample:
  "apply_request (demo_env (\<lambda>n. Inr (session_made ''S1'')) (1/2)) (Some ''Bearer abc'') replay_body
      replay_world
     = (Sent200 99 65000 stored_response,
        replay_world\<lparr>store := (store replay_world)\<lparr>rate :=
           [''rate:undefined'' \<mapsto> \<lparr>members = [((5000, 1/2), 5000)], expireAt = Some 65000\<rparr>]\<rparr>\<rparr>) \<and>
   rate (store replay_world) = Map.empty \<and>
   cached_result (demo_env (\<lambda>n. Inr (session_made ''S1'')) (1/2)) (body_idempotencyKey replay_body)
      replay_world = Some stored_response"
  by (simp add: route_eval rate_eval op_insert_def)

text \<open>
  C3, amended. For every batch request that reaches the handler (it carries an
  \<^verbatim>\<open>authorization\<close> header) and passes the schema, the handler performs the rate-limit
  check first, on the key \<^verbatim>\<open>rate:undefined\<close>. When the check denies, the answer is 429 with
  the reset time, whether or not a stored result exists for the request's key. When the
  check admits and a stored result exists for the key, that result is returned verbatim,
  with the rate-limit headers of the check, and nothing is added to the trace (no token
  exchange, no request to Graph); the check has recorded the request in the window it
  checked, so the replay uses one slot of the quota.
\<close>

theorem replay_after_rate_limit:
  assumes still: "\<forall>x. date_now env (snd (math_random env x)) = date_now env x"
    and auth: "truthy_str auth"
    and ok: "schema_ok body"
  shows "(\<not> allowed (fst (rate_checked env w)) \<longrightarrow>
            (\<exists>retryAfter. apply_request env auth body w =
               (TooManyRequests (resetAt (fst (rate_checked env w))) retryAfter,
                snd (rate_checked env w)))) \<and>
         (allowed (fst (rate_checked env w)) \<and>
          cached_result env (body_idempotencyKey body) (snd (rate_checked env w)) = Some stored \<longrightarrow>
            apply_request env auth body w =
              (Sent200 (remaining (fst (rate_checked env w)))
                       (resetAt (fst (rate_checked env w))) stored,
               snd (rate_checked env w)) \<and>
            trace (snd (rate_checked env w)) = trace w \<and>
            user_window env ''undefined'' (snd (rate_checked env w)) =
              record_now (clock env w, fst (math_random env (ext w))) (clock env w)
                (kept env ''undefined'' 60 w))"
proof -
  obtain rl w1 where crl: "checkRateLimit env ''undefined'' 100 60 w = (rl, w1)" by force
  then have rc: "rate_checked env w = (rl, w1)" by (simp add: rate_checked_def)
  note h = request_handled[OF auth, of env body w]
  have 1: "\<exists>retryAfter. apply_request env auth body w = (TooManyRequests (resetAt rl) retryAfter, w1)"
    if "\<not> allowed rl"
    using handler_denied[OF ok, of env w] that rc h by simp
  have 2: "apply_request env auth body w = (Sent200 (remaining rl) (resetAt rl) stored, w1)"
    if "allowed rl" "cached_result env (body_idempotencyKey body) w1 = Some stored"
    using handler_replays[OF ok, of env w stored] that rc h by simp
  have 3: "trace w1 = trace w" using checkRateLimit_frame[OF crl] by simp
  have 4: "user_window env ''undefined'' w1 =
      record_now (clock env w, fst (math_random env (ext w))) (clock env w) (kept env ''undefined'' 60 w)"
    if "allowed rl"
    using check_contract[OF still _ crl] that by simp
  from 1 2 3 4 show ?thesis unfolding rc by simp
qed

text \<open>
  With 100 requests in the window the replay is answered 429; with none it is answered
  with the stored response, and the window holds it afterwards.
\<close>

theorem replay_after_rate_limit_witness:
  "(\<forall>x. date_now (demo_env (\<lambda>n. Inr (session_made ''S1'')) (1/2))
           (snd (math_random (demo_env (\<lambda>n. Inr (session_made ''S1'')) (1/2)) x))
         = date_now (demo_env (\<lambda>n. Inr (session_made ''S1'')) (1/2)) x) \<and>
   truthy_str (Some ''Bearer abc'') \<and>
   schema_ok replay_body \<and>
   \<not> allowed (fst (rate_checked (demo_env (\<lambda>n. Inr (session_made ''S1'')) (1/2)) busy_world)) \<and>
   (\<exists>retryAfter. apply_request (demo_env (\<lambda>n. Inr (session_made ''S1'')) (1/2)) (Some ''Bearer abc'')
        replay_body busy_world =
      (TooManyRequests
         (resetAt (fst (rate_checked (demo_env (\<lambda>n. Inr (session_made ''S1'')) (1/2)) busy_world)))
         retryAfter,
       snd (rate_checked (demo_env (\<lambda>n. Inr (session_made ''S1'')) (1/2)) busy_world))) \<and>
   allowed (fst (rate_checked (demo_env (\<lambda>n. Inr (session_made ''S1'')) (1/2)) replay_world)) \<and>
   cached_result (demo_env (\<lambda>n. Inr (session_made ''S1'')) (1/2)) (body_idempotencyKey replay_body)
      (snd (rate_checked (demo_env (\<lambda>n. Inr (session_made ''S1'')) (1/2)) replay_world))
     = Some stored_response \<and>
   apply_request (demo_env (\<lambda>n. Inr (session_made ''S1'')) (1/2)) (Some ''Bearer abc'') replay_body
      replay_world
     = (Sent200 (remaining (fst (rate_checked (demo_env (\<lambda>n. Inr (session_made ''S1'')) (1/2)) replay_world)))
                (resetAt (fst (rate_checked (demo_env (\<lambda>n. Inr (session_made ''S1'')) (1/2)) replay_world)))
                stored_response,
        snd (rate_checked (demo_env (\<lambda>n. Inr (session_made ''S1'')) (1/2)) replay_world)) \<and>
   trace (snd (rate_checked (demo_env (\<lambda>n. Inr (session_made ''S1'')) (1/2)) replay_world))
     = trace replay_world \<and>
   user_window (demo_env (\<lambda>n. Inr (session_made ''S1'')) (1/2)) ''undefined''
      (snd (rate_checked (demo_env (\<lambda>n. Inr (session_made ''S1'')) (1/2)) replay_world))
     = [((5000, 1/2), 5000)]"
proof -
  let ?E = "demo_env (\<lambda>n. Inr (session_made ''S1'')) (1/2)"
  have h1: "\<forall>x. date_now ?E (snd (math_random ?E x)) = date_now ?E x" by (simp add: demo_env_def)
  have h0: "truthy_str (Some ''Bearer abc'')" by (simp add: truthy_str_def)
  have h2: "schema_ok replay_body"
    by (simp add: schema_ok_def operation_types_def replay_body_def op_insert_def)
  have d: "\<not> allowed (fst (rate_checked ?E busy_world))"
    by (simp add: route_eval rate_eval upt_rec)
  have a: "allowed (fst (rate_checked ?E replay_world))"
    by (simp add: route_eval rate_eval)
  have c: "cached_result ?E (body_idempotencyKey replay_body) (snd (rate_checked ?E replay_world))
     = Some stored_response"
    by (simp add: route_eval rate_eval)
  note t1 = replay_after_rate_limit[where env = ?E and body = replay_body and auth = "Some ''Bearer abc''"
      and w = busy_world and stored = stored_response,
      OF h1 h0 h2, THEN conjunct1, rule_format, OF d]
  have ac: "allowed (fst (rate_checked ?E replay_world)) \<and>
     cached_result ?E (body_idempotencyKey replay_body) (snd (rate_checked ?E replay_world))
       = Some stored_response"
    using a c by simp
  note t2 = replay_after_rate_limit[where env = ?E and body = replay_body and auth = "Some ''Bearer abc''"
      and w = replay_world and stored = stored_response,
      OF h1 h0 h2, THEN conjunct2, rule_format, OF ac]
  have k: "record_now (clock ?E replay_world, fst (math_random ?E (ext replay_world))) (clock ?E replay_world)
      (kept ?E ''undefined'' 60 replay_world) = [((5000, 1/2), 5000)]"
    by (simp add: kept_def user_window_def record_now_def rate_eval replay_world_def)
  have u: "user_window ?E ''undefined'' (snd (rate_checked ?E replay_world)) = [((5000, 1/2), 5000)]"
    using t2[THEN conjunct2, THEN conjunct2] unfolding k .
  show ?thesis
    by (intro conjI h1 h0 h2 d t1 a c t2[THEN conjunct1] t2[THEN conjunct2, THEN conjunct1] u)
qed

text \<open>
  C5, as stated, fails in two ways. A second submission of a batch whose result is stored
  is answered 429, not with the stored result, when the window the rate limiter checks
  is full, because the rate-limit check comes before the lookup of the key. And a second
  submission that arrives after the stored result has expired, more than 24 hours after
  it was stored, is executed again: a token is exchanged, a session is created and the
  operation is sent.
\<close>

theorem replay_denied_counterexample:
  "fst (apply_request (demo_env (\<lambda>n. Inr (session_made ''S1'')) (1/2)) (Some ''Bearer abc'') replay_body
          busy_world) = TooManyRequests 60001 56 \<and>
   cached_result (demo_env (\<lambda>n. Inr (session_made ''S1'')) (1/2)) (body_idempotencyKey replay_body)
      busy_world = Some stored_response \<and>
   idem (store replay_world) (idem_key ''k1'') = Some (stored_response, 86400000) \<and>
   trace (snd (apply_request (demo_env (\<lambda>n. Inr (session_made ''S1'')) (1/2)) (Some ''Bearer abc'') replay_body
          (replay_world\<lparr>ext := (0, 90000000)\<rparr>)))
     = [TokenExchange ''abc'',
        GraphCall (Some ''createSession'') (createSession_request None ''wb1'') (Inr (session_made ''S1'')),
        GraphCall None insert_request (Inr (session_made ''S1''))]"
proof -
  let ?E = "demo_env (\<lambda>n. Inr (session_made ''S1'')) (1/2)"
  have 1: "fst (apply_request ?E (Some ''Bearer abc'') replay_body busy_world) = TooManyRequests 60001 56"
    by (simp add: route_eval rate_eval op_insert_def upt_rec)
  have 2: "cached_result ?E (body_idempotencyKey replay_body) busy_world = Some stored_response"
    by (simp add: route_eval rate_eval)
  have 3: "idem (store replay_world) (idem_key ''k1'') = Some (stored_response, 86400000)"
    by (simp add: replay_world_def idem_key_def)
  have 4: "trace (snd (apply_request ?E (Some ''Bearer abc'') replay_body (replay_world\<lparr>ext := (0, 90000000)\<rparr>)))
     = [TokenExchange ''abc'',
        GraphCall (Some ''createSession'') (createSession_request None ''wb1'') (Inr (session_made ''S1'')),
        GraphCall None insert_request (Inr (session_made ''S1''))]"
    by (simp add: route_eval rate_eval workbook_eval retry_eval insert_request_def op_insert_def
        applyOperation_def operation_request_def worksheet_def option_of_def workbookPath_def)
  show ?thesis by (intro conjI 1 2 3 4)
qed

lemma first_submission_stores:
  assumes key: "body_idempotencyKey body = Some k" "k \<noteq> []"
    and first: "apply_route env body user authorization w = (Sent200 r1 s1 response, w1)"
    and fresh: "cached_result env (Some k) (snd (rate_checked env w)) = None"
  shows "schema_ok body \<and> idem (store w1) (idem_key k) = Some (response, clock env w1 + 86400 * 1000)"
proof -
  obtain rl wa where crl: "checkRateLimit env ''undefined'' 100 60 w = (rl, wa)" by force
  then have rc: "rate_checked env w = (rl, wa)" by (simp add: rate_checked_def)
  note u = user_undefined[of user]
  have ok: "schema_ok body"
    using first by (auto simp: apply_route_def apply_try_def Let_def error_reply_def Error_def split: if_splits)
  have al: "allowed rl"
    using first ok crl by (auto simp: apply_route_def apply_try_def Let_def u split: if_splits)
  obtain tk wb where obo: "getOBOToken env (remove_first ''Bearer '' authorization) wa = (tk, wb)" by force
  from first ok crl al fresh rc key obo obtain token where tk: "tk = Inr token"
    by (cases tk) (auto simp: apply_route_def apply_try_def Let_def error_reply_def u split: if_splits)
  obtain ar wc where awo: "applyWorkbookOperations env token (body_itemId body) (body_driveId body)
        (body_operations body) (body_idempotencyKey body) wb = (ar, wc)" by force
  from first ok crl al fresh rc key obo tk awo obtain result where ar: "ar = Inr result"
    by (cases ar) (auto simp: apply_route_def apply_try_def Let_def error_reply_def u split: if_splits)
  from first ok crl al fresh rc key obo tk awo ar
  have "w1 = storeIdempotencyKey env k response wc"
    by (auto simp: apply_route_def apply_try_def Let_def truthy_str_def u)
  then show ?thesis using ok
    by (simp add: storeIdempotencyKey_def redis_setex_def clock_def)
qed

text \<open>
  C5, amended. Take a batch with an idempotency key whose first submission was executed
  (it was no replay itself) and answered 200 with a response, with or without
  per-operation errors. The response is then stored under the key for 24 hours. A second
  submission of the batch that reaches the handler, finds that record and arrives no
  later than 24 hours after it was stored is answered by what the rate-limit check of
  the handler says. Admitted, it is answered 200 with a response identical to the stored
  one, and adds nothing to the trace: no token exchange, no session creation, no
  operation is sent. Denied, it is answered 429, and adds nothing to the trace either.
  The record of a key is under that key alone: no other key names it.
\<close>

theorem idempotent_replay:
  assumes still: "\<forall>x. date_now env (snd (math_random env x)) = date_now env x"
    and key: "body_idempotencyKey body = Some k" "k \<noteq> []"
    and first: "apply_request env auth body w = (Sent200 r1 s1 response, w1)"
    and fresh: "cached_result env (Some k) (snd (rate_checked env w)) = None"
    and auth2: "truthy_str auth2"
    and same: "idem (store w2) (idem_key k) = idem (store w1) (idem_key k)"
    and within: "clock env w2 \<le> clock env w1 + 86400 * 1000"
  shows "idem (store w1) (idem_key k) = Some (response, clock env w1 + 86400 * 1000) \<and>
         (allowed (fst (rate_checked env w2)) \<longrightarrow>
            (\<exists>r2 s2 w3. apply_request env auth2 body w2 = (Sent200 r2 s2 response, w3) \<and>
               trace w3 = trace w2 \<and> breakers w3 = breakers w2 \<and>
               sessions (store w3) = sessions (store w2) \<and> idem (store w3) = idem (store w2))) \<and>
         (\<not> allowed (fst (rate_checked env w2)) \<longrightarrow>
            (\<exists>reset retryAfter w3. apply_request env auth2 body w2 = (TooManyRequests reset retryAfter, w3) \<and>
               trace w3 = trace w2 \<and> breakers w3 = breakers w2 \<and>
               sessions (store w3) = sessions (store w2) \<and> idem (store w3) = idem (store w2))) \<and>
         (\<forall>k'. idem_key k' = idem_key k \<longrightarrow> k' = k)"
proof -
  have inj: "\<forall>k'. idem_key k' = idem_key k \<longrightarrow> k' = k" by (simp add: idem_key_def)
  have auth: "truthy_str auth"
  proof (rule ccontr)
    assume "\<not> truthy_str auth"
    from request_refused[OF this, of env body w] first show False by simp
  qed
  from first have first': "apply_route env body (Pending (remove_first ''Bearer '' (the auth))) (the auth) w
      = (Sent200 r1 s1 response, w1)"
    by (simp add: request_handled[OF auth])
  from first_submission_stores[OF key first' fresh]
  have ok: "schema_ok body" and st: "idem (store w1) (idem_key k) = Some (response, clock env w1 + 86400 * 1000)"
    by simp_all
  obtain rl wa where crl: "checkRateLimit env ''undefined'' 100 60 w2 = (rl, wa)" by force
  then have rc: "rate_checked env w2 = (rl, wa)" by (simp add: rate_checked_def)
  note fr = checkRateLimit_frame[OF crl]
  note h = request_handled[OF auth2, of env body w2]
  have ck: "clock env wa = clock env w2" by (rule checkRateLimit_clock[OF still crl])
  have "redis_get (clock env wa) (idem (store wa)) (idem_key k) = Some response"
    using fr same st within ck by (simp add: redis_get_def live_def)
  then have cached: "cached_result env (body_idempotencyKey body) wa = Some response"
    using key by (simp add: cached_result_def truthy_str_def checkIdempotencyKey_def getIdempotencyResult_def)
  have a: "\<exists>r2 s2 w3. apply_request env auth2 body w2 = (Sent200 r2 s2 response, w3) \<and>
               trace w3 = trace w2 \<and> breakers w3 = breakers w2 \<and>
               sessions (store w3) = sessions (store w2) \<and> idem (store w3) = idem (store w2)"
    if "allowed rl"
    using handler_replays[OF ok, of env w2 response] that cached rc h fr by simp
  have d: "\<exists>reset retryAfter w3. apply_request env auth2 body w2 = (TooManyRequests reset retryAfter, w3) \<and>
               trace w3 = trace w2 \<and> breakers w3 = breakers w2 \<and>
               sessions (store w3) = sessions (store w2) \<and> idem (store w3) = idem (store w2)"
    if na: "\<not> allowed rl"
  proof -
    from na rc have "\<not> allowed (fst (rate_checked env w2))" by simp
    from handler_denied[OF ok this, where user = "Pending (remove_first ''Bearer '' (the auth2))"
        and authorization = "the auth2"] rc
    obtain ra where "apply_route env body (Pending (remove_first ''Bearer '' (the auth2))) (the auth2) w2
        = (TooManyRequests (resetAt rl) ra, wa)"
      by auto
    with h fr show ?thesis by auto
  qed
  from st a d inj show ?thesis unfolding rc by simp
qed

text \<open>
  A batch whose first operation is refused and asks to continue, submitted at 1 second
  and again at 50 seconds: the second answer carries the stored response, partial error
  included. Submitted again when the window of the rate limiter is full, it is answered
  429.
\<close>

theorem idempotent_replay_witness:
  "(\<forall>x. date_now (demo_env (refuse_at 1) (1/2)) (snd (math_random (demo_env (refuse_at 1) (1/2)) x))
         = date_now (demo_env (refuse_at 1) (1/2)) x) \<and>
   body_idempotencyKey partial_body = Some ''k1'' \<and> ''k1'' \<noteq> [] \<and>
   apply_request (demo_env (refuse_at 1) (1/2)) (Some ''Bearer abc'') partial_body (demo_world 1000)
     = (Sent200 99 61000 partial_response,
        snd (apply_request (demo_env (refuse_at 1) (1/2)) (Some ''Bearer abc'') partial_body (demo_world 1000))) \<and>
   cached_result (demo_env (refuse_at 1) (1/2)) (Some ''k1'')
      (snd (rate_checked (demo_env (refuse_at 1) (1/2)) (demo_world 1000))) = None \<and>
   truthy_str (Some ''Bearer xyz'') \<and>
   clock (demo_env (refuse_at 1) (1/2))
      ((snd (apply_request (demo_env (refuse_at 1) (1/2)) (Some ''Bearer abc'') partial_body (demo_world 1000)))
         \<lparr>ext := (3, 50000)\<rparr>)
     \<le> clock (demo_env (refuse_at 1) (1/2))
          (snd (apply_request (demo_env (refuse_at 1) (1/2)) (Some ''Bearer abc'') partial_body (demo_world 1000)))
        + 86400 * 1000 \<and>
   allowed (fst (rate_checked (demo_env (refuse_at 1) (1/2))
      ((snd (apply_request (demo_env (refuse_at 1) (1/2)) (Some ''Bearer abc'') partial_body (demo_world 1000)))
         \<lparr>ext := (3, 50000)\<rparr>))) \<and>
   (\<exists>r2 s2 w3.
      apply_request (demo_env (refuse_at 1) (1/2)) (Some ''Bearer xyz'') partial_body
        ((snd (apply_request (demo_env (refuse_at 1) (1/2)) (Some ''Bearer abc'') partial_body (demo_world 1000)))
           \<lparr>ext := (3, 50000)\<rparr>)
        = (Sent200 r2 s2 partial_response, w3) \<and>
      trace w3 = trace ((snd (apply_request (demo_env (refuse_at 1) (1/2)) (Some ''Bearer abc'') partial_body
                               (demo_world 1000)))\<lparr>ext := (3, 50000)\<rparr>)) \<and>
   \<not> allowed (fst (rate_checked (demo_env (refuse_at 1) (1/2))
      ((snd (apply_request (demo_env (refuse_at 1) (1/2)) (Some ''Bearer abc'') partial_body (demo_world 1000)))
         \<lparr>ext := (3, 5000),
          store := (store (snd (apply_request (demo_env (refuse_at 1) (1/2)) (Some ''Bearer abc'') partial_body
                                  (demo_world 1000))))\<lparr>rate := rate (store busy_world)\<rparr>\<rparr>))) \<and>
   (\<exists>reset retryAfter w3.
      apply_request (demo_env (refuse_at 1) (1/2)) (Some ''Bearer xyz'') partial_body
        ((snd (apply_request (demo_env (refuse_at 1) (1/2)) (Some ''Bearer abc'') partial_body (demo_world 1000)))
           \<lparr>ext := (3, 5000),
            store := (store (snd (apply_request (demo_env (refuse_at 1) (1/2)) (Some ''Bearer abc'') partial_body
                                    (demo_world 1000))))\<lparr>rate := rate (store busy_world)\<rparr>\<rparr>)
        = (TooManyRequests reset retryAfter, w3) \<and>
      trace w3 = trace (snd (apply_request (demo_env (refuse_at 1) (1/2)) (Some ''Bearer abc'') partial_body
                               (demo_world 1000)))) \<and>
   idem_key ''k2'' \<noteq> idem_key ''k1'' \<and>
   errors partial_response = Some [(0, ''Bad Request'')]"
proof -
  let ?E = "demo_env (refuse_at 1) (1/2)"
  let ?first = "apply_request ?E (Some ''Bearer abc'') partial_body (demo_world 1000)"
  let ?w2 = "(snd ?first)\<lparr>ext := (3, 50000)\<rparr>"
  let ?w2d = "(snd ?first)\<lparr>ext := (3, 5000), store := (store (snd ?first))\<lparr>rate := rate (store busy_world)\<rparr>\<rparr>"
  note ev = route_eval rate_eval workbook_eval retry_eval
  have h1: "\<forall>x. date_now ?E (snd (math_random ?E x)) = date_now ?E x" by (simp add: demo_env_def)
  have h2: "body_idempotencyKey partial_body = Some ''k1''" by (simp add: partial_body_def)
  have h3: "''k1'' \<noteq> []" by simp
  have f: "fst ?first = Sent200 99 61000 partial_response" by (simp add: ev)
  then have h4: "?first = (Sent200 99 61000 partial_response, snd ?first)"
    by (metis prod.collapse)
  have h5: "cached_result ?E (Some ''k1'') (snd (rate_checked ?E (demo_world 1000))) = None"
    by (simp add: ev)
  have h0: "truthy_str (Some ''Bearer xyz'')" by (simp add: truthy_str_def)
  have h6: "idem (store ?w2) (idem_key ''k1'') = idem (store (snd ?first)) (idem_key ''k1'')" by simp
  have h6d: "idem (store ?w2d) (idem_key ''k1'') = idem (store (snd ?first)) (idem_key ''k1'')" by simp
  have c1: "clock ?E (snd ?first) = 1000" by (simp add: ev)
  have h7: "clock ?E ?w2 \<le> clock ?E (snd ?first) + 86400 * 1000"
    unfolding c1 by (simp add: clock_def demo_env_def)
  have h7d: "clock ?E ?w2d \<le> clock ?E (snd ?first) + 86400 * 1000"
    unfolding c1 by (simp add: clock_def demo_env_def)
  have h8: "allowed (fst (rate_checked ?E ?w2))" by (simp add: ev)
  have h8d: "\<not> allowed (fst (rate_checked ?E ?w2d))"
    by (simp add: rate_checked_def rate_eval busy_world_def upt_rec)
  note t = idempotent_replay[OF h1 h2 h3 h4 h5 h0 h6 h7, THEN conjunct2, THEN conjunct1, rule_format, OF h8]
  note td = idempotent_replay[OF h1 h2 h3 h4 h5 h0 h6d h7d, THEN conjunct2, THEN conjunct2, THEN conjunct1,
      rule_format, OF h8d]
  note ti = idempotent_replay[OF h1 h2 h3 h4 h5 h0 h6 h7, THEN conjunct2, THEN conjunct2, THEN conjunct2,
      rule_format, of "''k2''"]
  have i: "idem_key ''k2'' \<noteq> idem_key ''k1''" using ti by auto
  from t have c: "\<exists>r2 s2 w3. apply_request ?E (Some ''Bearer xyz'') partial_body ?w2
        = (Sent200 r2 s2 partial_response, w3) \<and> trace w3 = trace ?w2"
    by blast
  from td have cd: "\<exists>reset retryAfter w3. apply_request ?E (Some ''Bearer xyz'') partial_body ?w2d
        = (TooManyRequests reset retryAfter, w3) \<and> trace w3 = trace (snd ?first)"
    by auto
  have e: "errors partial_response = Some [(0, ''Bad Request'')]" by (simp add: partial_response_def)
  show ?thesis by (intro conjI h1 h2 h3 h4 h5 h0 h7 h8 c h8d cd i e)
qed

end
